theory Spec2Isabelle
  imports Main "HOL-Library.Word"
begin

unbundle bit_operations_syntax

section \<open>MIMPI: the per-process message-passing runtime of \<^verbatim>\<open>mimpi.c\<close>\<close>

text \<open>
  The development follows \<^verbatim>\<open>src/mimpi.c\<close>.  C \<^verbatim>\<open>int\<close> values (ranks, tags, counts) are
  modelled as \<^typ>\<open>int\<close>; no arithmetic of the library leaves the 32-bit range as long as
  the world has at most \<^verbatim>\<open>MAXSIZE = 16\<close> processes, which the fixed-size global arrays
  of the source require.  Bytes are \<^typ>\<open>8 word\<close>, so that \<^verbatim>\<open>+=\<close> and \<^verbatim>\<open>*=\<close> on
  \<^verbatim>\<open>u_int8_t\<close> wrap modulo 256.
\<close>

type_synonym u8 = "8 word"

subsection \<open>Constants\<close>

definition MAXSIZE :: int where
  "MAXSIZE = 16"

text \<open>\<^verbatim>\<open>METADATA_SIZE\<close> is \<^verbatim>\<open>2 * sizeof(int)\<close>, with 4-byte \<^verbatim>\<open>int\<close>.\<close>

definition METADATA_SIZE :: int where
  "METADATA_SIZE = 8"

definition MIMPI_DEFAULT_COUNT :: int where
  "MIMPI_DEFAULT_COUNT = - 1"

definition MIMPI_DEFAULT_SOURCE :: int where
  "MIMPI_DEFAULT_SOURCE = - 1"

text \<open>The enumeration \<^verbatim>\<open>MIMPI_Tags\<close>.\<close>

definition MIMPI_ZERO_TAG :: int where
  "MIMPI_ZERO_TAG = 0"

definition MIMPI_DEFAULT_TAG :: int where
  "MIMPI_DEFAULT_TAG = - 1"

definition MIMPI_NO_MESSAGE_TAG :: int where
  "MIMPI_NO_MESSAGE_TAG = - 2"

definition MIMPI_BROADCAST_TAG :: int where
  "MIMPI_BROADCAST_TAG = - 3"

definition MIMPI_DEADLOCK_TAG :: int where
  "MIMPI_DEADLOCK_TAG = - 4"

definition MIMPI_WAITING_TAG :: int where
  "MIMPI_WAITING_TAG = - 5"

definition MIMPI_RECEIVED_TAG :: int where
  "MIMPI_RECEIVED_TAG = - 6"

definition MIMPI_MAX_TAG :: int where
  "MIMPI_MAX_TAG = - 7"

definition MIMPI_MIN_TAG :: int where
  "MIMPI_MIN_TAG = - 8"

definition MIMPI_SUM_TAG :: int where
  "MIMPI_SUM_TAG = - 9"

definition MIMPI_PROD_TAG :: int where
  "MIMPI_PROD_TAG = - 10"

subsection \<open>The public header \<^verbatim>\<open>mimpi.h\<close>\<close>

text \<open>
  Modelled from the spec: the header \<^verbatim>\<open>mimpi.h\<close> is not among the sources.  It declares the
  wildcard tag, the return codes and the reduction operators.  The specification (tag
  taxonomy) gives \<^verbatim>\<open>ANY_TAG = -1\<close>.
\<close>

definition MIMPI_ANY_TAG :: int where
  "MIMPI_ANY_TAG = - 1"

text \<open>
  Modelled from the spec: the return codes of \<^verbatim>\<open>mimpi.h\<close>, one per error kind of the
  specification (success, self-op, no-such-rank, remote-finished, deadlock-detected).
\<close>

datatype MIMPI_Retcode =
    MIMPI_SUCCESS
  | MIMPI_ERROR_ATTEMPTED_SELF_OP
  | MIMPI_ERROR_NO_SUCH_RANK
  | MIMPI_ERROR_REMOTE_FINISHED
  | MIMPI_ERROR_DEADLOCK_DETECTED

text \<open>
  Modelled from the spec: the reduction operators of \<^verbatim>\<open>mimpi.h\<close>.  The specification encodes
  the operator into the tag space as the reduce base minus the operator's index, with carrier
  tags MAX = -7, MIN = -8, SUM = -9, PROD = -10; hence the indices 0, 1, 2, 3.
\<close>

datatype MIMPI_Op = MIMPI_MAX | MIMPI_MIN | MIMPI_SUM | MIMPI_PROD

fun op_index :: "MIMPI_Op \<Rightarrow> int" where
  "op_index MIMPI_MAX = 0"
| "op_index MIMPI_MIN = 1"
| "op_index MIMPI_SUM = 2"
| "op_index MIMPI_PROD = 3"

subsection \<open>Messages\<close>

text \<open>
  The struct \<^verbatim>\<open>Message\<close>.  The pointer \<^verbatim>\<open>data\<close> is \<^term>\<open>None\<close> when it is \<^verbatim>\<open>NULL\<close> and
  otherwise holds the bytes of the buffer it points to.
\<close>

record Message =
  tag :: int
  count :: int
  source :: int
  data :: "u8 list option"
  received :: bool

definition MIMPI_DEFAULT_MSG :: Message where
  "MIMPI_DEFAULT_MSG =
     \<lparr>tag = MIMPI_DEFAULT_TAG, count = MIMPI_DEFAULT_COUNT, source = MIMPI_DEFAULT_SOURCE,
      data = None, received = False\<rparr>"

definition create_message :: "int \<Rightarrow> int \<Rightarrow> int \<Rightarrow> u8 list option \<Rightarrow> Message" where
  "create_message tg cnt src dat =
     \<lparr>tag = tg, count = cnt, source = src, data = dat, received = False\<rparr>"

definition compare_message :: "Message \<Rightarrow> Message \<Rightarrow> bool" where
  "compare_message a b \<longleftrightarrow>
     source a = source b \<and> count a = count b \<and> (tag b = MIMPI_ANY_TAG \<or> tag a = tag b)"

text \<open>
  The doubly-linked lists of the source keep their elements between two sentinels (confusingly,
  \<^verbatim>\<open>tail\<close> is the sentinel in front and \<^verbatim>\<open>head\<close> the one at the end); \<^verbatim>\<open>push_front\<close>
  links a new element before \<^verbatim>\<open>head\<close>, that is, at the end.  The elements of a list are a
  HOL list, in the order from \<^verbatim>\<open>tail->next\<close> on.

  \<^verbatim>\<open>find_elem_in_list\<close> walks from \<^verbatim>\<open>tail->next\<close> and stops at the first element whose message
  \<^verbatim>\<open>compare_message\<close> accepts, or at \<^verbatim>\<open>head\<close>.  The result is the position of the element it
  returns; the position \<^term>\<open>length l\<close> stands for \<^verbatim>\<open>head\<close>.
\<close>

fun find_elem_in_list :: "Message list \<Rightarrow> Message \<Rightarrow> nat" where
  "find_elem_in_list [] to_compare = 0"
| "find_elem_in_list (m # l) to_compare =
     (if compare_message m to_compare then 0 else Suc (find_elem_in_list l to_compare))"

subsection \<open>The reduce combine step\<close>

text \<open>
  The four loops of \<^verbatim>\<open>handle_reduce_operation\<close> have the same shape:
  \<^verbatim>\<open>for (int i = 0; i < count; i++) dataInt[i] = f(dataInt[i], messageDataInt[i])\<close>.
  Both buffers hold at least \<^verbatim>\<open>count\<close> bytes in the source (an access beyond a buffer is
  undefined in C); the theorems below assume it.
\<close>

function reduce_loop ::
  "(u8 \<Rightarrow> u8 \<Rightarrow> u8) \<Rightarrow> int \<Rightarrow> int \<Rightarrow> u8 list \<Rightarrow> u8 list \<Rightarrow> u8 list" where
  "reduce_loop f i cnt messageDataInt dataInt =
     (if i < cnt
      then reduce_loop f (i + 1) cnt messageDataInt
             (dataInt[nat i := f (dataInt ! nat i) (messageDataInt ! nat i)])
      else dataInt)"
  by pat_completeness auto
termination
  by (relation "measure (\<lambda>(f, i, cnt, m, d). nat (cnt - i))") auto

declare reduce_loop.simps [simp del]

text \<open>
  The macros \<^verbatim>\<open>MAX\<close> and \<^verbatim>\<open>MIN\<close>, on unsigned bytes (the names \<^verbatim>\<open>MAX\<close> and \<^verbatim>\<open>MIN\<close>
  are binders of HOL, hence the suffix).
\<close>

definition MAX_u8 :: "u8 \<Rightarrow> u8 \<Rightarrow> u8" where
  "MAX_u8 a b = (if a > b then a else b)"

definition MIN_u8 :: "u8 \<Rightarrow> u8 \<Rightarrow> u8" where
  "MIN_u8 a b = (if a < b then a else b)"

definition handle_reduce_operation :: "u8 list \<Rightarrow> int \<Rightarrow> int \<Rightarrow> u8 list \<Rightarrow> u8 list" where
  "handle_reduce_operation received_data cnt tg dat =
     (if tg = MIMPI_MAX_TAG then reduce_loop MAX_u8 0 cnt received_data dat
      else if tg = MIMPI_MIN_TAG then reduce_loop MIN_u8 0 cnt received_data dat
      else if tg = MIMPI_SUM_TAG then reduce_loop (\<lambda>a b. a + b) 0 cnt received_data dat
      else reduce_loop (\<lambda>a b. a * b) 0 cnt received_data dat)"

subsection \<open>Copying into a buffer\<close>

text \<open>
  \<^verbatim>\<open>memcpy(dst, src, n)\<close> on the contents of two buffers of at least \<^verbatim>\<open>n\<close> bytes.
\<close>

definition memcpy :: "u8 list \<Rightarrow> u8 list \<Rightarrow> int \<Rightarrow> u8 list" where
  "memcpy dst src n = take (nat n) src @ drop (nat n) dst"

text \<open>
  The end of \<^verbatim>\<open>MIMPI_Recv\<close>, after the message was taken off the queue: a reduce carrier
  (\<^verbatim>\<open>tag <= MIMPI_MAX_TAG\<close>) is folded into the caller's buffer, any other payload is
  copied into it, and a \<^verbatim>\<open>MIMPI_NO_MESSAGE_TAG\<close> receive leaves it alone.
\<close>

definition Recv_copy_out :: "u8 list \<Rightarrow> int \<Rightarrow> int \<Rightarrow> u8 list \<Rightarrow> u8 list" where
  "Recv_copy_out to_receive cnt tg dat =
     (if tg \<le> MIMPI_MAX_TAG then handle_reduce_operation to_receive cnt tg dat
      else if tg \<noteq> MIMPI_NO_MESSAGE_TAG then memcpy dat to_receive cnt
      else dat)"

subsection \<open>Lists of messages\<close>

text \<open>
  A list of the source is either intact, and then it is given by its elements, or
  \<open>Broken\<close>: it was never created (the lists of the deadlock protocol exist only when
  detection is on, the lists of index \<^verbatim>\<open>world_rank\<close> never), or \<^verbatim>\<open>remove_from_list\<close> was
  applied to its end sentinel \<^verbatim>\<open>head\<close>, which frees the sentinel and leaves \<^verbatim>\<open>l->head\<close>
  dangling.  Every access to a broken list is undefined behaviour in C; the functions below
  then have no result (\<^term>\<open>None\<close>, or \<open>Fault\<close> for a receive).
\<close>

datatype msg_list = Elems "Message list" | Broken

definition create_list :: msg_list where
  "create_list = Elems []"

text \<open>\<^verbatim>\<open>push_front\<close> links the element before \<^verbatim>\<open>head\<close>: it becomes the last one.\<close>

definition push_front :: "msg_list \<Rightarrow> Message \<Rightarrow> msg_list option" where
  "push_front l m = (case l of Elems xs \<Rightarrow> Some (Elems (xs @ [m])) | Broken \<Rightarrow> None)"

text \<open>
  \<^verbatim>\<open>remove_from_list\<close> unlinks and frees the element at a position; the position
  \<^term>\<open>length xs\<close> is the sentinel \<^verbatim>\<open>head\<close>.  Position 0 is \<^verbatim>\<open>l->tail->next\<close>.
\<close>

definition remove_from_list :: "Message list \<Rightarrow> nat \<Rightarrow> msg_list" where
  "remove_from_list xs i = (if i < length xs then Elems (take i xs @ drop (Suc i) xs) else Broken)"

subsection \<open>Channels\<close>

text \<open>
  An \<^verbatim>\<open>int\<close> is copied into a frame with \<^verbatim>\<open>memcpy(to_send, &count, sizeof(int))\<close>: four bytes
  in host order, here little-endian two's complement; \<^const>\<open>word_of_int\<close> is the identity
  on the values of a C \<^verbatim>\<open>int\<close>.  The reader copies them back the same way.
\<close>

definition int_bytes :: "int \<Rightarrow> u8 list" where
  "int_bytes x =
     (let w = (word_of_int x :: 32 word)
      in [ucast w, ucast (drop_bit 8 w), ucast (drop_bit 16 w), ucast (drop_bit 24 w)])"

definition bytes_int :: "u8 list \<Rightarrow> int" where
  "bytes_int bs =
     sint ((ucast (bs ! 0) OR push_bit 8 (ucast (bs ! 1)) OR push_bit 16 (ucast (bs ! 2))
            OR push_bit 24 (ucast (bs ! 3))) :: 32 word)"

text \<open>
  \<^verbatim>\<open>read_from_channel\<close> on the bytes a channel still delivers before its end of file.  It
  returns the pair \<^verbatim>\<open>(error_occured, data)\<close> of the \<^verbatim>\<open>Readcode\<close> and the bytes left.  The
  buffer \<^verbatim>\<open>data\<close> always has \<^verbatim>\<open>count\<close> bytes; those not read are indeterminate in C and zero
  here.  The loop over short reads of \<^verbatim>\<open>chrecv\<close> is not modelled: \<^verbatim>\<open>chrecv\<close> belongs to the
  channel library.
\<close>

definition read_from_channel :: "u8 list \<Rightarrow> nat \<Rightarrow> (bool \<times> u8 list) \<times> u8 list" where
  "read_from_channel stream n =
     (if n \<le> length stream then ((False, take n stream), drop n stream)
      else ((True, stream @ replicate (n - length stream) 0), []))"

subsection \<open>The state of a process\<close>

text \<open>
  The global variables of \<^verbatim>\<open>mimpi.c\<close>, together with the two values read from the
  environment (\<^verbatim>\<open>MIMPI_World_size()\<close>, \<^verbatim>\<open>MIMPI_World_rank()\<close>) and the outgoing channels:
  \<open>channel_open d\<close> tells whether a write to the channel towards \<open>d\<close> succeeds, and
  \<open>wire d\<close> holds the bytes written to it so far.  The arrays indexed by rank are functions.
  Mutex and condition variable are not part of the state: everything below that touches the
  state runs with the mutex held, so each definition is one atomic step of its thread.
\<close>

record MIMPI_state =
  MIMPI_World_size :: int
  MIMPI_World_rank :: int
  MIMPI_waiting :: Message
  MIMPI_deadlock_enabled :: bool
  MIMPI_already_left :: "int \<Rightarrow> bool"
  MIMPI_send_not_received :: msg_list
  MIMPI_others_recv :: "int \<Rightarrow> msg_list"
  MIMPI_received_messages :: "int \<Rightarrow> msg_list"
  channel_open :: "int \<Rightarrow> bool"
  wire :: "int \<Rightarrow> u8 list"

text \<open>
  \<^verbatim>\<open>write_to_channel\<close>: all bytes are written, or the write fails (\<^verbatim>\<open>chsend\<close> returns an
  error once the reading end is closed).  A channel is named by its destination instead of
  the descriptor \<^verbatim>\<open>calculate_file_descriptor(world_size, destination, sender) + 1\<close>.
\<close>

definition write_to_channel :: "MIMPI_state \<Rightarrow> int \<Rightarrow> u8 list \<Rightarrow> bool \<times> MIMPI_state" where
  "write_to_channel st destination to_send =
     (if channel_open st destination
      then (True, st\<lparr>wire := (wire st)(destination := wire st destination @ to_send)\<rparr>)
      else (False, st))"

text \<open>The state \<^verbatim>\<open>MIMPI_Init\<close> sets up, with all channels open and nothing written.\<close>

definition MIMPI_Init :: "int \<Rightarrow> int \<Rightarrow> bool \<Rightarrow> MIMPI_state" where
  "MIMPI_Init wsize wrank enable_deadlock_detection =
     \<lparr>MIMPI_World_size = wsize, MIMPI_World_rank = wrank,
      MIMPI_waiting = MIMPI_DEFAULT_MSG,
      MIMPI_deadlock_enabled = enable_deadlock_detection,
      MIMPI_already_left = (\<lambda>i. False),
      MIMPI_send_not_received = (if enable_deadlock_detection then create_list else Broken),
      MIMPI_others_recv =
        (\<lambda>i. if enable_deadlock_detection \<and> 0 \<le> i \<and> i < wsize \<and> i \<noteq> wrank
             then create_list else Broken),
      MIMPI_received_messages =
        (\<lambda>i. if 0 \<le> i \<and> i < wsize \<and> i \<noteq> wrank then create_list else Broken),
      channel_open = (\<lambda>i. True), wire = (\<lambda>i. [])\<rparr>"

subsection \<open>Send\<close>

text \<open>
  The bookkeeping of \<^verbatim>\<open>MIMPI_Send\<close> under the mutex, run when detection is on and
  \<^verbatim>\<open>tag >= MIMPI_ANY_TAG\<close>: a first notification of the destination with this count and tag
  is removed, and the send is appended to \<^verbatim>\<open>MIMPI_send_not_received\<close>.
\<close>

definition Send_bookkeeping :: "MIMPI_state \<Rightarrow> int \<Rightarrow> int \<Rightarrow> int \<Rightarrow> MIMPI_state option" where
  "Send_bookkeeping st cnt destination tg =
     (case MIMPI_others_recv st destination of
        Broken \<Rightarrow> None
      | Elems ws \<Rightarrow>
          (let others =
                 (case ws of
                    msg # rest \<Rightarrow>
                      if count msg = cnt \<and> tag msg = tg then remove_from_list ws 0 else Elems ws
                  | [] \<Rightarrow> Elems ws)
           in Option.bind
                (push_front (MIMPI_send_not_received st) (create_message tg cnt destination None))
                (\<lambda>snr. Some (st\<lparr>MIMPI_others_recv := (MIMPI_others_recv st)(destination := others),
                                MIMPI_send_not_received := snr\<rparr>))))"

text \<open>
  The buffer \<^verbatim>\<open>to_send\<close>: the two header fields, followed by \<^verbatim>\<open>count\<close> bytes of \<^verbatim>\<open>data\<close>
  unless the tag is \<^verbatim>\<open>MIMPI_NO_MESSAGE_TAG\<close> or \<^verbatim>\<open>MIMPI_DEADLOCK_TAG\<close>.  Copying \<^verbatim>\<open>count\<close>
  bytes needs a buffer that holds them.
\<close>

definition frame :: "u8 list option \<Rightarrow> int \<Rightarrow> int \<Rightarrow> u8 list option" where
  "frame dat cnt tg =
     (if tg \<noteq> MIMPI_NO_MESSAGE_TAG \<and> tg \<noteq> MIMPI_DEADLOCK_TAG
      then (case dat of
              None \<Rightarrow> None
            | Some d \<Rightarrow>
                if 0 \<le> cnt \<and> nat cnt \<le> length d
                then Some (int_bytes cnt @ int_bytes tg @ take (nat cnt) d)
                else None)
      else Some (int_bytes cnt @ int_bytes tg))"

definition MIMPI_Send ::
  "MIMPI_state \<Rightarrow> u8 list option \<Rightarrow> int \<Rightarrow> int \<Rightarrow> int \<Rightarrow> (MIMPI_Retcode \<times> MIMPI_state) option" where
  "MIMPI_Send st dat cnt destination tg =
     (if destination < 0 \<or> destination \<ge> MIMPI_World_size st
      then Some (MIMPI_ERROR_NO_SUCH_RANK, st)
      else if destination = MIMPI_World_rank st then Some (MIMPI_ERROR_ATTEMPTED_SELF_OP, st)
      else
        Option.bind
          (if MIMPI_deadlock_enabled st \<and> tg \<ge> MIMPI_ANY_TAG
           then Send_bookkeeping st cnt destination tg else Some st)
          (\<lambda>st1.
             Option.bind (frame dat cnt tg)
               (\<lambda>to_send.
                  case write_to_channel st1 destination to_send of
                    (ok, st2) \<Rightarrow>
                      Some (if ok then MIMPI_SUCCESS else MIMPI_ERROR_REMOTE_FINISHED, st2))))"

subsection \<open>The reader thread\<close>

text \<open>
  The first half of an iteration of \<^verbatim>\<open>handle_channel\<close>: read the header, decode \<^verbatim>\<open>count\<close> and
  \<^verbatim>\<open>tag\<close>, and read a body of \<^verbatim>\<open>count\<close> bytes unless the tag is \<^verbatim>\<open>MIMPI_NO_MESSAGE_TAG\<close> or
  \<^verbatim>\<open>MIMPI_DEADLOCK_TAG\<close>.  An error while reading the header is the end of the channel; an
  error while reading the body is ignored by the source.  A negative \<^verbatim>\<open>count\<close>, converted to
  \<^verbatim>\<open>size_t\<close>, cannot be allocated.
\<close>

datatype frame_read =
    Frame_EOF
  | Frame_fault
  | Frame int int "u8 list option" "u8 list"

definition read_frame :: "u8 list \<Rightarrow> frame_read" where
  "read_frame stream =
     (case read_from_channel stream (nat METADATA_SIZE) of
        ((True, info), rest) \<Rightarrow> Frame_EOF
      | ((False, info), rest) \<Rightarrow>
          (let cnt = bytes_int (take 4 info); tg = bytes_int (take 4 (drop 4 info))
           in if tg \<noteq> MIMPI_NO_MESSAGE_TAG \<and> tg \<noteq> MIMPI_DEADLOCK_TAG
              then if cnt < 0 then Frame_fault
                   else (case read_from_channel rest (nat cnt) of
                           ((err, message_data), rest') \<Rightarrow> Frame cnt tg (Some message_data) rest')
              else Frame cnt tg None rest))"

text \<open>
  The second half: for \<^verbatim>\<open>MIMPI_WAITING_TAG\<close> and \<^verbatim>\<open>MIMPI_RECEIVED_TAG\<close> the count and tag the
  body carries replace those of the header; then the message is dispatched under the mutex.
\<close>

definition handle_message ::
  "MIMPI_state \<Rightarrow> int \<Rightarrow> int \<Rightarrow> int \<Rightarrow> u8 list option \<Rightarrow> MIMPI_state option" where
  "handle_message st sender cnt0 tg0 message_data =
     Option.bind
       (if tg0 = MIMPI_WAITING_TAG \<or> tg0 = MIMPI_RECEIVED_TAG
        then (case message_data of
                None \<Rightarrow> None
              | Some d \<Rightarrow>
                  if nat METADATA_SIZE \<le> length d
                  then Some (bytes_int (take 4 d), bytes_int (take 4 (drop 4 d)))
                  else None)
        else Some (cnt0, tg0))
       (\<lambda>(cnt, tg).
          let message = create_message tg cnt sender message_data;
              waiting_tag = (tg0 = MIMPI_WAITING_TAG);
              receive_tag = (tg0 = MIMPI_RECEIVED_TAG)
          in
          if tg = MIMPI_DEADLOCK_TAG then
            Option.bind (push_front (MIMPI_others_recv st sender) message)
              (\<lambda>l. Some (st\<lparr>MIMPI_waiting :=
                               (MIMPI_waiting st)\<lparr>tag := MIMPI_DEADLOCK_TAG, received := True\<rparr>,
                             MIMPI_others_recv := (MIMPI_others_recv st)(sender := l)\<rparr>))
          else if waiting_tag then
            (case MIMPI_send_not_received st of
               Broken \<Rightarrow> None
             | Elems s \<Rightarrow>
                 if find_elem_in_list s message = length s then
                   Option.bind (push_front (MIMPI_others_recv st sender) message)
                     (\<lambda>l. let st1 = st\<lparr>MIMPI_others_recv := (MIMPI_others_recv st)(sender := l)\<rparr>
                           in Some (if source (MIMPI_waiting st) = sender
                                       \<and> \<not> received (MIMPI_waiting st)
                                    then st1\<lparr>MIMPI_waiting :=
                                           (MIMPI_waiting st)\<lparr>received := True,
                                                               tag := MIMPI_DEADLOCK_TAG\<rparr>\<rparr>
                                    else st1))
                 else Some st)
          else if receive_tag then
            (case MIMPI_send_not_received st of
               Broken \<Rightarrow> None
             | Elems s \<Rightarrow>
                 Some (st\<lparr>MIMPI_send_not_received :=
                           remove_from_list s (find_elem_in_list s message)\<rparr>))
          else
            Option.bind (push_front (MIMPI_received_messages st sender) message)
              (\<lambda>l. let st1 = st\<lparr>MIMPI_received_messages :=
                                   (MIMPI_received_messages st)(sender := l)\<rparr>
                    in Some (if compare_message message (MIMPI_waiting st)
                             then st1\<lparr>MIMPI_waiting := message\<lparr>received := True\<rparr>\<rparr>
                             else st1)))"

text \<open>
  One iteration of the loop of \<^verbatim>\<open>handle_channel\<close> for the peer \<^verbatim>\<open>sender\<close>, on the bytes its
  channel still delivers.  The result is the new state and the bytes left, or \<^term>\<open>None\<close>
  in their place when the thread has seen the end of the channel and left the loop.
\<close>

definition handle_channel_iteration ::
  "MIMPI_state \<Rightarrow> int \<Rightarrow> u8 list \<Rightarrow> (MIMPI_state \<times> u8 list option) option" where
  "handle_channel_iteration st sender stream =
     (case read_frame stream of
        Frame_EOF \<Rightarrow>
          Some (st\<lparr>MIMPI_already_left := (MIMPI_already_left st)(sender := True)\<rparr>, None)
      | Frame_fault \<Rightarrow> None
      | Frame cnt tg message_data rest \<Rightarrow>
          map_option (\<lambda>st'. (st', Some rest)) (handle_message st sender cnt tg message_data))"

subsection \<open>Recv\<close>

text \<open>
  A call of \<^verbatim>\<open>MIMPI_Recv\<close> returns a code, with the new state and the new contents of the
  caller's buffer; or it blocks in \<^verbatim>\<open>pthread_cond_wait\<close>, in the state it has reached; or its
  behaviour is undefined.
\<close>

datatype recv_result =
    Returns MIMPI_Retcode MIMPI_state "u8 list"
  | Blocks MIMPI_state
  | Fault

text \<open>
  The end of \<^verbatim>\<open>MIMPI_Recv\<close> (from the second \<^verbatim>\<open>MIMPI_deadlock_enabled\<close> test on): the
  acknowledgement, whose return code is ignored, and the copy into the caller's buffer.
\<close>

definition Recv_finish ::
  "MIMPI_state \<Rightarrow> u8 list \<Rightarrow> int \<Rightarrow> int \<Rightarrow> int \<Rightarrow> u8 list option \<Rightarrow> recv_result" where
  "Recv_finish st buf cnt src tg to_receive =
     (case (if MIMPI_deadlock_enabled st \<and> tg \<ge> MIMPI_ANY_TAG
            then map_option snd
                   (MIMPI_Send st (Some (int_bytes cnt @ int_bytes tg)) METADATA_SIZE src
                      MIMPI_RECEIVED_TAG)
            else Some st) of
        None \<Rightarrow> Fault
      | Some st1 \<Rightarrow>
          if tg \<le> MIMPI_MAX_TAG \<or> tg \<noteq> MIMPI_NO_MESSAGE_TAG then
            (case to_receive of
               None \<Rightarrow> Fault
             | Some r \<Rightarrow>
                 if 0 \<le> cnt \<and> nat cnt \<le> length buf
                 then Returns MIMPI_SUCCESS st1 (Recv_copy_out r cnt tg buf)
                 else Fault)
          else Returns MIMPI_SUCCESS st1 buf)"

text \<open>\<^verbatim>\<open>to_receive = malloc(count); memcpy(to_receive, message->data, count)\<close>.\<close>

definition copy_payload :: "Message \<Rightarrow> int \<Rightarrow> u8 list option" where
  "copy_payload m cnt =
     (case data m of
        None \<Rightarrow> None
      | Some d \<Rightarrow> if 0 \<le> cnt \<and> nat cnt \<le> length d then Some (take (nat cnt) d) else None)"

text \<open>
  What \<^verbatim>\<open>MIMPI_Recv\<close> does after its waiting loop, in the state the reader threads have left.
\<close>

definition Recv_wake :: "MIMPI_state \<Rightarrow> u8 list \<Rightarrow> int \<Rightarrow> int \<Rightarrow> int \<Rightarrow> recv_result" where
  "Recv_wake st buf cnt src tg =
     (if tag (MIMPI_waiting st) = MIMPI_DEADLOCK_TAG then
        (case MIMPI_others_recv st src of
           Broken \<Rightarrow> Fault
         | Elems ws \<Rightarrow>
             Returns MIMPI_ERROR_DEADLOCK_DETECTED
               (st\<lparr>MIMPI_waiting := MIMPI_DEFAULT_MSG,
                   MIMPI_others_recv := (MIMPI_others_recv st)(src := remove_from_list ws 0)\<rparr>)
               buf)
      else if MIMPI_already_left st src \<and> \<not> received (MIMPI_waiting st) then
        Returns MIMPI_ERROR_REMOTE_FINISHED (st\<lparr>MIMPI_waiting := MIMPI_DEFAULT_MSG\<rparr>) buf
      else
        (case MIMPI_received_messages st src of
           Broken \<Rightarrow> Fault
         | Elems q \<Rightarrow>
             (let i = find_elem_in_list q (create_message tg cnt src (Some buf));
                  st1 = st\<lparr>MIMPI_received_messages :=
                             (MIMPI_received_messages st)(src := remove_from_list q i),
                           MIMPI_waiting := MIMPI_DEFAULT_MSG\<rparr>
              in if tg \<noteq> MIMPI_NO_MESSAGE_TAG then
                   (if i < length q
                    then (case copy_payload (q ! i) cnt of
                            None \<Rightarrow> Fault
                          | Some r \<Rightarrow> Recv_finish st1 buf cnt src tg (Some r))
                    else Fault)
                 else Recv_finish st1 buf cnt src tg None)))"

text \<open>
  The waiting loop \<^verbatim>\<open>while (!MIMPI_waiting->received && !MIMPI_already_left[source])\<close>: the
  call blocks while the condition holds.  A blocked call is resumed by evaluating
  \<open>Recv_wait\<close> again in the state of that moment.
\<close>

definition Recv_wait :: "MIMPI_state \<Rightarrow> u8 list \<Rightarrow> int \<Rightarrow> int \<Rightarrow> int \<Rightarrow> recv_result" where
  "Recv_wait st buf cnt src tg =
     (if \<not> received (MIMPI_waiting st) \<and> \<not> MIMPI_already_left st src then Blocks st
      else Recv_wake st buf cnt src tg)"

text \<open>\<^verbatim>\<open>MIMPI_Recv\<close> up to the waiting loop, and the branch that finds the message queued.\<close>

definition MIMPI_Recv :: "MIMPI_state \<Rightarrow> u8 list \<Rightarrow> int \<Rightarrow> int \<Rightarrow> int \<Rightarrow> recv_result" where
  "MIMPI_Recv st buf cnt src tg =
     (if src < 0 \<or> src \<ge> MIMPI_World_size st then Returns MIMPI_ERROR_NO_SUCH_RANK st buf
      else if src = MIMPI_World_rank st then Returns MIMPI_ERROR_ATTEMPTED_SELF_OP st buf
      else
        (case MIMPI_received_messages st src of
           Broken \<Rightarrow> Fault
         | Elems q \<Rightarrow>
             (let i = find_elem_in_list q (create_message tg cnt src (Some buf)) in
              if i = length q then
                (let st1 = st\<lparr>MIMPI_waiting :=
                               \<lparr>tag = tg, count = cnt, source = src, data = None,
                                received = False\<rparr>\<rparr>
                 in if MIMPI_deadlock_enabled st1 \<and> tg \<ge> MIMPI_ANY_TAG then
                      (case MIMPI_others_recv st1 src of
                         Broken \<Rightarrow> Fault
                       | Elems ws \<Rightarrow>
                           if ws \<noteq> [] \<and> tag (hd ws) \<ge> MIMPI_ANY_TAG then
                             (case MIMPI_Send
                                     (st1\<lparr>MIMPI_waiting := MIMPI_DEFAULT_MSG,
                                          MIMPI_others_recv :=
                                            (MIMPI_others_recv st1)(src := remove_from_list ws 0)\<rparr>)
                                     None MIMPI_DEFAULT_COUNT src MIMPI_DEADLOCK_TAG of
                                None \<Rightarrow> Fault
                              | Some (rc, st2) \<Rightarrow> Returns MIMPI_ERROR_DEADLOCK_DETECTED st2 buf)
                           else
                             (case MIMPI_Send st1 (Some (int_bytes cnt @ int_bytes tg))
                                     METADATA_SIZE src MIMPI_WAITING_TAG of
                                None \<Rightarrow> Fault
                              | Some (rc, st2) \<Rightarrow>
                                  if rc = MIMPI_ERROR_REMOTE_FINISHED then
                                    (case MIMPI_others_recv st2 src of
                                       Broken \<Rightarrow> Fault
                                     | Elems ws2 \<Rightarrow>
                                         Returns MIMPI_ERROR_REMOTE_FINISHED
                                           (st2\<lparr>MIMPI_waiting := MIMPI_DEFAULT_MSG,
                                                MIMPI_others_recv :=
                                                  (MIMPI_others_recv st2)
                                                    (src := remove_from_list ws2 0)\<rparr>)
                                           buf)
                                  else Recv_wait st2 buf cnt src tg))
                    else Recv_wait st1 buf cnt src tg)
              else
                (let st1 = st\<lparr>MIMPI_received_messages :=
                               (MIMPI_received_messages st)(src := remove_from_list q i)\<rparr>
                 in if tg \<noteq> MIMPI_NO_MESSAGE_TAG \<and> tg \<noteq> MIMPI_DEADLOCK_TAG then
                      (case copy_payload (q ! i) cnt of
                         None \<Rightarrow> Fault
                       | Some r \<Rightarrow> Recv_finish st1 buf cnt src tg (Some r))
                    else Recv_finish st1 buf cnt src tg None))))"

subsection \<open>The tree of the collectives\<close>

definition get_power :: "int \<Rightarrow> int" where
  "get_power rank =
     (if rank \<le> 1 then rank else if rank \<le> 3 then 2 else if rank \<le> 7 then 4 else 8)"


text \<open>
  The first lines of \<^verbatim>\<open>communication_loop\<close>: the position of \<^verbatim>\<open>world_rank\<close> in the tree, as
  the triple \<^verbatim>\<open>(receive_from, power, start_from)\<close>.  The process whose rank is \<^verbatim>\<open>root\<close>
  takes the place of rank 0 (the top of the tree) and rank 0 takes the place of \<^verbatim>\<open>root\<close>.
\<close>

definition communication_loop_init :: "int \<Rightarrow> int \<Rightarrow> int \<times> int \<times> int" where
  "communication_loop_init world_rank root =
     (if world_rank = root then (world_rank - get_power world_rank, 1, 1)
      else if world_rank = 0
        then (root - get_power root, get_power root * 2, root + get_power root * 2)
      else (world_rank - get_power world_rank, get_power world_rank * 2,
            world_rank + get_power world_rank * 2))"

text \<open>
  The relabelling of the parent before it is used as a peer:
  \<^verbatim>\<open>if (receive_from == root) receive_from = 0; else if (receive_from == 0) receive_from = root;\<close>
\<close>

definition swap_receive_from :: "int \<Rightarrow> int \<Rightarrow> int" where
  "swap_receive_from receive_from root =
     (if receive_from = root then 0 else if receive_from = 0 then root else receive_from)"

text \<open>The relabelling of a child: \<^verbatim>\<open>int helper = (start_from == root) ? 0 : start_from;\<close>\<close>

definition helper :: "int \<Rightarrow> int \<Rightarrow> int" where
  "helper start_from root = (if start_from = root then 0 else start_from)"

subsection \<open>The collectives and their environment\<close>

text \<open>
  The collectives are sequential code over \<^verbatim>\<open>MIMPI_Send\<close> and \<^verbatim>\<open>MIMPI_Recv\<close>.  Seen from a
  collective, a point-to-point call returns a code and, when a receive succeeds, has taken a
  payload off the queue; both depend on the other processes and are given by the environment
  (the field \<^verbatim>\<open>outcomes\<close>), indexed by the number of point-to-point calls made so far.  Every call is logged in a
  trace.  Buffers live in a heap of byte arrays; a pointer is an address or \<^verbatim>\<open>NULL\<close>
  (\<^term>\<open>None\<close>).
\<close>

datatype p2p_call = Send_call | Recv_call

record p2p_event =
  ev_call :: p2p_call
  ev_count :: int
  ev_peer :: int
  ev_tag :: int
  ev_code :: MIMPI_Retcode

record p2p_outcome =
  out_code :: MIMPI_Retcode
  out_payload :: "u8 list"

record world =
  world_size :: int
  world_rank :: int
  heap :: "nat \<Rightarrow> u8 list option"
  next_free :: nat
  outcomes :: "nat \<Rightarrow> p2p_outcome"
  trace :: "p2p_event list"

text \<open>
  \<^verbatim>\<open>malloc\<close> with \<^verbatim>\<open>ASSERT_MALLOC\<close>: a fresh buffer (its bytes are indeterminate in C and
  zero here; the callers overwrite them before reading), or no return when the size, a
  negative \<^verbatim>\<open>int\<close> converted to \<^verbatim>\<open>size_t\<close>, cannot be allocated.
\<close>

definition malloc :: "world \<Rightarrow> int \<Rightarrow> (nat \<times> world) option" where
  "malloc w n =
     (if n < 0 then None
      else Some (next_free w,
                 w\<lparr>heap := (heap w)(next_free w \<mapsto> replicate (nat n) 0),
                   next_free := Suc (next_free w)\<rparr>))"

definition free :: "world \<Rightarrow> nat \<Rightarrow> world" where
  "free w a = w\<lparr>heap := (heap w)(a := None)\<rparr>"

text \<open>
  \<^verbatim>\<open>memcpy\<close> on the heap: the result is \<^term>\<open>None\<close> (undefined behaviour) unless both
  pointers are live buffers of at least \<^verbatim>\<open>n\<close> bytes.
\<close>

definition heap_memcpy :: "world \<Rightarrow> nat \<Rightarrow> nat \<Rightarrow> int \<Rightarrow> world option" where
  "heap_memcpy w dst src n =
     (case (heap w dst, heap w src) of
        (Some d, Some s) \<Rightarrow>
          if 0 \<le> n \<and> nat n \<le> length d \<and> nat n \<le> length s
          then Some (w\<lparr>heap := (heap w)(dst \<mapsto> memcpy d s n)\<rparr>)
          else None
      | _ \<Rightarrow> None)"

definition log_call :: "world \<Rightarrow> p2p_call \<Rightarrow> int \<Rightarrow> int \<Rightarrow> int \<Rightarrow> MIMPI_Retcode \<Rightarrow> world" where
  "log_call w c cnt p tg rc =
     w\<lparr>trace := trace w @ [\<lparr>ev_call = c, ev_count = cnt, ev_peer = p, ev_tag = tg, ev_code = rc\<rparr>]\<rparr>"

text \<open>
  A send as the collectives see it: the environment's code, logged.  The buffer is only read.
\<close>

definition p2p_Send ::
  "world \<Rightarrow> nat option \<Rightarrow> int \<Rightarrow> int \<Rightarrow> int \<Rightarrow> (MIMPI_Retcode \<times> world) option" where
  "p2p_Send w dat cnt destination tg =
     Some (out_code (outcomes w (length (trace w))),
           log_call w Send_call cnt destination tg (out_code (outcomes w (length (trace w)))))"

text \<open>
  A receive as the collectives see it.  Every error return of \<^verbatim>\<open>MIMPI_Recv\<close> leaves the
  caller's buffer untouched; a successful one ends with \<^const>\<open>Recv_copy_out\<close>.  Writing
  through \<^verbatim>\<open>NULL\<close>, a dead pointer or beyond the buffer is undefined (\<^term>\<open>None\<close>).
\<close>

definition p2p_Recv ::
  "world \<Rightarrow> nat option \<Rightarrow> int \<Rightarrow> int \<Rightarrow> int \<Rightarrow> (MIMPI_Retcode \<times> world) option" where
  "p2p_Recv w dat cnt src tg =
     (let out = outcomes w (length (trace w));
          w1 = log_call w Recv_call cnt src tg (out_code out)
      in if out_code out \<noteq> MIMPI_SUCCESS \<or> tg = MIMPI_NO_MESSAGE_TAG then Some (out_code out, w1)
         else (case dat of
                 None \<Rightarrow> None
               | Some a \<Rightarrow>
                   (case heap w1 a of
                      None \<Rightarrow> None
                    | Some buf \<Rightarrow>
                        if 0 \<le> cnt \<and> nat cnt \<le> length buf
                        then Some (MIMPI_SUCCESS,
                               w1\<lparr>heap := (heap w1)(a \<mapsto>
                                     Recv_copy_out (out_payload out) cnt tg buf)\<rparr>)
                        else None)))"

text \<open>
  The receive loop of the up-phase,
  \<^verbatim>\<open>while (start_from < world_size) { ... MIMPI_Recv ...; start_from += power; power *= 2; }\<close>.
  The result is \<^term>\<open>None\<close> when the loop does not return, and otherwise tells whether
  \<^verbatim>\<open>HANDLE_REMOTE_FINISHED\<close> has left the function.
\<close>

partial_function (option) recv_loop ::
  "nat option \<Rightarrow> int \<Rightarrow> int \<Rightarrow> int \<Rightarrow> int \<Rightarrow> int \<Rightarrow> int \<Rightarrow> world \<Rightarrow> (bool \<times> world) option" where
  "recv_loop dat cnt root tg wsize start_from pwr w =
     (if start_from < wsize
      then Option.bind (p2p_Recv w dat cnt (helper start_from root) tg)
             (\<lambda>(rc, w').
                if rc = MIMPI_ERROR_REMOTE_FINISHED then Some (True, w')
                else recv_loop dat cnt root tg wsize (start_from + pwr) (pwr * 2) w')
      else Some (False, w))"

text \<open>The send loop of the down-phase, of the same shape.\<close>

partial_function (option) send_loop ::
  "nat option \<Rightarrow> int \<Rightarrow> int \<Rightarrow> int \<Rightarrow> int \<Rightarrow> int \<Rightarrow> int \<Rightarrow> world \<Rightarrow> (bool \<times> world) option" where
  "send_loop dat cnt root tg wsize start_from pwr w =
     (if start_from < wsize
      then Option.bind (p2p_Send w dat cnt (helper start_from root) tg)
             (\<lambda>(rc, w').
                if rc = MIMPI_ERROR_REMOTE_FINISHED then Some (True, w')
                else send_loop dat cnt root tg wsize (start_from + pwr) (pwr * 2) w')
      else Some (False, w))"

definition communication_loop ::
  "nat option \<Rightarrow> int \<Rightarrow> int \<Rightarrow> int \<Rightarrow> int \<Rightarrow> int \<Rightarrow> bool \<Rightarrow> world \<Rightarrow>
   (MIMPI_Retcode \<times> world) option" where
  "communication_loop dat cnt root tg wrank wsize begin w =
     (case communication_loop_init wrank root of
        (receive_from, pwr, start_from) \<Rightarrow>
          if begin then
            Option.bind (recv_loop dat cnt root tg wsize start_from pwr w)
              (\<lambda>(left, w1).
                 if left then Some (MIMPI_ERROR_REMOTE_FINISHED, w1)
                 else if wrank \<noteq> root then
                   Option.bind (p2p_Send w1 dat cnt (swap_receive_from receive_from root) tg)
                     (\<lambda>(rc, w2).
                        if rc = MIMPI_ERROR_REMOTE_FINISHED
                        then Some (MIMPI_ERROR_REMOTE_FINISHED, w2)
                        else Some (MIMPI_SUCCESS, w2))
                 else Some (MIMPI_SUCCESS, w1))
          else
            Option.bind
              (if wrank \<noteq> root
               then Option.bind (p2p_Recv w dat cnt (swap_receive_from receive_from root) tg)
                      (\<lambda>(rc, w1). Some (rc = MIMPI_ERROR_REMOTE_FINISHED, w1))
               else Some (False, w))
              (\<lambda>(left, w1).
                 if left then Some (MIMPI_ERROR_REMOTE_FINISHED, w1)
                 else Option.bind (send_loop dat cnt root tg wsize start_from pwr w1)
                        (\<lambda>(left', w2).
                           if left' then Some (MIMPI_ERROR_REMOTE_FINISHED, w2)
                           else Some (MIMPI_SUCCESS, w2))))"

definition MIMPI_Barrier :: "world \<Rightarrow> (MIMPI_Retcode \<times> world) option" where
  "MIMPI_Barrier w =
     Option.bind
       (communication_loop None MIMPI_DEFAULT_COUNT 0 MIMPI_NO_MESSAGE_TAG
          (world_rank w) (world_size w) True w)
       (\<lambda>(rc, w1).
          if rc = MIMPI_ERROR_REMOTE_FINISHED then Some (MIMPI_ERROR_REMOTE_FINISHED, w1)
          else communication_loop None MIMPI_DEFAULT_COUNT 0 MIMPI_NO_MESSAGE_TAG
                 (world_rank w) (world_size w) False w1)"

definition MIMPI_Bcast :: "world \<Rightarrow> nat option \<Rightarrow> int \<Rightarrow> int \<Rightarrow> (MIMPI_Retcode \<times> world) option" where
  "MIMPI_Bcast w dat cnt root =
     (if root < 0 \<or> root \<ge> world_size w then Some (MIMPI_ERROR_NO_SUCH_RANK, w)
      else
        Option.bind
          (communication_loop None MIMPI_DEFAULT_COUNT root MIMPI_NO_MESSAGE_TAG
             (world_rank w) (world_size w) True w)
          (\<lambda>(rc, w1).
             if rc = MIMPI_ERROR_REMOTE_FINISHED then Some (MIMPI_ERROR_REMOTE_FINISHED, w1)
             else communication_loop dat cnt root MIMPI_BROADCAST_TAG
                    (world_rank w) (world_size w) False w1))"

definition MIMPI_Reduce ::
  "world \<Rightarrow> nat \<Rightarrow> nat \<Rightarrow> int \<Rightarrow> MIMPI_Op \<Rightarrow> int \<Rightarrow> (MIMPI_Retcode \<times> world) option" where
  "MIMPI_Reduce w send_data recv_data cnt op root =
     (if root < 0 \<or> root \<ge> world_size w then Some (MIMPI_ERROR_NO_SUCH_RANK, w)
      else
        Option.bind (malloc w cnt)
          (\<lambda>(memory, w1).
             Option.bind (heap_memcpy w1 memory send_data cnt)
               (\<lambda>w2.
                  Option.bind
                    (communication_loop (Some memory) cnt root (MIMPI_MAX_TAG - op_index op)
                       (world_rank w) (world_size w) True w2)
                    (\<lambda>(rc, w3).
                       if rc = MIMPI_ERROR_REMOTE_FINISHED
                       then Some (MIMPI_ERROR_REMOTE_FINISHED, free w3 memory)
                       else
                         Option.bind
                           (if world_rank w = root then heap_memcpy w3 recv_data memory cnt
                            else Some w3)
                           (\<lambda>w4.
                              communication_loop None MIMPI_DEFAULT_COUNT root
                                MIMPI_NO_MESSAGE_TAG (world_rank w) (world_size w) False
                                (free w4 memory))))))"

subsection \<open>Processes running side by side\<close>

text \<open>
  Several processes, each with its caller thread and its reader threads.  The caller of rank
  \<open>r\<close> is about to make one call of \<^verbatim>\<open>MIMPI_Recv\<close> with the arguments \<open>calls r\<close>; it is
  \<open>Idle\<close> before the call, \<open>Parked\<close> while the call blocks, and \<open>Done\<close> with the return code
  afterwards.  The channel from \<open>s\<close> to \<open>r\<close> holds the bytes \<open>wire (procs s) r\<close>, of which the
  reader of \<open>r\<close> for \<open>s\<close> has consumed the first \<open>consumed r s\<close>.
\<close>

datatype caller = Idle | Parked | Done MIMPI_Retcode

record recv_args =
  arg_buf :: "u8 list"
  arg_count :: int
  arg_source :: int
  arg_tag :: int

record system =
  procs :: "int \<Rightarrow> MIMPI_state"
  consumed :: "int \<Rightarrow> int \<Rightarrow> nat"
  callers :: "int \<Rightarrow> caller"
  calls :: "int \<Rightarrow> recv_args"

datatype action = Enter int | Reader int int | Wake int

text \<open>
  The steps.  Each is atomic, since the source runs it with the mutex of the process held
  (a reader reads its frame before it takes the mutex, from a channel no other thread reads):
  the caller enters \<^verbatim>\<open>MIMPI_Recv\<close> and runs up to its return or up to the waiting loop; a
  reader runs one iteration of \<^verbatim>\<open>handle_channel\<close> when its channel holds unread bytes
  (frames are written whole); a parked caller whose waiting condition has become false runs
  on to its return.  A step that cannot be taken has no result.
\<close>

definition caller_result :: "system \<Rightarrow> int \<Rightarrow> recv_result \<Rightarrow> system option" where
  "caller_result sys r res =
     (case res of
        Returns rc st' buf' \<Rightarrow>
          Some (sys\<lparr>procs := (procs sys)(r := st'), callers := (callers sys)(r := Done rc)\<rparr>)
      | Blocks st' \<Rightarrow>
          Some (sys\<lparr>procs := (procs sys)(r := st'), callers := (callers sys)(r := Parked)\<rparr>)
      | Fault \<Rightarrow> None)"

definition step :: "action \<Rightarrow> system \<Rightarrow> system option" where
  "step a sys =
     (case a of
        Enter r \<Rightarrow>
          if callers sys r = Idle
          then caller_result sys r
                 (MIMPI_Recv (procs sys r) (arg_buf (calls sys r)) (arg_count (calls sys r))
                    (arg_source (calls sys r)) (arg_tag (calls sys r)))
          else None
      | Wake r \<Rightarrow>
          if callers sys r = Parked
          then (case Recv_wait (procs sys r) (arg_buf (calls sys r)) (arg_count (calls sys r))
                       (arg_source (calls sys r)) (arg_tag (calls sys r)) of
                  Blocks st' \<Rightarrow> None
                | res \<Rightarrow> caller_result sys r res)
          else None
      | Reader r s \<Rightarrow>
          (let stream = drop (consumed sys r s) (wire (procs sys s) r)
           in if stream = [] then None
              else (case handle_channel_iteration (procs sys r) s stream of
                      Some (st', Some rest) \<Rightarrow>
                        Some (sys\<lparr>procs := (procs sys)(r := st'),
                                  consumed := (consumed sys)
                                    (r := (consumed sys r)
                                       (s := length (wire (procs sys s) r) - length rest))\<rparr>)
                    | _ \<Rightarrow> None)))"

fun run :: "action list \<Rightarrow> system \<Rightarrow> system option" where
  "run [] sys = Some sys"
| "run (a # as) sys = Option.bind (step a sys) (run as)"

text \<open>
  When a step can be taken: the caller has not made its call yet; the caller is parked and
  its waiting condition \<^verbatim>\<open>!MIMPI_waiting->received && !MIMPI_already_left[source]\<close> has become
  false; the channel holds unread bytes.  A step that can be taken and has no result is
  undefined behaviour.
\<close>

definition enabled :: "action \<Rightarrow> system \<Rightarrow> bool" where
  "enabled a sys =
     (case a of
        Enter r \<Rightarrow> callers sys r = Idle
      | Wake r \<Rightarrow>
          callers sys r = Parked \<and>
          (received (MIMPI_waiting (procs sys r)) \<or>
           MIMPI_already_left (procs sys r) (arg_source (calls sys r)))
      | Reader r s \<Rightarrow> drop (consumed sys r s) (wire (procs sys s) r) \<noteq> [])"

text \<open>
  What is observed of two processes \<open>p\<close> and \<open>q\<close>: the two callers, and the bytes on the
  channel from \<open>p\<close> to \<open>q\<close> and on the channel from \<open>q\<close> to \<open>p\<close>.
\<close>

definition observe :: "int \<Rightarrow> int \<Rightarrow> system \<Rightarrow> caller \<times> caller \<times> u8 list \<times> u8 list" where
  "observe p q sys = (callers sys p, callers sys q, wire (procs sys p) q, wire (procs sys q) p)"

text \<open>
  The steps of two processes \<open>p\<close> and \<open>q\<close>, and the outcomes of all their interleavings: what
  is observed in the states in which no step can be taken any more, reached with at most
  \<open>n\<close> steps; \<^term>\<open>None\<close> stands for a run that can still take a step after \<open>n\<close> steps, or
  that has run into undefined behaviour.
\<close>

definition two_party_actions :: "int \<Rightarrow> int \<Rightarrow> action list" where
  "two_party_actions p q = [Enter p, Enter q, Reader p q, Reader q p, Wake p, Wake q]"

fun outcomes_within ::
  "int \<Rightarrow> int \<Rightarrow> nat \<Rightarrow> system \<Rightarrow> (caller \<times> caller \<times> u8 list \<times> u8 list) option list" where
  "outcomes_within p q 0 sys =
     (if \<forall>a \<in> set (two_party_actions p q). \<not> enabled a sys
      then [Some (observe p q sys)] else [None])"
| "outcomes_within p q (Suc m) sys =
     (if \<forall>a \<in> set (two_party_actions p q). \<not> enabled a sys
      then [Some (observe p q sys)]
      else concat (map (\<lambda>a. if enabled a sys
                             then (case step a sys of
                                     None \<Rightarrow> [None]
                                   | Some sys' \<Rightarrow> outcomes_within p q m sys')
                             else [])
                     (two_party_actions p q)))"

text \<open>
  Scenario 6 of the specification: two ranks with deadlock detection on, each about to
  receive four bytes with tag 0 from the other; neither sends.
\<close>

definition mutual_wait :: system where
  "mutual_wait =
     \<lparr>procs = (\<lambda>r. MIMPI_Init 2 r True),
      consumed = (\<lambda>r s. 0),
      callers = (\<lambda>r. Idle),
      calls = (\<lambda>r. \<lparr>arg_buf = [0, 0, 0, 0], arg_count = 4, arg_source = 1 - r, arg_tag = 0\<rparr>)\<rparr>"

subsection \<open>Notions used in the statements\<close>

text \<open>
  The match predicate as the specification words it: source and count equal, and either equal
  tags or a wildcard filter and a non-negative message tag.
\<close>

definition spec_match :: "Message \<Rightarrow> Message \<Rightarrow> bool" where
  "spec_match a b \<longleftrightarrow>
     source a = source b \<and> count a = count b \<and>
     (tag b = tag a \<or> (tag b = MIMPI_ANY_TAG \<and> 0 \<le> tag a))"

text \<open>
  The specification's \<^verbatim>\<open>LP(k)\<close>: the largest power of two dividing \<^verbatim>\<open>k\<close>, that is
  \<^verbatim>\<open>k & -k\<close>, with \<^verbatim>\<open>LP(0) = 0\<close>.
\<close>

definition LP :: "int \<Rightarrow> int" where
  "LP k = k AND - k"

text \<open>The integer part of the binary logarithm.\<close>

fun floor_log2 :: "nat \<Rightarrow> nat" where
  "floor_log2 n = (if n < 2 then 0 else Suc (floor_log2 (n div 2)))"

declare floor_log2.simps [simp del]

text \<open>
  The values \<^verbatim>\<open>start_from\<close> takes in the two loops of \<^verbatim>\<open>communication_loop\<close> when \<^verbatim>\<open>power\<close> is
  positive (it always is for ranks of the world, see \<open>init_power_pos\<close>).
\<close>

function child_ranks :: "int \<Rightarrow> int \<Rightarrow> int \<Rightarrow> int list" where
  "child_ranks start_from pwr wsize =
     (if start_from < wsize \<and> 0 < pwr
      then start_from # child_ranks (start_from + pwr) (pwr * 2) wsize
      else [])"
  by pat_completeness auto

termination
  by (relation "measure (\<lambda>(s, p, ws). nat (ws - s))") auto

declare child_ranks.simps [simp del]

text \<open>
  A point-to-point call as a value, and the sequential execution of a list of calls that
  stops after the first call returning \<^verbatim>\<open>MIMPI_ERROR_REMOTE_FINISHED\<close>, as
  \<^verbatim>\<open>HANDLE_REMOTE_FINISHED\<close> does.  The flag of the result tells whether it stopped early.
\<close>

record p2p_request =
  rq_call :: p2p_call
  rq_data :: "nat option"
  rq_count :: int
  rq_peer :: int
  rq_tag :: int

definition p2p :: "world \<Rightarrow> p2p_request \<Rightarrow> (MIMPI_Retcode \<times> world) option" where
  "p2p w r =
     (case rq_call r of
        Send_call \<Rightarrow> p2p_Send w (rq_data r) (rq_count r) (rq_peer r) (rq_tag r)
      | Recv_call \<Rightarrow> p2p_Recv w (rq_data r) (rq_count r) (rq_peer r) (rq_tag r))"

fun run_calls :: "p2p_request list \<Rightarrow> world \<Rightarrow> (bool \<times> world) option" where
  "run_calls [] w = Some (False, w)"
| "run_calls (r # rs) w =
     Option.bind (p2p w r)
       (\<lambda>(rc, w'). if rc = MIMPI_ERROR_REMOTE_FINISHED then Some (True, w') else run_calls rs w')"

definition request :: "p2p_call \<Rightarrow> nat option \<Rightarrow> int \<Rightarrow> int \<Rightarrow> int \<Rightarrow> p2p_request" where
  "request c dat cnt tg p = \<lparr>rq_call = c, rq_data = dat, rq_count = cnt, rq_peer = p, rq_tag = tg\<rparr>"

definition communication_plan ::
  "nat option \<Rightarrow> int \<Rightarrow> int \<Rightarrow> int \<Rightarrow> int \<Rightarrow> int \<Rightarrow> bool \<Rightarrow> p2p_request list" where
  "communication_plan dat cnt root tg wrank wsize begin =
     (case communication_loop_init wrank root of
        (receive_from, pwr, start_from) \<Rightarrow>
          if begin then
            map (\<lambda>c. request Recv_call dat cnt tg (helper c root)) (child_ranks start_from pwr wsize)
            @ (if wrank \<noteq> root
               then [request Send_call dat cnt tg (swap_receive_from receive_from root)] else [])
          else
            (if wrank \<noteq> root
             then [request Recv_call dat cnt tg (swap_receive_from receive_from root)] else [])
            @ map (\<lambda>c. request Send_call dat cnt tg (helper c root))
                (child_ranks start_from pwr wsize))"

definition retcode_of :: "(bool \<times> world) option \<Rightarrow> (MIMPI_Retcode \<times> world) option" where
  "retcode_of res =
     map_option (\<lambda>(left, w'). (if left then MIMPI_ERROR_REMOTE_FINISHED else MIMPI_SUCCESS, w')) res"

text \<open>
  The events a list of calls logs when the \<open>n\<close>-th call of the process gets the code
  \<open>out_code (oc n)\<close>.
\<close>

definition event_of :: "p2p_request \<Rightarrow> MIMPI_Retcode \<Rightarrow> p2p_event" where
  "event_of r rc =
     \<lparr>ev_call = rq_call r, ev_count = rq_count r, ev_peer = rq_peer r, ev_tag = rq_tag r,
      ev_code = rc\<rparr>"

fun executed :: "p2p_request list \<Rightarrow> (nat \<Rightarrow> p2p_outcome) \<Rightarrow> nat \<Rightarrow> p2p_event list" where
  "executed [] oc n = []"
| "executed (r # rs) oc n =
     event_of r (out_code (oc n)) #
     (if out_code (oc n) = MIMPI_ERROR_REMOTE_FINISHED then [] else executed rs oc (Suc n))"

text \<open>
  A receive that writes to the caller's buffer, and what it needs in order to be defined: a
  live buffer of at least \<^verbatim>\<open>count\<close> bytes, and payloads of at least \<^verbatim>\<open>count\<close> bytes (the
  queue only hands out messages whose \<^verbatim>\<open>count\<close> equals the filter's).
\<close>

definition payload_recv :: "p2p_request \<Rightarrow> bool" where
  "payload_recv r \<longleftrightarrow> rq_call r = Recv_call \<and> rq_tag r \<noteq> MIMPI_NO_MESSAGE_TAG"

definition request_ok :: "world \<Rightarrow> p2p_request \<Rightarrow> bool" where
  "request_ok w r \<longleftrightarrow>
     (payload_recv r \<longrightarrow>
        (\<exists>a buf. rq_data r = Some a \<and> heap w a = Some buf \<and> 0 \<le> rq_count r \<and>
                 nat (rq_count r) \<le> length buf) \<and>
        (\<forall>n. nat (rq_count r) \<le> length (out_payload (outcomes w n))))"

text \<open>Worlds that differ only in the trace and in the contents of buffers.\<close>

definition same_shape :: "world \<Rightarrow> world \<Rightarrow> bool" where
  "same_shape w w' \<longleftrightarrow>
     outcomes w' = outcomes w \<and> world_size w' = world_size w \<and> world_rank w' = world_rank w \<and>
     next_free w' = next_free w \<and>
     (\<forall>b. map_option length (heap w' b) = map_option length (heap w b))"

text \<open>
  Eager propagation: the call returns; an event with code remote-finished can only be the
  last event the call has logged, and then the call returns remote-finished; otherwise it
  returns success.
\<close>

definition propagates_remote_finished :: "world \<Rightarrow> (MIMPI_Retcode \<times> world) option \<Rightarrow> bool" where
  "propagates_remote_finished w res \<longleftrightarrow>
     (\<exists>rc w' evs. res = Some (rc, w') \<and> trace w' = trace w @ evs \<and>
        MIMPI_ERROR_REMOTE_FINISHED \<notin> ev_code ` set (butlast evs) \<and>
        (if evs \<noteq> [] \<and> ev_code (last evs) = MIMPI_ERROR_REMOTE_FINISHED
         then rc = MIMPI_ERROR_REMOTE_FINISHED else rc = MIMPI_SUCCESS))"

text \<open>The world after \<^verbatim>\<open>MIMPI_Reduce\<close> has allocated and filled its scratch buffer.\<close>

definition scratch_world :: "world \<Rightarrow> u8 list \<Rightarrow> int \<Rightarrow> world" where
  "scratch_world w sbuf cnt =
     w\<lparr>next_free := Suc (next_free w), heap := (heap w)(next_free w \<mapsto> take (nat cnt) sbuf)\<rparr>"

text \<open>
  A payload-bearing tag (any tag but the two header-only sentinels), and the range of a C
  \<^verbatim>\<open>int\<close>.
\<close>

definition payload_bearing :: "int \<Rightarrow> bool" where
  "payload_bearing tg \<longleftrightarrow> tg \<noteq> MIMPI_NO_MESSAGE_TAG \<and> tg \<noteq> MIMPI_DEADLOCK_TAG"

definition c_int :: "int \<Rightarrow> bool" where
  "c_int x \<longleftrightarrow> - (2 ^ 31) \<le> x \<and> x < 2 ^ 31"

text \<open>The return code of a receive that has returned.\<close>

fun recv_code :: "recv_result \<Rightarrow> MIMPI_Retcode option" where
  "recv_code (Returns rc st buf) = Some rc"
| "recv_code (Blocks st) = None"
| "recv_code Fault = None"

text \<open>
  The two frames of the deadlock protocol that \<^verbatim>\<open>MIMPI_Recv\<close> writes before it returns or
  parks: the WAITING notification of a receive, which carries the count and the tag of the
  receive, and the DEADLOCK frame.
\<close>

definition waiting_frame :: "recv_args \<Rightarrow> u8 list" where
  "waiting_frame a =
     int_bytes METADATA_SIZE @ int_bytes MIMPI_WAITING_TAG @ int_bytes (arg_count a)
       @ int_bytes (arg_tag a)"

definition deadlock_frame :: "u8 list" where
  "deadlock_frame = int_bytes MIMPI_DEFAULT_COUNT @ int_bytes MIMPI_DEADLOCK_TAG"

text \<open>
  Nothing is pending between a process in state \<open>st\<close> and its peer \<open>s\<close>, for the receive
  \<open>mine\<close> the process is about to make and the receive \<open>theirs\<close> the peer is about to make:
  no queued message of \<open>s\<close> matches the filter of \<open>mine\<close>, no unacknowledged send matches
  what \<open>theirs\<close> waits for, and no notification of \<open>s\<close> is recorded.
\<close>

definition nothing_pending :: "MIMPI_state \<Rightarrow> int \<Rightarrow> recv_args \<Rightarrow> recv_args \<Rightarrow> bool" where
  "nothing_pending st s mine theirs \<longleftrightarrow>
     (case MIMPI_received_messages st s of
        Elems q \<Rightarrow>
          find_elem_in_list q
            (create_message (arg_tag mine) (arg_count mine) s (Some (arg_buf mine))) = length q
      | Broken \<Rightarrow> False) \<and>
     (case MIMPI_send_not_received st of
        Elems snr \<Rightarrow>
          find_elem_in_list snr
            (create_message (arg_tag theirs) (arg_count theirs) s
               (Some (int_bytes (arg_count theirs) @ int_bytes (arg_tag theirs)))) = length snr
      | Broken \<Rightarrow> False) \<and>
     MIMPI_others_recv st s = Elems []"

text \<open>
  Rank \<open>r\<close> is about to wait for rank \<open>s\<close>: deadlock detection is on, \<open>s\<close> is a valid peer that
  has not left, the caller of \<open>r\<close> is about to receive from \<open>s\<close> with a user tag, nothing is
  pending between them, and the reader of \<open>r\<close> has read every byte \<open>s\<close> has written to \<open>r\<close>.
  Two ranks are in a true mutual wait when each is about to wait for the other.
\<close>

definition about_to_wait :: "system \<Rightarrow> int \<Rightarrow> int \<Rightarrow> bool" where
  "about_to_wait sys r s \<longleftrightarrow>
     0 \<le> s \<and> s < MIMPI_World_size (procs sys r) \<and> s \<noteq> MIMPI_World_rank (procs sys r) \<and>
     MIMPI_deadlock_enabled (procs sys r) \<and>
     channel_open (procs sys r) s \<and> \<not> MIMPI_already_left (procs sys r) s \<and>
     callers sys r = Idle \<and> arg_source (calls sys r) = s \<and>
     MIMPI_ANY_TAG \<le> arg_tag (calls sys r) \<and> c_int (arg_tag (calls sys r)) \<and>
     c_int (arg_count (calls sys r)) \<and>
     nothing_pending (procs sys r) s (calls sys r) (calls sys s) \<and>
     consumed sys r s = length (wire (procs sys s) r)"

definition true_mutual_wait :: "int \<Rightarrow> int \<Rightarrow> system \<Rightarrow> bool" where
  "true_mutual_wait p q sys \<longleftrightarrow> p \<noteq> q \<and> about_to_wait sys p q \<and> about_to_wait sys q p"

subsection \<open>Example inputs\<close>

text \<open>
  A world of four processes seen from rank 0, with a three-byte send buffer at address 0 and
  a four-byte receive buffer at address 1.  Every call succeeds; the first receive delivers
  \<open>[4, 4, 4]\<close> and every later one \<open>[2, 2, 2]\<close>.
\<close>

definition example_outcomes :: "nat \<Rightarrow> p2p_outcome" where
  "example_outcomes n =
     (if n = 0 then \<lparr>out_code = MIMPI_SUCCESS, out_payload = [4, 4, 4]\<rparr>
      else \<lparr>out_code = MIMPI_SUCCESS, out_payload = [2, 2, 2]\<rparr>)"

definition example_world :: world where
  "example_world =
     \<lparr>world_size = 4, world_rank = 0,
      heap = [0 \<mapsto> [0, 0, 0], 1 \<mapsto> [9, 9, 9, 9]], next_free = 2,
      outcomes = example_outcomes, trace = []\<rparr>"

text \<open>The same world seen from rank 3, a leaf of the tree.\<close>

definition leaf_world :: world where
  "leaf_world = example_world\<lparr>world_rank := 3\<rparr>"

text \<open>The same world, except that the second point-to-point call finds the peer gone.\<close>

definition failing_outcomes :: "nat \<Rightarrow> p2p_outcome" where
  "failing_outcomes n =
     (if n = 1 then \<lparr>out_code = MIMPI_ERROR_REMOTE_FINISHED, out_payload = [0, 0, 0]\<rparr>
      else \<lparr>out_code = MIMPI_SUCCESS, out_payload = [2, 2, 2]\<rparr>)"

definition failing_world :: world where
  "failing_world = example_world\<lparr>outcomes := failing_outcomes\<rparr>"

text \<open>A queued broadcast carrier and a wildcard filter of the same source and count.\<close>

definition broadcast_message :: Message where
  "broadcast_message =
     \<lparr>tag = MIMPI_BROADCAST_TAG, count = 4, source = 1, data = Some [1, 2, 3, 4], received = False\<rparr>"

definition any_tag_filter :: Message where
  "any_tag_filter = create_message MIMPI_ANY_TAG 4 1 None"

text \<open>
  A run of rank 0 in a world of two with deadlock detection on.  The reader for peer 1 gets
  the notification that peer 1 waits for four bytes with \<^verbatim>\<open>MIMPI_ANY_TAG\<close>; rank 0 sends
  four bytes with tag 5 to peer 1 (the notification stays, since its tag is not 5); the
  reader gets the acknowledgement of peer 1 and then the end of the channel, peer 1 having
  finalized.  \<open>stale_state\<close> is the state this run ends in.
\<close>

definition stale_scenario :: "MIMPI_state option" where
  "stale_scenario =
     Option.bind
       (handle_channel_iteration (MIMPI_Init 2 0 True) 1
          (int_bytes 8 @ int_bytes MIMPI_WAITING_TAG @ int_bytes 4 @ int_bytes MIMPI_ANY_TAG))
       (\<lambda>(st1, rest1).
          Option.bind (MIMPI_Send st1 (Some [1, 2, 3, 4]) 4 1 5)
            (\<lambda>(rc, st2).
               Option.bind
                 (handle_channel_iteration st2 1
                    (int_bytes 8 @ int_bytes MIMPI_RECEIVED_TAG @ int_bytes 4 @ int_bytes MIMPI_ANY_TAG))
                 (\<lambda>(st3, rest3). map_option fst (handle_channel_iteration st3 1 []))))"

definition stale_state :: MIMPI_state where
  "stale_state =
     (MIMPI_Init 2 0 True)
       \<lparr>MIMPI_already_left := (\<lambda>i. False)(1 := True),
        MIMPI_others_recv :=
          (MIMPI_others_recv (MIMPI_Init 2 0 True))
            (1 := Elems [create_message MIMPI_ANY_TAG 4 1
                           (Some (int_bytes 4 @ int_bytes MIMPI_ANY_TAG))]),
        wire := (\<lambda>i. [])(1 := int_bytes 4 @ int_bytes 5 @ [1, 2, 3, 4])\<rparr>"

text \<open>
  Rank 0 in a world of two with deadlock detection on, after peer 1 has finalized: writes to
  the channel towards peer 1 fail, and the reader for peer 1 has seen the end of its channel.
  \<open>after_failed_wait\<close> is the state one receive from peer 1 leaves behind.
\<close>

definition gone_peer_state :: MIMPI_state where
  "gone_peer_state =
     (MIMPI_Init 2 0 True)
       \<lparr>MIMPI_already_left := (\<lambda>i. False)(1 := True),
        channel_open := (\<lambda>i. True)(1 := False)\<rparr>"

definition after_failed_wait :: MIMPI_state where
  "after_failed_wait =
     gone_peer_state\<lparr>MIMPI_others_recv := (MIMPI_others_recv gone_peer_state)(1 := Broken)\<rparr>"

text \<open>
  Rank 0 in a world of two without deadlock detection, after its reader for peer 1 has
  queued one message of four bytes with tag 0 and has then seen the end of the channel.
\<close>

definition queued_message :: Message where
  "queued_message = create_message 0 4 1 (Some [1, 2, 3, 4])"

definition closed_peer_state :: MIMPI_state where
  "closed_peer_state =
     (MIMPI_Init 2 0 False)
       \<lparr>MIMPI_already_left := (\<lambda>i. False)(1 := True),
        MIMPI_received_messages :=
          (MIMPI_received_messages (MIMPI_Init 2 0 False))(1 := Elems [queued_message])\<rparr>"

text \<open>
  Two ranks with deadlock detection on exchange one message.  Rank 1 receives four bytes
  from rank 0 with \<^verbatim>\<open>MIMPI_ANY_TAG\<close> and parks; the reader of rank 0 records its
  notification; rank 0 sends four bytes with tag 5; the reader of rank 1 queues them, rank 1
  wakes, acknowledges and returns; the reader of rank 0 takes the acknowledgement.
  Afterwards every byte written has been read, and each rank is about to receive four bytes
  with tag 0 from the other, as in scenario 6.
\<close>

definition any_tag_exchange :: "system option" where
  "any_tag_exchange =
     Option.bind
       (run [Enter 1, Reader 0 1]
          (mutual_wait\<lparr>calls := (calls mutual_wait)
              (1 := \<lparr>arg_buf = [0, 0, 0, 0], arg_count = 4, arg_source = 0,
                      arg_tag = MIMPI_ANY_TAG\<rparr>)\<rparr>))
       (\<lambda>s1. Option.bind (MIMPI_Send (procs s1 0) (Some [1, 2, 3, 4]) 4 1 5)
          (\<lambda>(rc, st0).
             map_option (\<lambda>s2. s2\<lparr>callers := callers mutual_wait, calls := calls mutual_wait\<rparr>)
               (run [Reader 1 0, Wake 1, Reader 0 1] (s1\<lparr>procs := (procs s1)(0 := st0)\<rparr>))))"

section \<open>Properties\<close>

lemmas tag_defs =
  MIMPI_ZERO_TAG_def MIMPI_DEFAULT_TAG_def MIMPI_NO_MESSAGE_TAG_def MIMPI_BROADCAST_TAG_def
  MIMPI_DEADLOCK_TAG_def MIMPI_WAITING_TAG_def MIMPI_RECEIVED_TAG_def MIMPI_MAX_TAG_def
  MIMPI_MIN_TAG_def MIMPI_SUM_TAG_def MIMPI_PROD_TAG_def MIMPI_ANY_TAG_def

subsection \<open>The collectives as lists of calls\<close>

lemma child_ranks_closed_form:
  "0 < pwr \<Longrightarrow>
   child_ranks start_from pwr wsize =
     map (\<lambda>i. (start_from - pwr) + pwr * 2 ^ i) [0..<length (child_ranks start_from pwr wsize)]
   \<and> (\<forall>c \<in> set (child_ranks start_from pwr wsize). c < wsize)
   \<and> wsize \<le> (start_from - pwr) + pwr * 2 ^ length (child_ranks start_from pwr wsize)"
proof (induction start_from pwr wsize rule: child_ranks.induct)
  case (1 s p ws)
  show ?case
  proof (cases "s < ws")
    case False
    then show ?thesis by (simp add: child_ranks.simps[of s p ws])
  next
    case True
    let ?cs = "child_ranks (s + p) (p * 2) ws"
    have unf: "child_ranks s p ws = s # ?cs"
      using True "1.prems" by (simp add: child_ranks.simps[of s p ws])
    have ih: "?cs = map (\<lambda>i. (s + p - p * 2) + p * 2 * 2 ^ i) [0..<length ?cs]
        \<and> (\<forall>c \<in> set ?cs. c < ws)
        \<and> ws \<le> (s + p - p * 2) + p * 2 * 2 ^ length ?cs"
      using "1.IH" True "1.prems" by simp
    have shift: "map (\<lambda>i. (s - p) + p * 2 ^ i) [0..<Suc (length ?cs)]
       = s # map (\<lambda>i. (s + p - p * 2) + p * 2 * 2 ^ i) [0..<length ?cs]"
      by (simp add: upt_conv_Cons map_Suc_upt[symmetric] del: upt_Suc)
    show ?thesis
      unfolding unf using ih shift True by (simp add: algebra_simps del: upt_Suc)
  qed
qed

lemma request_sel [simp]:
  "rq_call (request c dat cnt tg p) = c" "rq_data (request c dat cnt tg p) = dat"
  "rq_count (request c dat cnt tg p) = cnt" "rq_peer (request c dat cnt tg p) = p"
  "rq_tag (request c dat cnt tg p) = tg"
  by (simp_all add: request_def)

lemma run_calls_append:
  "run_calls (xs @ ys) w =
     Option.bind (run_calls xs w) (\<lambda>(left, w'). if left then Some (True, w') else run_calls ys w')"
proof (induction xs arbitrary: w)
  case Nil
  show ?case by simp
next
  case (Cons r rs)
  show ?case
  proof (cases "p2p w r")
    case None
    then show ?thesis by simp
  next
    case (Some res)
    obtain rc w' where res: "res = (rc, w')" by (cases res)
    show ?thesis using Some res Cons.IH[of w'] by simp
  qed
qed

lemma recv_loop_run:
  "0 < pwr \<Longrightarrow>
   recv_loop dat cnt root tg wsize start_from pwr w =
   run_calls (map (\<lambda>c. request Recv_call dat cnt tg (helper c root))
               (child_ranks start_from pwr wsize)) w"
proof (induction start_from pwr wsize arbitrary: w rule: child_ranks.induct)
  case (1 s p ws)
  show ?case
  proof (cases "s < ws")
    case False
    then show ?thesis
      by (subst recv_loop.simps) (simp add: child_ranks.simps[of s p ws])
  next
    case True
    have unf: "child_ranks s p ws = s # child_ranks (s + p) (p * 2) ws"
      using True "1.prems" by (simp add: child_ranks.simps[of s p ws])
    have ih: "\<And>w'. recv_loop dat cnt root tg ws (s + p) (p * 2) w' =
       run_calls (map (\<lambda>c. request Recv_call dat cnt tg (helper c root))
                   (child_ranks (s + p) (p * 2) ws)) w'"
      using "1.IH" True "1.prems" by simp
    show ?thesis
      unfolding unf
      by (subst recv_loop.simps) (simp add: True ih p2p_def cong del: if_weak_cong)
  qed
qed

lemma send_loop_run:
  "0 < pwr \<Longrightarrow>
   send_loop dat cnt root tg wsize start_from pwr w =
   run_calls (map (\<lambda>c. request Send_call dat cnt tg (helper c root))
               (child_ranks start_from pwr wsize)) w"
proof (induction start_from pwr wsize arbitrary: w rule: child_ranks.induct)
  case (1 s p ws)
  show ?case
  proof (cases "s < ws")
    case False
    then show ?thesis
      by (subst send_loop.simps) (simp add: child_ranks.simps[of s p ws])
  next
    case True
    have unf: "child_ranks s p ws = s # child_ranks (s + p) (p * 2) ws"
      using True "1.prems" by (simp add: child_ranks.simps[of s p ws])
    have ih: "\<And>w'. send_loop dat cnt root tg ws (s + p) (p * 2) w' =
       run_calls (map (\<lambda>c. request Send_call dat cnt tg (helper c root))
                   (child_ranks (s + p) (p * 2) ws)) w'"
      using "1.IH" True "1.prems" by simp
    show ?thesis
      unfolding unf
      by (subst send_loop.simps) (simp add: True ih p2p_def cong del: if_weak_cong)
  qed
qed

lemma init_power_pos:
  "0 \<le> wrank \<Longrightarrow> 0 \<le> root \<Longrightarrow>
   communication_loop_init wrank root = (rf, pwr, start_from) \<Longrightarrow> 0 < pwr"
  by (auto simp: communication_loop_init_def get_power_def split: if_splits)

lemma communication_loop_run:
  assumes "0 \<le> wrank" "0 \<le> root"
  shows "communication_loop dat cnt root tg wrank wsize begin w =
         retcode_of (run_calls (communication_plan dat cnt root tg wrank wsize begin) w)"
proof -
  obtain rf pwr s where init: "communication_loop_init wrank root = (rf, pwr, s)"
    by (cases "communication_loop_init wrank root")
  have pos: "0 < pwr" using init_power_pos[OF assms init] .
  show ?thesis
  proof (cases "begin")
    case True
    show ?thesis
      unfolding communication_loop_def communication_plan_def init retcode_of_def
      using True
      by (auto simp: recv_loop_run[OF pos] run_calls_append p2p_def
               split: Option.bind_splits)
  next
    case False
    show ?thesis
      unfolding communication_loop_def communication_plan_def init retcode_of_def
      using False
      by (auto simp: send_loop_run[OF pos] run_calls_append p2p_def
               split: Option.bind_splits)
  qed
qed

lemma same_shape_refl [simp]: "same_shape w w"
  by (simp add: same_shape_def)

lemma same_shape_trans: "same_shape w w1 \<Longrightarrow> same_shape w1 w2 \<Longrightarrow> same_shape w w2"
  by (simp add: same_shape_def)

lemma request_ok_shape: "same_shape w w' \<Longrightarrow> request_ok w r \<Longrightarrow> request_ok w' r"
proof -
  assume sh: "same_shape w w'" and ok: "request_ok w r"
  have oc: "outcomes w' = outcomes w" using sh by (simp add: same_shape_def)
  have hp: "\<And>b buf. heap w b = Some buf \<Longrightarrow> \<exists>buf'. heap w' b = Some buf' \<and> length buf' = length buf"
  proof -
    fix b buf assume "heap w b = Some buf"
    moreover have "map_option length (heap w' b) = map_option length (heap w b)"
      using sh by (simp add: same_shape_def)
    ultimately show "\<exists>buf'. heap w' b = Some buf' \<and> length buf' = length buf"
      by (cases "heap w' b") auto
  qed
  show "request_ok w' r"
    unfolding request_ok_def
  proof (intro impI conjI)
    assume pr: "payload_recv r"
    with ok obtain a buf where ab: "rq_data r = Some a" "heap w a = Some buf"
        "0 \<le> rq_count r" "nat (rq_count r) \<le> length buf"
      unfolding request_ok_def by blast
    from hp[OF ab(2)] obtain buf' where "heap w' a = Some buf'" "length buf' = length buf"
      by blast
    with ab show "\<exists>a buf. rq_data r = Some a \<and> heap w' a = Some buf \<and> 0 \<le> rq_count r \<and>
                 nat (rq_count r) \<le> length buf" by simp
    show "\<forall>n. nat (rq_count r) \<le> length (out_payload (outcomes w' n))"
      using ok pr oc unfolding request_ok_def by simp
  qed
qed

lemma reduce_loop_length: "length (reduce_loop f i cnt m d) = length d"
  by (induction f i cnt m d rule: reduce_loop.induct) (subst reduce_loop.simps, simp)

lemma Recv_copy_out_length:
  "nat cnt \<le> length buf \<Longrightarrow> nat cnt \<le> length pl \<Longrightarrow>
   length (Recv_copy_out pl cnt tg buf) = length buf"
  by (simp add: Recv_copy_out_def handle_reduce_operation_def reduce_loop_length memcpy_def)

lemma p2p_Send_step:
  "\<exists>w'. p2p_Send w dat cnt p tg = Some (out_code (outcomes w (length (trace w))), w') \<and>
        trace w' = trace w @ [\<lparr>ev_call = Send_call, ev_count = cnt, ev_peer = p, ev_tag = tg,
                                ev_code = out_code (outcomes w (length (trace w)))\<rparr>] \<and>
        same_shape w w' \<and> heap w' = heap w"
  by (simp add: p2p_Send_def log_call_def same_shape_def)

lemma p2p_Recv_step_plain:
  assumes "out_code (outcomes w (length (trace w))) \<noteq> MIMPI_SUCCESS \<or> tg = MIMPI_NO_MESSAGE_TAG"
  shows "\<exists>w'. p2p_Recv w dat cnt p tg = Some (out_code (outcomes w (length (trace w))), w') \<and>
        trace w' = trace w @ [\<lparr>ev_call = Recv_call, ev_count = cnt, ev_peer = p, ev_tag = tg,
                                ev_code = out_code (outcomes w (length (trace w)))\<rparr>] \<and>
        same_shape w w' \<and> heap w' = heap w"
  using assms by (simp add: p2p_Recv_def log_call_def same_shape_def Let_def)

lemma p2p_Recv_step_payload:
  assumes "out_code (outcomes w (length (trace w))) = MIMPI_SUCCESS" "tg \<noteq> MIMPI_NO_MESSAGE_TAG"
    and "heap w a = Some buf" "0 \<le> cnt" "nat cnt \<le> length buf"
    and "nat cnt \<le> length (out_payload (outcomes w (length (trace w))))"
  shows "\<exists>w'. p2p_Recv w (Some a) cnt p tg = Some (MIMPI_SUCCESS, w') \<and>
        trace w' = trace w @ [\<lparr>ev_call = Recv_call, ev_count = cnt, ev_peer = p, ev_tag = tg,
                                ev_code = MIMPI_SUCCESS\<rparr>] \<and>
        same_shape w w' \<and>
        heap w' = (heap w)(a \<mapsto> Recv_copy_out (out_payload (outcomes w (length (trace w)))) cnt tg buf)"
proof -
  let ?new = "Recv_copy_out (out_payload (outcomes w (length (trace w)))) cnt tg buf"
  let ?w' = "(log_call w Recv_call cnt p tg MIMPI_SUCCESS)\<lparr>heap := (heap w)(a \<mapsto> ?new)\<rparr>"
  have len: "length ?new = length buf"
    using assms by (simp add: Recv_copy_out_length)
  have r: "p2p_Recv w (Some a) cnt p tg = Some (MIMPI_SUCCESS, ?w')"
    using assms by (simp add: p2p_Recv_def log_call_def Let_def)
  have sh: "same_shape w ?w'"
    using assms(3) len by (simp add: same_shape_def log_call_def)
  have tr: "trace ?w' = trace w @ [\<lparr>ev_call = Recv_call, ev_count = cnt, ev_peer = p, ev_tag = tg,
                                ev_code = MIMPI_SUCCESS\<rparr>]"
    by (simp add: log_call_def)
  have hp: "heap ?w' = (heap w)(a \<mapsto> ?new)" by simp
  show ?thesis using r sh tr hp by blast
qed

lemma p2p_step:
  assumes "request_ok w r"
  shows "\<exists>w'. p2p w r = Some (out_code (outcomes w (length (trace w))), w') \<and>
           trace w' = trace w @ [event_of r (out_code (outcomes w (length (trace w))))] \<and>
           same_shape w w' \<and>
           (\<forall>b. (payload_recv r \<longrightarrow> rq_data r \<noteq> Some b) \<longrightarrow> heap w' b = heap w b)"
proof (cases "rq_call r")
  case Send_call
  from p2p_Send_step[of w "rq_data r" "rq_count r" "rq_peer r" "rq_tag r"]
  show ?thesis using Send_call by (auto simp: p2p_def event_of_def)
next
  case Recv_call
  show ?thesis
  proof (cases "out_code (outcomes w (length (trace w))) \<noteq> MIMPI_SUCCESS
                \<or> rq_tag r = MIMPI_NO_MESSAGE_TAG")
    case True
    from p2p_Recv_step_plain[OF True, of "rq_data r" "rq_count r" "rq_peer r"]
    show ?thesis using Recv_call by (auto simp: p2p_def event_of_def)
  next
    case False
    then have pr: "payload_recv r" using Recv_call by (simp add: payload_recv_def)
    from assms pr obtain a buf where ab: "rq_data r = Some a" "heap w a = Some buf"
        "0 \<le> rq_count r" "nat (rq_count r) \<le> length buf"
        and pl: "\<And>n. nat (rq_count r) \<le> length (out_payload (outcomes w n))"
      unfolding request_ok_def by blast
    from False have c: "out_code (outcomes w (length (trace w))) = MIMPI_SUCCESS"
      and t: "rq_tag r \<noteq> MIMPI_NO_MESSAGE_TAG" by simp_all
    from p2p_Recv_step_payload[OF c t ab(2,3,4) pl, of "rq_peer r"]
    obtain w' where w': "p2p_Recv w (Some a) (rq_count r) (rq_peer r) (rq_tag r) = Some (MIMPI_SUCCESS, w')"
      "trace w' = trace w @ [\<lparr>ev_call = Recv_call, ev_count = rq_count r, ev_peer = rq_peer r,
            ev_tag = rq_tag r, ev_code = MIMPI_SUCCESS\<rparr>]"
      "same_shape w w'"
      "heap w' = (heap w)(a \<mapsto> Recv_copy_out (out_payload (outcomes w (length (trace w))))
                                  (rq_count r) (rq_tag r) buf)"
      by blast
    have "p2p w r = Some (out_code (outcomes w (length (trace w))), w')"
      using w'(1) Recv_call ab(1) c by (simp add: p2p_def)
    moreover have "trace w' = trace w @ [event_of r (out_code (outcomes w (length (trace w))))]"
      using w'(2) Recv_call c by (simp add: event_of_def)
    moreover have "\<forall>b. (payload_recv r \<longrightarrow> rq_data r \<noteq> Some b) \<longrightarrow> heap w' b = heap w b"
      using w'(4) pr ab(1) by simp
    ultimately show ?thesis using w'(3) by blast
  qed
qed

lemma run_calls_effect:
  assumes "\<forall>r \<in> set plan. request_ok w r"
  shows "\<exists>left w'. run_calls plan w = Some (left, w') \<and>
           trace w' = trace w @ executed plan (outcomes w) (length (trace w)) \<and>
           (left \<longleftrightarrow> MIMPI_ERROR_REMOTE_FINISHED
                       \<in> ev_code ` set (executed plan (outcomes w) (length (trace w)))) \<and>
           same_shape w w' \<and>
           (\<forall>b. (\<forall>r \<in> set plan. payload_recv r \<longrightarrow> rq_data r \<noteq> Some b) \<longrightarrow>
                heap w' b = heap w b)"
  using assms
proof (induction plan arbitrary: w)
  case Nil
  show ?case by auto
next
  case (Cons r rs)
  let ?rc = "out_code (outcomes w (length (trace w)))"
  from Cons.prems have ok: "request_ok w r" by simp
  from p2p_step[OF ok] obtain w1 where
    s1: "p2p w r = Some (?rc, w1)"
    and t1: "trace w1 = trace w @ [event_of r ?rc]"
    and sh1: "same_shape w w1"
    and fr1: "\<And>b. (payload_recv r \<longrightarrow> rq_data r \<noteq> Some b) \<Longrightarrow> heap w1 b = heap w b"
    by blast
  show ?case
  proof (cases "?rc = MIMPI_ERROR_REMOTE_FINISHED")
    case True
    then show ?thesis using s1 t1 sh1 fr1 by (auto simp add: event_of_def)
  next
    case False
    have oks: "\<forall>r \<in> set rs. request_ok w1 r"
      using Cons.prems sh1 by (auto intro: request_ok_shape)
    from Cons.IH[OF oks] obtain left w' where
      s2: "run_calls rs w1 = Some (left, w')"
      and t2: "trace w' = trace w1 @ executed rs (outcomes w1) (length (trace w1))"
      and l2: "left \<longleftrightarrow> MIMPI_ERROR_REMOTE_FINISHED
                 \<in> ev_code ` set (executed rs (outcomes w1) (length (trace w1)))"
      and sh2: "same_shape w1 w'"
      and fr2: "\<And>b. (\<forall>r \<in> set rs. payload_recv r \<longrightarrow> rq_data r \<noteq> Some b) \<Longrightarrow>
                heap w' b = heap w1 b"
      by blast
    have oc: "outcomes w1 = outcomes w" using sh1 by (simp add: same_shape_def)
    have "run_calls (r # rs) w = Some (left, w')" using s1 s2 False by simp
    moreover have "trace w' = trace w @ executed (r # rs) (outcomes w) (length (trace w))"
      using t1 t2 oc False by simp
    moreover have "left \<longleftrightarrow> MIMPI_ERROR_REMOTE_FINISHED
                 \<in> ev_code ` set (executed (r # rs) (outcomes w) (length (trace w)))"
      using l2 t1 oc False by (simp add: event_of_def)
    moreover have "same_shape w w'" using sh1 sh2 by (rule same_shape_trans)
    moreover have "\<forall>b. (\<forall>r \<in> set (r # rs). payload_recv r \<longrightarrow> rq_data r \<noteq> Some b) \<longrightarrow>
                heap w' b = heap w b"
      using fr1 fr2 by simp
    ultimately show ?thesis by blast
  qed
qed

lemma executed_remote_finished_last:
  "MIMPI_ERROR_REMOTE_FINISHED \<notin> ev_code ` set (butlast (executed plan oc n))"
  by (induction plan arbitrary: n) (auto simp: event_of_def)

lemma executed_codes:
  "e \<in> set (executed plan oc n) \<Longrightarrow> \<exists>i. ev_code e = out_code (oc i)"
proof (induction plan arbitrary: n)
  case Nil
  then show ?case by simp
next
  case (Cons r rs)
  show ?case
  proof (cases "e = event_of r (out_code (oc n))")
    case True
    then have "ev_code e = out_code (oc n)" by (simp add: event_of_def)
    then show ?thesis by blast
  next
    case False
    then have "e \<in> set (executed rs oc (Suc n))"
      using Cons.prems by (auto split: if_splits)
    then show ?thesis by (rule Cons.IH)
  qed
qed

lemma executed_all:
  "MIMPI_ERROR_REMOTE_FINISHED \<notin> ev_code ` set (executed plan oc n) \<Longrightarrow>
   executed plan oc n = map (\<lambda>(r, i). event_of r (out_code (oc (n + i)))) (zip plan [0..<length plan])"
proof (induction plan arbitrary: n)
  case Nil
  show ?case by simp
next
  case (Cons r rs)
  from Cons.prems have nf: "out_code (oc n) \<noteq> MIMPI_ERROR_REMOTE_FINISHED"
    by (auto simp: event_of_def)
  have "zip (r # rs) [0..<length (r # rs)] = (r, 0) # map (\<lambda>(r, i). (r, Suc i)) (zip rs [0..<length rs])"
    by (simp add: upt_conv_Cons map_Suc_upt[symmetric] zip_map2 del: upt_Suc)
  then show ?case using Cons.IH[of "Suc n"] Cons.prems nf
    by (simp add: case_prod_beta del: upt_Suc)
qed

lemma in_set_butlast_or_last: "x \<in> set xs \<Longrightarrow> x \<in> set (butlast xs) \<or> (xs \<noteq> [] \<and> x = last xs)"
  by (induction xs) auto

lemma code_last_iff:
  assumes "MIMPI_ERROR_REMOTE_FINISHED \<notin> ev_code ` set (butlast evs)"
  shows "MIMPI_ERROR_REMOTE_FINISHED \<in> ev_code ` set evs \<longleftrightarrow>
         evs \<noteq> [] \<and> ev_code (last evs) = MIMPI_ERROR_REMOTE_FINISHED"
proof
  assume "MIMPI_ERROR_REMOTE_FINISHED \<in> ev_code ` set evs"
  then obtain e where e: "e \<in> set evs" "ev_code e = MIMPI_ERROR_REMOTE_FINISHED" by auto
  from in_set_butlast_or_last[OF e(1)] assms e(2)
  show "evs \<noteq> [] \<and> ev_code (last evs) = MIMPI_ERROR_REMOTE_FINISHED" by force
next
  assume "evs \<noteq> [] \<and> ev_code (last evs) = MIMPI_ERROR_REMOTE_FINISHED"
  then show "MIMPI_ERROR_REMOTE_FINISHED \<in> ev_code ` set evs"
    by (metis image_eqI last_in_set)
qed

lemma plan_result:
  assumes "\<forall>r \<in> set plan. request_ok w r"
  shows "\<exists>rc w' evs. retcode_of (run_calls plan w) = Some (rc, w') \<and>
           evs = executed plan (outcomes w) (length (trace w)) \<and>
           trace w' = trace w @ evs \<and>
           MIMPI_ERROR_REMOTE_FINISHED \<notin> ev_code ` set (butlast evs) \<and>
           (if evs \<noteq> [] \<and> ev_code (last evs) = MIMPI_ERROR_REMOTE_FINISHED
            then rc = MIMPI_ERROR_REMOTE_FINISHED else rc = MIMPI_SUCCESS) \<and>
           same_shape w w' \<and>
           (\<forall>b. (\<forall>r \<in> set plan. payload_recv r \<longrightarrow> rq_data r \<noteq> Some b) \<longrightarrow>
                heap w' b = heap w b) \<and>
           ((\<forall>n. out_code (outcomes w n) \<noteq> MIMPI_ERROR_REMOTE_FINISHED) \<longrightarrow> rc = MIMPI_SUCCESS)"
proof -
  let ?evs = "executed plan (outcomes w) (length (trace w))"
  from run_calls_effect[OF assms] obtain left w' where
    r: "run_calls plan w = Some (left, w')"
    and t: "trace w' = trace w @ ?evs"
    and l: "left \<longleftrightarrow> MIMPI_ERROR_REMOTE_FINISHED \<in> ev_code ` set ?evs"
    and sh: "same_shape w w'"
    and fr: "\<forall>b. (\<forall>r \<in> set plan. payload_recv r \<longrightarrow> rq_data r \<noteq> Some b) \<longrightarrow>
                heap w' b = heap w b"
    by blast
  have bl: "MIMPI_ERROR_REMOTE_FINISHED \<notin> ev_code ` set (butlast ?evs)"
    by (rule executed_remote_finished_last)
  have l': "left \<longleftrightarrow> ?evs \<noteq> [] \<and> ev_code (last ?evs) = MIMPI_ERROR_REMOTE_FINISHED"
    using l code_last_iff[OF bl] by simp
  have "retcode_of (run_calls plan w) =
        Some (if left then MIMPI_ERROR_REMOTE_FINISHED else MIMPI_SUCCESS, w')"
    using r by (simp add: retcode_of_def)
  moreover have "(\<forall>n. out_code (outcomes w n) \<noteq> MIMPI_ERROR_REMOTE_FINISHED) \<longrightarrow> \<not> left"
  proof (intro impI notI)
    assume nf: "\<forall>n. out_code (outcomes w n) \<noteq> MIMPI_ERROR_REMOTE_FINISHED" and "left"
    then obtain e where e: "e \<in> set ?evs" "ev_code e = MIMPI_ERROR_REMOTE_FINISHED"
      using l by auto
    from executed_codes[OF e(1)] obtain i where "ev_code e = out_code (outcomes w i)" by blast
    with e(2) nf show False by simp
  qed
  ultimately show ?thesis using t bl l' sh fr by auto
qed

lemma plan_propagates:
  assumes "\<forall>r \<in> set plan. request_ok w r"
  shows "propagates_remote_finished w (retcode_of (run_calls plan w))"
  using plan_result[OF assms] unfolding propagates_remote_finished_def by blast

lemma retcode_seq:
  "Option.bind (retcode_of (run_calls xs w))
     (\<lambda>(rc, w1). if rc = MIMPI_ERROR_REMOTE_FINISHED then Some (MIMPI_ERROR_REMOTE_FINISHED, w1)
                  else retcode_of (run_calls ys w1))
   = retcode_of (run_calls (xs @ ys) w)"
  by (cases "run_calls xs w") (auto simp: retcode_of_def run_calls_append)

lemma no_message_plan_ok:
  "\<forall>r \<in> set (communication_plan dat cnt root MIMPI_NO_MESSAGE_TAG wrank wsize b). request_ok w r"
  by (auto simp: communication_plan_def request_ok_def payload_recv_def split: prod.splits if_splits)

lemma buffer_plan_ok:
  assumes "heap w a = Some buf" "0 \<le> cnt" "nat cnt \<le> length buf"
    "\<forall>n. nat cnt \<le> length (out_payload (outcomes w n))"
  shows "\<forall>r \<in> set (communication_plan (Some a) cnt root tg wrank wsize b). request_ok w r"
  using assms
  by (auto simp: communication_plan_def request_ok_def split: prod.splits if_splits)

lemma Barrier_plan:
  assumes "0 \<le> world_rank w"
  shows "MIMPI_Barrier w =
    retcode_of (run_calls
      (communication_plan None MIMPI_DEFAULT_COUNT 0 MIMPI_NO_MESSAGE_TAG (world_rank w) (world_size w) True
       @ communication_plan None MIMPI_DEFAULT_COUNT 0 MIMPI_NO_MESSAGE_TAG (world_rank w) (world_size w) False) w)"
  unfolding MIMPI_Barrier_def
  using assms by (simp add: communication_loop_run retcode_seq cong del: if_weak_cong)

lemma Bcast_plan:
  assumes "0 \<le> world_rank w" "0 \<le> root" "root < world_size w"
  shows "MIMPI_Bcast w dat cnt root =
    retcode_of (run_calls
      (communication_plan None MIMPI_DEFAULT_COUNT root MIMPI_NO_MESSAGE_TAG (world_rank w) (world_size w) True
       @ communication_plan dat cnt root MIMPI_BROADCAST_TAG (world_rank w) (world_size w) False) w)"
  unfolding MIMPI_Bcast_def
  using assms by (simp add: communication_loop_run retcode_seq cong del: if_weak_cong)

lemma Barrier_propagates:
  assumes "0 \<le> world_rank w"
  shows "propagates_remote_finished w (MIMPI_Barrier w)"
  unfolding Barrier_plan[OF assms]
  by (rule plan_propagates) (use no_message_plan_ok in auto)

lemma Bcast_propagates:
  assumes "0 \<le> world_rank w" "0 \<le> root" "root < world_size w"
    and "heap w a = Some buf" "0 \<le> cnt" "nat cnt \<le> length buf"
    "\<forall>n. nat cnt \<le> length (out_payload (outcomes w n))"
  shows "propagates_remote_finished w (MIMPI_Bcast w (Some a) cnt root)"
  unfolding Bcast_plan[OF assms(1-3)]
  by (rule plan_propagates) (use no_message_plan_ok buffer_plan_ok[OF assms(4-7)] in auto)

lemma scratch_world_simps [simp]:
  "trace (scratch_world w sbuf cnt) = trace w"
  "outcomes (scratch_world w sbuf cnt) = outcomes w"
  "world_size (scratch_world w sbuf cnt) = world_size w"
  "world_rank (scratch_world w sbuf cnt) = world_rank w"
  "heap (scratch_world w sbuf cnt) = (heap w)(next_free w \<mapsto> take (nat cnt) sbuf)"
  by (simp_all add: scratch_world_def)

lemma malloc_memcpy:
  assumes "heap w send_data = Some sbuf" "send_data < next_free w" "0 \<le> cnt" "nat cnt \<le> length sbuf"
  shows "Option.bind (malloc w cnt) (\<lambda>(memory, w1). Option.bind (heap_memcpy w1 memory send_data cnt) (f memory))
         = f (next_free w) (scratch_world w sbuf cnt)"
  using assms
  by (simp add: malloc_def heap_memcpy_def memcpy_def scratch_world_def)

lemma free_simps [simp]:
  "trace (free w a) = trace w" "outcomes (free w a) = outcomes w"
  "world_size (free w a) = world_size w" "world_rank (free w a) = world_rank w"
  "heap (free w a) = (heap w)(a := None)"
  by (simp_all add: free_def)

lemma same_shapeD:
  "same_shape w w' \<Longrightarrow> outcomes w' = outcomes w \<and> world_size w' = world_size w \<and>
     world_rank w' = world_rank w \<and> next_free w' = next_free w"
  by (simp add: same_shape_def)

lemma same_shape_heap:
  "same_shape w w' \<Longrightarrow> heap w b = Some buf \<Longrightarrow> \<exists>buf'. heap w' b = Some buf' \<and> length buf' = length buf"
proof -
  assume sh: "same_shape w w'" and h: "heap w b = Some buf"
  have "map_option length (heap w' b) = map_option length (heap w b)"
    using sh by (simp add: same_shape_def)
  with h show ?thesis by (cases "heap w' b") auto
qed

lemma butlast_append_codes:
  assumes "MIMPI_ERROR_REMOTE_FINISHED \<notin> ev_code ` set xs"
    "MIMPI_ERROR_REMOTE_FINISHED \<notin> ev_code ` set (butlast ys)"
  shows "MIMPI_ERROR_REMOTE_FINISHED \<notin> ev_code ` set (butlast (xs @ ys))"
  using assms by (cases "ys = []") (auto simp: butlast_append dest: in_set_butlastD)

lemma Reduce_effect:
  assumes rank: "0 \<le> world_rank w" and root: "0 \<le> root" "root < world_size w"
    and s: "heap w send_data = Some sbuf" "send_data < next_free w"
    and r: "world_rank w = root \<longrightarrow>
              heap w recv_data = Some rbuf \<and> recv_data < next_free w \<and> nat cnt \<le> length rbuf"
    and c: "0 \<le> cnt" "nat cnt \<le> length sbuf"
    and pl: "\<forall>n. nat cnt \<le> length (out_payload (outcomes w n))"
  shows "\<exists>rc w' left w3 scr.
     run_calls (communication_plan (Some (next_free w)) cnt root (MIMPI_MAX_TAG - op_index op)
                  (world_rank w) (world_size w) True) (scratch_world w sbuf cnt) = Some (left, w3) \<and>
     heap w3 (next_free w) = Some scr \<and> length scr = nat cnt \<and>
     MIMPI_Reduce w send_data recv_data cnt op root = Some (rc, w') \<and>
     propagates_remote_finished w (Some (rc, w')) \<and>
     ((\<forall>n. out_code (outcomes w n) \<noteq> MIMPI_ERROR_REMOTE_FINISHED) \<longrightarrow> rc = MIMPI_SUCCESS) \<and>
     heap w' (next_free w) = None \<and>
     (\<forall>b. b \<noteq> next_free w \<longrightarrow> heap w' b =
        (if world_rank w = root \<and> \<not> left \<and> b = recv_data
         then Some (memcpy rbuf scr cnt) else heap w b))"
proof -
  let ?m = "next_free w"
  let ?tg = "MIMPI_MAX_TAG - op_index op"
  let ?w2 = "scratch_world w sbuf cnt"
  let ?up = "communication_plan (Some ?m) cnt root ?tg (world_rank w) (world_size w) True"
  let ?down = "communication_plan None MIMPI_DEFAULT_COUNT root MIMPI_NO_MESSAGE_TAG
                 (world_rank w) (world_size w) False"
  have h2: "heap ?w2 ?m = Some (take (nat cnt) sbuf)" by simp
  have ok_up: "\<forall>r \<in> set ?up. request_ok ?w2 r"
    by (rule buffer_plan_ok[OF h2]) (use c pl in simp_all)
  from plan_result[OF ok_up] obtain rc_up w3 evs_up where
    up: "retcode_of (run_calls ?up ?w2) = Some (rc_up, w3)"
    and t3: "trace w3 = trace w @ evs_up"
    and b3: "MIMPI_ERROR_REMOTE_FINISHED \<notin> ev_code ` set (butlast evs_up)"
    and c3: "if evs_up \<noteq> [] \<and> ev_code (last evs_up) = MIMPI_ERROR_REMOTE_FINISHED
             then rc_up = MIMPI_ERROR_REMOTE_FINISHED else rc_up = MIMPI_SUCCESS"
    and sh3: "same_shape ?w2 w3"
    and fr3: "\<forall>b. (\<forall>r \<in> set ?up. payload_recv r \<longrightarrow> rq_data r \<noteq> Some b) \<longrightarrow> heap w3 b = heap ?w2 b"
    and ns3: "(\<forall>n. out_code (outcomes ?w2 n) \<noteq> MIMPI_ERROR_REMOTE_FINISHED) \<longrightarrow> rc_up = MIMPI_SUCCESS"
    by auto
  obtain left where run3: "run_calls ?up ?w2 = Some (left, w3)"
    and rc_up: "rc_up = (if left then MIMPI_ERROR_REMOTE_FINISHED else MIMPI_SUCCESS)"
    using up by (auto simp: retcode_of_def)
  have data_up: "\<forall>r \<in> set ?up. rq_data r = Some ?m"
    by (auto simp: communication_plan_def split: prod.splits if_splits)
  have fr3': "\<And>b. b \<noteq> ?m \<Longrightarrow> heap w3 b = heap w b"
    using fr3 data_up by simp
  from same_shape_heap[OF sh3 h2] obtain scr where
    scr: "heap w3 ?m = Some scr" "length scr = nat cnt"
    using c by auto
  have sne: "send_data \<noteq> ?m" using s by auto
  have rne: "world_rank w = root \<Longrightarrow> recv_data \<noteq> ?m" using r by auto
  have red: "MIMPI_Reduce w send_data recv_data cnt op root =
     (if rc_up = MIMPI_ERROR_REMOTE_FINISHED
      then Some (MIMPI_ERROR_REMOTE_FINISHED, free w3 ?m)
      else Option.bind
             (if world_rank w = root then heap_memcpy w3 recv_data ?m cnt else Some w3)
             (\<lambda>w4. retcode_of (run_calls ?down (free w4 ?m))))"
    unfolding MIMPI_Reduce_def
    using root rank
    by (simp add: malloc_memcpy[OF s c(1,2)] communication_loop_run up)
  show ?thesis
  proof (cases left)
    case True
    then have rf: "rc_up = MIMPI_ERROR_REMOTE_FINISHED" using rc_up by simp
    have res: "MIMPI_Reduce w send_data recv_data cnt op root =
               Some (MIMPI_ERROR_REMOTE_FINISHED, free w3 ?m)"
      using red rf by simp
    have last: "evs_up \<noteq> [] \<and> ev_code (last evs_up) = MIMPI_ERROR_REMOTE_FINISHED"
      using c3 rf by (auto split: if_splits)
    have prp: "propagates_remote_finished w (Some (MIMPI_ERROR_REMOTE_FINISHED, free w3 ?m))"
      unfolding propagates_remote_finished_def using t3 b3 last by auto
    have fr: "\<forall>b. b \<noteq> ?m \<longrightarrow> heap (free w3 ?m) b = heap w b"
      using fr3' by auto
    have gone: "heap (free w3 ?m) ?m = None" by simp
    have ns: "(\<forall>n. out_code (outcomes w n) \<noteq> MIMPI_ERROR_REMOTE_FINISHED) \<longrightarrow> False"
      using ns3 rf by simp
    show ?thesis using run3 scr res prp fr gone True ns by auto
  next
    case False
    then have ok: "rc_up = MIMPI_SUCCESS" using rc_up by simp
    have nolast: "\<not> (evs_up \<noteq> [] \<and> ev_code (last evs_up) = MIMPI_ERROR_REMOTE_FINISHED)"
      using c3 ok by (auto split: if_splits)
    have norf: "MIMPI_ERROR_REMOTE_FINISHED \<notin> ev_code ` set evs_up"
      using code_last_iff[OF b3] nolast by simp
    define w4 where "w4 = (if world_rank w = root
        then w3\<lparr>heap := (heap w3)(recv_data \<mapsto> memcpy rbuf scr cnt)\<rparr> else w3)"
    have h3r: "world_rank w = root \<Longrightarrow> heap w3 recv_data = Some rbuf \<and> nat cnt \<le> length rbuf"
      using fr3'[OF rne] r by simp
    have cp: "(if world_rank w = root then heap_memcpy w3 recv_data ?m cnt else Some w3) = Some w4"
      using h3r scr c by (auto simp: heap_memcpy_def w4_def)
    have t4: "trace w4 = trace w3" and o4: "outcomes w4 = outcomes w3"
      by (simp_all add: w4_def)
    have res: "MIMPI_Reduce w send_data recv_data cnt op root =
               retcode_of (run_calls ?down (free w4 ?m))"
      using red ok cp by simp
    have ok_down: "\<forall>r \<in> set ?down. request_ok (free w4 ?m) r"
      by (rule no_message_plan_ok)
    from plan_result[OF ok_down] obtain rc w' evs_down where
      down: "retcode_of (run_calls ?down (free w4 ?m)) = Some (rc, w')"
      and t5: "trace w' = trace (free w4 ?m) @ evs_down"
      and b5: "MIMPI_ERROR_REMOTE_FINISHED \<notin> ev_code ` set (butlast evs_down)"
      and c5: "if evs_down \<noteq> [] \<and> ev_code (last evs_down) = MIMPI_ERROR_REMOTE_FINISHED
               then rc = MIMPI_ERROR_REMOTE_FINISHED else rc = MIMPI_SUCCESS"
      and fr5: "\<forall>b. (\<forall>r \<in> set ?down. payload_recv r \<longrightarrow> rq_data r \<noteq> Some b) \<longrightarrow>
                  heap w' b = heap (free w4 ?m) b"
      and ns5: "(\<forall>n. out_code (outcomes (free w4 ?m) n) \<noteq> MIMPI_ERROR_REMOTE_FINISHED) \<longrightarrow> rc = MIMPI_SUCCESS"
      by auto
    have nopl: "\<forall>r \<in> set ?down. \<not> payload_recv r"
      by (auto simp: communication_plan_def payload_recv_def split: prod.splits if_splits)
    have h5: "\<And>b. heap w' b = heap (free w4 ?m) b" using fr5 nopl by simp
    have tr: "trace w' = trace w @ (evs_up @ evs_down)" using t5 t4 t3 by simp
    have bl: "MIMPI_ERROR_REMOTE_FINISHED \<notin> ev_code ` set (butlast (evs_up @ evs_down))"
      by (rule butlast_append_codes[OF norf b5])
    have lastiff: "(evs_up @ evs_down \<noteq> [] \<and> ev_code (last (evs_up @ evs_down)) = MIMPI_ERROR_REMOTE_FINISHED)
        \<longleftrightarrow> (evs_down \<noteq> [] \<and> ev_code (last evs_down) = MIMPI_ERROR_REMOTE_FINISHED)"
      using nolast by (cases "evs_down = []") auto
    have prp: "propagates_remote_finished w (Some (rc, w'))"
      unfolding propagates_remote_finished_def
      using tr bl c5 lastiff by (intro exI[of _ rc] exI[of _ w'] exI[of _ "evs_up @ evs_down"]) auto
    have fr: "\<forall>b. b \<noteq> ?m \<longrightarrow> heap w' b =
        (if world_rank w = root \<and> \<not> left \<and> b = recv_data
         then Some (memcpy rbuf scr cnt) else heap w b)"
      using h5 fr3' False by (auto simp: w4_def)
    have gone: "heap w' ?m = None" using h5 rne by (auto simp: w4_def)
    have o5: "outcomes (free w4 ?m) = outcomes w"
      using o4 same_shapeD[OF sh3] by simp
    have ns: "(\<forall>n. out_code (outcomes w n) \<noteq> MIMPI_ERROR_REMOTE_FINISHED) \<longrightarrow> rc = MIMPI_SUCCESS"
      using ns5 o5 by simp
    show ?thesis using run3 scr res down prp fr gone False ns by auto
  qed
qed

lemma run_recvs_fold:
  assumes "\<forall>n. out_code (outcomes w n) = MIMPI_SUCCESS" "tg \<le> MIMPI_MAX_TAG"
    "heap w a = Some buf" "0 \<le> cnt" "nat cnt \<le> length buf"
    "\<forall>n. nat cnt \<le> length (out_payload (outcomes w n))"
  shows "\<exists>w'. run_calls (map (\<lambda>p. request Recv_call (Some a) cnt tg p) peers) w = Some (False, w') \<and>
     heap w' a = Some (foldl (\<lambda>acc pl. handle_reduce_operation pl cnt tg acc) buf
                   (map (\<lambda>i. out_payload (outcomes w (length (trace w) + i))) [0..<length peers]))"
  using assms
proof (induction peers arbitrary: w buf)
  case Nil
  then show ?case by simp
next
  case (Cons p ps)
  let ?pl = "out_payload (outcomes w (length (trace w)))"
  have tg: "tg \<noteq> MIMPI_NO_MESSAGE_TAG" using Cons.prems(2) by (simp add: tag_defs)
  have c: "out_code (outcomes w (length (trace w))) = MIMPI_SUCCESS" using Cons.prems(1) by simp
  have plen: "nat cnt \<le> length ?pl" using Cons.prems(6) by simp
  from p2p_Recv_step_payload[OF c tg Cons.prems(3,4,5) plen, of p]
  obtain w1 where w1: "p2p_Recv w (Some a) cnt p tg = Some (MIMPI_SUCCESS, w1)"
    "trace w1 = trace w @ [\<lparr>ev_call = Recv_call, ev_count = cnt, ev_peer = p, ev_tag = tg,
                                ev_code = MIMPI_SUCCESS\<rparr>]"
    "same_shape w w1"
    "heap w1 = (heap w)(a \<mapsto> Recv_copy_out ?pl cnt tg buf)"
    by blast
  let ?b1 = "handle_reduce_operation ?pl cnt tg buf"
  have rc: "Recv_copy_out ?pl cnt tg buf = ?b1"
    using Cons.prems(2) by (simp add: Recv_copy_out_def)
  have oc: "outcomes w1 = outcomes w" using w1(3) by (simp add: same_shape_def)
  have h1: "heap w1 a = Some ?b1" using w1(4) rc by simp
  have l1: "nat cnt \<le> length ?b1"
    using Cons.prems(5) by (simp add: handle_reduce_operation_def reduce_loop_length)
  from Cons.IH[of w1 ?b1] Cons.prems oc h1 l1
  obtain w' where w': "run_calls (map (\<lambda>p. request Recv_call (Some a) cnt tg p) ps) w1 = Some (False, w')"
    "heap w' a = Some (foldl (\<lambda>acc pl. handle_reduce_operation pl cnt tg acc) ?b1
                   (map (\<lambda>i. out_payload (outcomes w1 (length (trace w1) + i))) [0..<length ps]))"
    by auto
  have run: "run_calls (map (\<lambda>p. request Recv_call (Some a) cnt tg p) (p # ps)) w = Some (False, w')"
    using w1(1) w'(1) by (simp add: p2p_def)
  have idx: "map (\<lambda>i. out_payload (outcomes w (length (trace w) + i))) [0..<length (p # ps)]
     = ?pl # map (\<lambda>i. out_payload (outcomes w1 (length (trace w1) + i))) [0..<length ps]"
    using w1(2) oc by (simp add: upt_conv_Cons map_Suc_upt[symmetric] del: upt_Suc)
  show ?case using run w'(2) unfolding idx by simp
qed

lemma root_up_plan:
  "communication_plan dat cnt root tg root wsize True =
   map (\<lambda>p. request Recv_call dat cnt tg p) (map (\<lambda>c. helper c root) (child_ranks 1 1 wsize))"
  by (simp add: communication_plan_def communication_loop_init_def comp_def)

lemma op_tag_le: "MIMPI_MAX_TAG - op_index op \<le> MIMPI_MAX_TAG"
  by (cases op) (simp_all add: tag_defs)

lemma reduce_loop_nth:
  "0 \<le> i \<Longrightarrow> j < length d \<Longrightarrow>
   reduce_loop f i cnt m d ! j = (if i \<le> int j \<and> int j < cnt then f (d ! j) (m ! j) else d ! j)"
proof (induction f i cnt m d rule: reduce_loop.induct)
  case (1 f i cnt m d)
  show ?case
  proof (cases "i < cnt")
    case True
    have "reduce_loop f i cnt m d ! j =
          reduce_loop f (i + 1) cnt m (d[nat i := f (d ! nat i) (m ! nat i)]) ! j"
      using True by (subst reduce_loop.simps) simp
    also have "\<dots> = (if i + 1 \<le> int j \<and> int j < cnt
                     then f (d[nat i := f (d ! nat i) (m ! nat i)] ! j) (m ! j)
                     else d[nat i := f (d ! nat i) (m ! nat i)] ! j)"
      using "1.IH"[OF True] "1.prems" by simp
    also have "\<dots> = (if i \<le> int j \<and> int j < cnt then f (d ! j) (m ! j) else d ! j)"
      using "1.prems" True by (auto simp: nth_list_update)
    finally show ?thesis .
  next
    case False
    then show ?thesis using "1.prems" by (subst reduce_loop.simps) auto
  qed
qed

subsection \<open>Example inputs, evaluated\<close>

lemma example_world_simps [simp]:
  "world_size example_world = 4" "world_rank example_world = 0" "next_free example_world = 2"
  "heap example_world 0 = Some [0, 0, 0]" "heap example_world (Suc 0) = Some [9, 9, 9, 9]"
  "outcomes example_world = example_outcomes" "trace example_world = []"
  by (simp_all add: example_world_def)

lemma failing_world_simps [simp]:
  "world_size failing_world = 4" "world_rank failing_world = 0" "next_free failing_world = 2"
  "heap failing_world 0 = Some [0, 0, 0]" "heap failing_world (Suc 0) = Some [9, 9, 9, 9]"
  "outcomes failing_world = failing_outcomes" "trace failing_world = []"
  by (simp_all add: failing_world_def example_world_def)

subsection \<open>The table \<^verbatim>\<open>get_power\<close>\<close>

lemma floor_log2_values:
  "floor_log2 (Suc 0) = 0" "floor_log2 1 = 0" "floor_log2 2 = 1" "floor_log2 3 = 1" "floor_log2 4 = 2" "floor_log2 5 = 2"
  "floor_log2 6 = 2" "floor_log2 7 = 2" "floor_log2 8 = 3" "floor_log2 9 = 3" "floor_log2 10 = 3"
  "floor_log2 11 = 3" "floor_log2 12 = 3" "floor_log2 13 = 3" "floor_log2 14 = 3" "floor_log2 15 = 3"
  by (simp_all add: floor_log2.simps)

lemma get_power_floor_log2:
  assumes "0 < k" "k \<le> 15"
  shows "get_power k = 2 ^ floor_log2 (nat k)"
    and "k - get_power k = unset_bit (floor_log2 (nat k)) k"
proof -
  from assms have "k \<in> {1,2,3,4,5,6,7,8,9,10,11,12,13,14,15::int}" by simp arith
  then show "get_power k = 2 ^ floor_log2 (nat k)"
    and "k - get_power k = unset_bit (floor_log2 (nat k)) k"
    by (elim insertE emptyE; simp add: get_power_def floor_log2_values unset_bit_Suc unset_bit_0)+
qed

lemma get_power_pos: "0 < k \<Longrightarrow> 0 < get_power k"
  by (simp add: get_power_def)

lemma floor_log2_bounds: "0 < n \<Longrightarrow> 2 ^ floor_log2 n \<le> n \<and> n < 2 ^ Suc (floor_log2 n)"
proof (induction n rule: floor_log2.induct)
  case (1 n)
  show ?case
  proof (cases "n < 2")
    case True
    with "1.prems" have "n = 1" by simp
    then show ?thesis by (simp add: floor_log2.simps)
  next
    case False
    then have ih: "2 ^ floor_log2 (n div 2) \<le> n div 2 \<and> n div 2 < 2 ^ Suc (floor_log2 (n div 2))"
      using "1.IH" by simp
    have fl: "floor_log2 n = Suc (floor_log2 (n div 2))"
      using False by (subst floor_log2.simps) simp
    define a :: nat where "a = 2 ^ floor_log2 (n div 2)"
    have "a \<le> n div 2" "n div 2 < 2 * a" using ih by (simp_all add: a_def)
    then have "2 * a \<le> n \<and> n < 2 * (2 * a)" by arith
    then show ?thesis unfolding fl by (simp add: a_def)
  qed
qed

text \<open>
  Claim C10.  For every rank \<open>k\<close> from 0 to 15, \<^verbatim>\<open>get_power(k)\<close> is the highest power of
  two not exceeding \<open>k\<close>, that is \<open>2 ^ floor_log2 k\<close>, with \<^verbatim>\<open>get_power(0) = 0\<close> and
  \<^verbatim>\<open>get_power(1) = 1\<close>; hence the parent \<^verbatim>\<open>receive_from = k - get_power(k)\<close> that
  \<^verbatim>\<open>communication_loop\<close> computes for \<open>k > 0\<close> is \<open>k\<close> with its most significant set bit
  cleared.
\<close>

theorem get_power_highest_power_of_two:
  assumes "0 \<le> k" "k \<le> 15"
  shows "get_power k = (if k = 0 then 0 else 2 ^ floor_log2 (nat k)) \<and>
         (0 < k \<longrightarrow>
            2 ^ floor_log2 (nat k) \<le> nat k \<and> nat k < 2 ^ Suc (floor_log2 (nat k)) \<and>
            fst (communication_loop_init k root) = unset_bit (floor_log2 (nat k)) k)"
proof -
  from assms have "k \<in> {0,1,2,3,4,5,6,7,8,9,10,11,12,13,14,15::int}" by simp arith
  then have gp: "get_power k = (if k = 0 then 0 else 2 ^ floor_log2 (nat k))"
    and ub: "0 < k \<longrightarrow> k - get_power k = unset_bit (floor_log2 (nat k)) k"
    by (elim insertE emptyE; simp add: get_power_def floor_log2_values unset_bit_Suc unset_bit_0)+
  have rf: "fst (communication_loop_init k root) = k - get_power k" if "0 < k"
    using that by (simp add: communication_loop_init_def)
  show ?thesis using gp ub rf floor_log2_bounds[of "nat k"] by simp
qed

theorem get_power_highest_power_of_two_witness:
  "(0::int) \<le> 5 \<and> (5::int) \<le> 15 \<and> get_power 5 = 4 \<and> get_power 3 = 2 \<and>
   get_power 1 = 1 \<and> get_power 0 = 0 \<and> fst (communication_loop_init 5 0) = 1"
  using get_power_highest_power_of_two[of 5 0] get_power_highest_power_of_two[of 3 0]
    get_power_highest_power_of_two[of 1 0] get_power_highest_power_of_two[of 0 0]
  by (simp add: floor_log2_values unset_bit_Suc unset_bit_0)

subsection \<open>Neighbours in the tree\<close>

text \<open>
  Claim C1, as amended.  For every rank \<open>k\<close> with \<open>0 < k < W \<le> 16\<close> that is not the root of
  the collective, \<^verbatim>\<open>communication_loop\<close> computes the parent \<open>k - get_power k\<close> and the
  children \<open>k + get_power k * 2 ^ (i + 1)\<close> for \<open>i = 0, 1, \<dots>\<close> while still below \<open>W\<close>, where
  \<open>get_power k\<close> is the highest power of two not exceeding \<open>k\<close> (not the largest power of two
  dividing \<open>k\<close>).  The up-phase receives from the children in this order and then sends to
  the parent; the down-phase receives from the parent and then sends to the children in this
  order; \<^const>\<open>helper\<close> and \<^const>\<open>swap_receive_from\<close> are the relabelling of ranks 0 and
  \<open>root\<close>, applied afterwards.
\<close>

theorem tree_neighbours:
  assumes "0 < k" "k < W" "W \<le> MAXSIZE" "0 \<le> root" "k \<noteq> root"
  shows "\<exists>n.
     get_power k = 2 ^ floor_log2 (nat k) \<and>
     communication_loop_init k root = (k - get_power k, get_power k * 2, k + get_power k * 2) \<and>
     communication_loop dat cnt root tg k W True w =
       retcode_of (run_calls
         (map (\<lambda>i. request Recv_call dat cnt tg (helper (k + get_power k * 2 ^ Suc i) root)) [0..<n]
          @ [request Send_call dat cnt tg (swap_receive_from (k - get_power k) root)]) w) \<and>
     communication_loop dat cnt root tg k W False w =
       retcode_of (run_calls
         (request Recv_call dat cnt tg (swap_receive_from (k - get_power k) root)
          # map (\<lambda>i. request Send_call dat cnt tg (helper (k + get_power k * 2 ^ Suc i) root)) [0..<n])
         w) \<and>
     (\<forall>i<n. k + get_power k * 2 ^ Suc i < W) \<and> W \<le> k + get_power k * 2 ^ Suc n"
proof -
  let ?g = "get_power k"
  let ?cs = "child_ranks (k + ?g * 2) (?g * 2) W"
  let ?n = "length ?cs"
  have gp: "get_power k = 2 ^ floor_log2 (nat k)"
    using assms by (intro get_power_floor_log2) (simp_all add: MAXSIZE_def)
  have init: "communication_loop_init k root = (k - ?g, ?g * 2, k + ?g * 2)"
    using assms by (simp add: communication_loop_init_def)
  have pos: "0 < ?g * 2" using get_power_pos[OF assms(1)] by simp
  from child_ranks_closed_form[OF pos, of "k + ?g * 2" W]
  have cs: "?cs = map (\<lambda>i. k + ?g * 2 * 2 ^ i) [0..<?n]"
    and lt: "\<forall>c \<in> set ?cs. c < W"
    and ge: "W \<le> k + ?g * 2 * 2 ^ ?n"
    by simp_all
  have cs': "?cs = map (\<lambda>i. k + ?g * 2 ^ Suc i) [0..<?n]"
    using cs by (simp add: mult.assoc)
  have lt': "\<forall>i<?n. k + ?g * 2 ^ Suc i < W"
  proof (intro allI impI)
    fix i assume "i < ?n"
    then have "?cs ! i \<in> set ?cs" by simp
    moreover have "?cs ! i = k + ?g * 2 ^ Suc i"
      using \<open>i < ?n\<close> by (subst cs') simp
    ultimately show "k + ?g * 2 ^ Suc i < W" using lt by simp
  qed
  have mapcs: "map f ?cs = map (\<lambda>i. f (k + ?g * 2 ^ Suc i)) [0..<?n]" for f :: "int \<Rightarrow> p2p_request"
    by (subst cs') (simp add: comp_def)
  have up: "communication_loop dat cnt root tg k W True w =
       retcode_of (run_calls
         (map (\<lambda>i. request Recv_call dat cnt tg (helper (k + ?g * 2 ^ Suc i) root)) [0..<?n]
          @ [request Send_call dat cnt tg (swap_receive_from (k - ?g) root)]) w)"
    using assms by (simp add: communication_loop_run communication_plan_def init mapcs)
  have down: "communication_loop dat cnt root tg k W False w =
       retcode_of (run_calls
         (request Recv_call dat cnt tg (swap_receive_from (k - ?g) root)
          # map (\<lambda>i. request Send_call dat cnt tg (helper (k + ?g * 2 ^ Suc i) root)) [0..<?n]) w)"
    using assms by (simp add: communication_loop_run communication_plan_def init mapcs)
  show ?thesis
    using gp init up down lt' ge by (intro exI[of _ ?n]) (simp add: mult.assoc)
qed

theorem tree_neighbours_witness:
  "(0::int) < 1 \<and> (1::int) < 8 \<and> 8 \<le> MAXSIZE \<and> (0::int) \<le> 0 \<and> (1::int) \<noteq> 0 \<and>
   (\<exists>n. get_power 1 = 2 ^ floor_log2 (nat 1) \<and>
     communication_loop_init 1 0 = (1 - get_power 1, get_power 1 * 2, 1 + get_power 1 * 2) \<and>
     communication_loop None (- 1) 0 MIMPI_NO_MESSAGE_TAG 1 8 True example_world =
       retcode_of (run_calls
         (map (\<lambda>i. request Recv_call None (- 1) MIMPI_NO_MESSAGE_TAG (helper (1 + get_power 1 * 2 ^ Suc i) 0)) [0..<n]
          @ [request Send_call None (- 1) MIMPI_NO_MESSAGE_TAG (swap_receive_from (1 - get_power 1) 0)]) example_world) \<and>
     communication_loop None (- 1) 0 MIMPI_NO_MESSAGE_TAG 1 8 False example_world =
       retcode_of (run_calls
         (request Recv_call None (- 1) MIMPI_NO_MESSAGE_TAG (swap_receive_from (1 - get_power 1) 0)
          # map (\<lambda>i. request Send_call None (- 1) MIMPI_NO_MESSAGE_TAG (helper (1 + get_power 1 * 2 ^ Suc i) 0)) [0..<n])
         example_world) \<and>
     (\<forall>i<n. 1 + get_power 1 * 2 ^ Suc i < 8) \<and> 8 \<le> 1 + get_power 1 * 2 ^ Suc n)"
proof -
  have "\<exists>n. get_power 1 = 2 ^ floor_log2 (nat 1) \<and>
     communication_loop_init 1 0 = (1 - get_power 1, get_power 1 * 2, 1 + get_power 1 * 2) \<and>
     communication_loop None (- 1) 0 MIMPI_NO_MESSAGE_TAG 1 8 True example_world =
       retcode_of (run_calls
         (map (\<lambda>i. request Recv_call None (- 1) MIMPI_NO_MESSAGE_TAG (helper (1 + get_power 1 * 2 ^ Suc i) 0)) [0..<n]
          @ [request Send_call None (- 1) MIMPI_NO_MESSAGE_TAG (swap_receive_from (1 - get_power 1) 0)]) example_world) \<and>
     communication_loop None (- 1) 0 MIMPI_NO_MESSAGE_TAG 1 8 False example_world =
       retcode_of (run_calls
         (request Recv_call None (- 1) MIMPI_NO_MESSAGE_TAG (swap_receive_from (1 - get_power 1) 0)
          # map (\<lambda>i. request Send_call None (- 1) MIMPI_NO_MESSAGE_TAG (helper (1 + get_power 1 * 2 ^ Suc i) 0)) [0..<n])
         example_world) \<and>
     (\<forall>i<n. 1 + get_power 1 * 2 ^ Suc i < 8) \<and> 8 \<le> 1 + get_power 1 * 2 ^ Suc n"
    by (rule tree_neighbours) (simp_all add: MAXSIZE_def)
  moreover have "(0::int) < 1 \<and> (1::int) < 8 \<and> 8 \<le> MAXSIZE \<and> (0::int) \<le> 0 \<and> (1::int) \<noteq> 0"
    by (simp add: MAXSIZE_def)
  ultimately show ?thesis by blast
qed

text \<open>
  The claim as the specification states it fails: for \<open>k = 3\<close> in a world of four with root 0
  the parent computed is 1, whereas \<open>3 - LP 3 = 2\<close>; and for \<open>k = 1\<close> the only child below 4
  is rank 3, whereas \<open>1 + LP 1 * 2 ^ 0 = 2\<close>.
\<close>

theorem parent_is_not_rank_minus_LP_counterexample:
  "(0::int) < 3 \<and> (3::int) < 4 \<and> (3::int) \<noteq> 0 \<and>
   fst (communication_loop_init 3 0) = 1 \<and> 3 - LP 3 = 2 \<and>
   communication_loop_init 1 0 = (0, 2, 3) \<and> child_ranks 3 2 4 = [3] \<and> 1 + LP 1 * 2 ^ 0 = 2"
  by (simp add: communication_loop_init_def get_power_def LP_def child_ranks.simps)

subsection \<open>The match predicate\<close>

lemma find_elem_in_list_le: "find_elem_in_list l b \<le> length l"
  by (induction l) auto

lemma find_elem_in_list_match:
  "find_elem_in_list l b < length l \<Longrightarrow> compare_message (l ! find_elem_in_list l b) b"
  by (induction l) (auto split: if_splits)

lemma find_elem_in_list_first:
  "j < find_elem_in_list l b \<Longrightarrow> \<not> compare_message (l ! j) b"
proof (induction l arbitrary: j)
  case Nil
  then show ?case by simp
next
  case (Cons m l)
  then show ?case by (cases j) (auto split: if_splits)
qed

text \<open>
  Claim C2, as amended.  \<^verbatim>\<open>compare_message(a, b)\<close> holds iff the sources are equal, the counts
  are equal, and the tag of the filter \<open>b\<close> equals the tag of \<open>a\<close> or is \<^verbatim>\<open>MIMPI_ANY_TAG\<close>; a
  wildcard filter matches a queued message of any tag, internal (negative) tags included.
  \<^verbatim>\<open>find_elem_in_list\<close> returns the first element of the queue that this predicate accepts,
  or the end of the queue.
\<close>

theorem compare_message_any_tag:
  "(compare_message a b \<longleftrightarrow>
      source a = source b \<and> count a = count b \<and> (tag b = tag a \<or> tag b = MIMPI_ANY_TAG)) \<and>
   find_elem_in_list l b \<le> length l \<and>
   (find_elem_in_list l b < length l \<longrightarrow> compare_message (l ! find_elem_in_list l b) b) \<and>
   (\<forall>j < find_elem_in_list l b. \<not> compare_message (l ! j) b)"
  using find_elem_in_list_le find_elem_in_list_match find_elem_in_list_first
  by (auto simp: compare_message_def)

theorem compare_message_any_tag_witness:
  "find_elem_in_list [broadcast_message] any_tag_filter = 0 \<and>
   compare_message ([broadcast_message] ! find_elem_in_list [broadcast_message] any_tag_filter)
     any_tag_filter"
  using compare_message_any_tag[of broadcast_message any_tag_filter "[broadcast_message]"]
  by (simp add: broadcast_message_def any_tag_filter_def create_message_def tag_defs)

text \<open>
  The claim as the specification states it fails: a queued broadcast carrier (tag -3) is
  matched by a wildcard filter of the same source and count.
\<close>

theorem any_tag_matches_internal_tag_counterexample:
  "tag broadcast_message < 0 \<and> tag any_tag_filter = MIMPI_ANY_TAG \<and>
   compare_message broadcast_message any_tag_filter \<and>
   \<not> spec_match broadcast_message any_tag_filter"
  by (simp add: broadcast_message_def any_tag_filter_def create_message_def tag_defs
        compare_message_def spec_match_def)

subsection \<open>The reduce combine step, lane by lane\<close>

lemma handle_reduce_operation_nth:
  assumes "j < length dat"
  shows "handle_reduce_operation msg cnt tg dat ! j =
     (if int j < cnt then
        (if tg = MIMPI_MAX_TAG then MAX_u8 (dat ! j) (msg ! j)
         else if tg = MIMPI_MIN_TAG then MIN_u8 (dat ! j) (msg ! j)
         else if tg = MIMPI_SUM_TAG then dat ! j + msg ! j
         else dat ! j * msg ! j)
      else dat ! j)"
  using assms by (simp add: handle_reduce_operation_def reduce_loop_nth)

lemma sum_constant:
  "handle_reduce_operation (replicate n b) (int n) MIMPI_SUM_TAG (replicate n a) = replicate n (a + b)"
  by (rule nth_equalityI)
     (simp_all add: handle_reduce_operation_def reduce_loop_length reduce_loop_nth tag_defs)

lemma fold_sum_ones:
  "foldl (\<lambda>acc c. handle_reduce_operation c (int n) MIMPI_SUM_TAG acc) (replicate n a)
     (replicate m (replicate n 1)) = replicate n (a + of_nat m)"
  by (induction m arbitrary: a) (simp_all add: sum_constant add.assoc)

text \<open>
  Claim C4.  \<^verbatim>\<open>handle_reduce_operation\<close> treats both buffers as arrays of unsigned 8-bit
  lanes and combines the first \<^verbatim>\<open>count\<close> lanes componentwise: MAX takes the maximum, MIN the
  minimum, SUM adds modulo 256 and PROD multiplies modulo 256; the length and the bytes
  beyond \<^verbatim>\<open>count\<close> are unchanged.  Consequently, folding \<open>W\<close> contributions of the all-ones
  vector with SUM yields the vector whose every lane is \<open>W mod 256\<close>.
\<close>

theorem reduce_combines_bytewise:
  assumes "int j < cnt" "nat cnt \<le> length dat" "nat cnt \<le> length msg" "0 < W"
  shows
    "unat (handle_reduce_operation msg cnt MIMPI_MAX_TAG dat ! j) = max (unat (dat ! j)) (unat (msg ! j)) \<and>
     unat (handle_reduce_operation msg cnt MIMPI_MIN_TAG dat ! j) = min (unat (dat ! j)) (unat (msg ! j)) \<and>
     unat (handle_reduce_operation msg cnt MIMPI_SUM_TAG dat ! j) = (unat (dat ! j) + unat (msg ! j)) mod 256 \<and>
     unat (handle_reduce_operation msg cnt MIMPI_PROD_TAG dat ! j) = (unat (dat ! j) * unat (msg ! j)) mod 256 \<and>
     length (handle_reduce_operation msg cnt tg dat) = length dat \<and>
     drop (nat cnt) (handle_reduce_operation msg cnt tg dat) = drop (nat cnt) dat \<and>
     foldl (\<lambda>acc c. handle_reduce_operation c (int n) MIMPI_SUM_TAG acc) (replicate n 1)
       (replicate (W - 1) (replicate n 1)) = replicate n (of_nat W) \<and>
     unat (of_nat W :: u8) = W mod 256"
proof -
  have j: "j < length dat" using assms by linarith
  have len: "length (handle_reduce_operation msg cnt tg dat) = length dat"
    by (simp add: handle_reduce_operation_def reduce_loop_length)
  have dr: "drop (nat cnt) (handle_reduce_operation msg cnt tg dat) = drop (nat cnt) dat"
    by (rule nth_equalityI) (simp_all add: len handle_reduce_operation_nth)
  have fs: "foldl (\<lambda>acc c. handle_reduce_operation c (int n) MIMPI_SUM_TAG acc) (replicate n 1)
       (replicate (W - 1) (replicate n 1)) = replicate n (of_nat W)"
    using fold_sum_ones[of n 1 "W - 1"] assms(4) by (simp add: of_nat_diff)
  show ?thesis
    using assms(1) j len dr fs
    by (simp add: handle_reduce_operation_nth tag_defs MAX_u8_def MIN_u8_def
          word_less_nat_alt unat_word_ariths unat_of_nat max_def min_def)
qed

theorem reduce_combines_bytewise_witness:
  "handle_reduce_operation [250, 3] 2 MIMPI_SUM_TAG [10, 4] = [4, 7] \<and>
   handle_reduce_operation [250, 3] 2 MIMPI_PROD_TAG [10, 4] = [196, 12] \<and>
   handle_reduce_operation [250, 3] 2 MIMPI_MAX_TAG [10, 4] = [250, 4] \<and>
   handle_reduce_operation [250, 3] 2 MIMPI_MIN_TAG [10, 4] = [10, 3] \<and>
   unat (handle_reduce_operation [250, 3] 2 MIMPI_SUM_TAG [10, 4] ! 0) = (10 + 250) mod 256 \<and>
   foldl (\<lambda>acc c. handle_reduce_operation c (int 2) MIMPI_SUM_TAG acc) (replicate 2 1)
       (replicate (4 - 1) (replicate 2 1)) = replicate 2 (of_nat 4)"
  using reduce_combines_bytewise[of 0 2 "[10, 4]" "[250, 3]" 4 MIMPI_SUM_TAG 2]
  by (simp add: handle_reduce_operation_def reduce_loop.simps tag_defs MAX_u8_def MIN_u8_def)

subsection \<open>Remote-finished leaves a collective at once\<close>

text \<open>
  Claim C5.  In Barrier, Bcast and Reduce (with a valid root and valid buffers), as soon as
  a constituent point-to-point call returns remote-finished the collective returns
  remote-finished without making another point-to-point call: a remote-finished event can
  only be the last event logged.  If no constituent call returns remote-finished, the
  collective returns success.
\<close>

theorem collectives_propagate_remote_finished:
  assumes "0 \<le> world_rank w" "world_rank w < world_size w" "world_size w \<le> MAXSIZE"
    and "0 \<le> root" "root < world_size w"
    and "heap w a = Some buf"
    and "heap w send_data = Some sbuf" "send_data < next_free w"
    and "heap w recv_data = Some rbuf" "recv_data < next_free w"
    and "0 \<le> cnt" "nat cnt \<le> length buf" "nat cnt \<le> length sbuf" "nat cnt \<le> length rbuf"
    and "\<forall>n. nat cnt \<le> length (out_payload (outcomes w n))"
  shows "propagates_remote_finished w (MIMPI_Barrier w) \<and>
         propagates_remote_finished w (MIMPI_Bcast w (Some a) cnt root) \<and>
         propagates_remote_finished w (MIMPI_Reduce w send_data recv_data cnt op root)"
proof -
  have "propagates_remote_finished w (MIMPI_Barrier w)"
    by (rule Barrier_propagates) (rule assms(1))
  moreover have "propagates_remote_finished w (MIMPI_Bcast w (Some a) cnt root)"
    by (rule Bcast_propagates[OF assms(1,4,5,6,11,12,15)])
  moreover have "propagates_remote_finished w (MIMPI_Reduce w send_data recv_data cnt op root)"
    using Reduce_effect[of w root send_data sbuf recv_data rbuf cnt op] assms by auto
  ultimately show ?thesis by blast
qed

theorem collectives_propagate_remote_finished_witness:
  "0 \<le> world_rank failing_world \<and> world_rank failing_world < world_size failing_world \<and>
   world_size failing_world \<le> MAXSIZE \<and> (0::int) \<le> 0 \<and> 0 < world_size failing_world \<and>
   heap failing_world 1 = Some [9, 9, 9, 9] \<and> heap failing_world 0 = Some [0, 0, 0] \<and>
   0 < next_free failing_world \<and> 1 < next_free failing_world \<and>
   (\<forall>n. nat 3 \<le> length (out_payload (outcomes failing_world n))) \<and>
   propagates_remote_finished failing_world (MIMPI_Barrier failing_world) \<and>
   propagates_remote_finished failing_world (MIMPI_Bcast failing_world (Some 1) 3 0) \<and>
   propagates_remote_finished failing_world (MIMPI_Reduce failing_world 0 1 3 MIMPI_SUM 0) \<and>
   (\<exists>w'. MIMPI_Barrier failing_world = Some (MIMPI_ERROR_REMOTE_FINISHED, w') \<and>
      map ev_peer (trace w') = [1, 2] \<and>
      map ev_code (trace w') = [MIMPI_SUCCESS, MIMPI_ERROR_REMOTE_FINISHED])"
proof -
  have pl: "\<forall>n. nat 3 \<le> length (out_payload (outcomes failing_world n))"
    by (simp add: failing_outcomes_def)
  have ev: "\<exists>w'. MIMPI_Barrier failing_world = Some (MIMPI_ERROR_REMOTE_FINISHED, w') \<and>
      map ev_peer (trace w') = [1, 2] \<and>
      map ev_code (trace w') = [MIMPI_SUCCESS, MIMPI_ERROR_REMOTE_FINISHED]"
    by (simp add: MIMPI_Barrier_def communication_loop_def communication_loop_init_def
          get_power_def recv_loop.simps p2p_Recv_def log_call_def helper_def failing_outcomes_def
          tag_defs MIMPI_DEFAULT_COUNT_def Let_def)
  have "propagates_remote_finished failing_world (MIMPI_Barrier failing_world) \<and>
   propagates_remote_finished failing_world (MIMPI_Bcast failing_world (Some 1) 3 0) \<and>
   propagates_remote_finished failing_world (MIMPI_Reduce failing_world 0 1 3 MIMPI_SUM 0)"
    by (rule collectives_propagate_remote_finished[where buf = "[9, 9, 9, 9]" and sbuf = "[0, 0, 0]"
          and rbuf = "[9, 9, 9, 9]"])
       (use pl in \<open>simp_all add: MAXSIZE_def\<close>)
  then show ?thesis using pl ev by (simp add: MAXSIZE_def)
qed

subsection \<open>The buffers of Reduce\<close>

text \<open>
  Claim C8, as amended.  \<^verbatim>\<open>MIMPI_Reduce\<close> returns, and writes to \<^verbatim>\<open>recv_data\<close> only at the
  process whose rank is \<^verbatim>\<open>root\<close>: at every other process no buffer that existed before the
  call changes, whatever \<^verbatim>\<open>recv_data\<close> points to (it need not be a buffer at all there), and
  at the root no buffer but \<^verbatim>\<open>recv_data\<close> changes.  So \<^verbatim>\<open>send_data\<close> is unchanged at every
  process, unless the caller at the root passes one and the same buffer as \<^verbatim>\<open>send_data\<close> and
  as \<^verbatim>\<open>recv_data\<close>: the folding happens in a private scratch buffer, which is freed before
  the call returns, and the root then copies the result to \<^verbatim>\<open>recv_data\<close>.  At the root, when
  every call succeeds, the first \<^verbatim>\<open>count\<close> bytes of \<^verbatim>\<open>recv_data\<close> are the fold of the received
  payloads into a copy of \<^verbatim>\<open>send_data\<close>, and the bytes beyond \<^verbatim>\<open>count\<close> are unchanged.  The
  only address excepted is \<^term>\<open>next_free w\<close>, which the scratch buffer takes during the
  call and which holds no buffer afterwards.
\<close>

theorem Reduce_writes_only_root_recv_data:
  assumes rank: "0 \<le> world_rank w"
    and root: "0 \<le> root" "root < world_size w"
    and s: "heap w send_data = Some sbuf" "send_data < next_free w"
    and r: "world_rank w = root \<longrightarrow>
              heap w recv_data = Some rbuf \<and> recv_data < next_free w \<and> nat cnt \<le> length rbuf"
    and c: "0 \<le> cnt" "nat cnt \<le> length sbuf"
    and pl: "\<forall>n. nat cnt \<le> length (out_payload (outcomes w n))"
  shows "\<exists>rc w'. MIMPI_Reduce w send_data recv_data cnt op root = Some (rc, w') \<and>
     (\<forall>b. b \<noteq> next_free w \<longrightarrow> world_rank w \<noteq> root \<or> b \<noteq> recv_data \<longrightarrow>
          heap w' b = heap w b) \<and>
     heap w' (next_free w) = None \<and>
     (world_rank w \<noteq> root \<or> send_data \<noteq> recv_data \<longrightarrow> heap w' send_data = Some sbuf) \<and>
     (world_rank w \<noteq> root \<longrightarrow> recv_data \<noteq> next_free w \<longrightarrow>
        heap w' recv_data = heap w recv_data) \<and>
     (world_rank w = root \<longrightarrow> (\<forall>n. out_code (outcomes w n) = MIMPI_SUCCESS) \<longrightarrow>
        rc = MIMPI_SUCCESS \<and>
        heap w' recv_data =
          Some (foldl (\<lambda>acc pl. handle_reduce_operation pl cnt (MIMPI_MAX_TAG - op_index op) acc)
                  (take (nat cnt) sbuf)
                  (map (\<lambda>i. out_payload (outcomes w (length (trace w) + i)))
                     [0..<length (child_ranks 1 1 (world_size w))])
                @ drop (nat cnt) rbuf))"
proof -
  let ?m = "next_free w"
  let ?tg = "MIMPI_MAX_TAG - op_index op"
  let ?w2 = "scratch_world w sbuf cnt"
  let ?up = "communication_plan (Some ?m) cnt root ?tg (world_rank w) (world_size w) True"
  from Reduce_effect[OF rank root s r c pl, of op]
  obtain rc w' left w3 scr where
    run: "run_calls ?up ?w2 = Some (left, w3)"
    and scr: "heap w3 ?m = Some scr" "length scr = nat cnt"
    and res: "MIMPI_Reduce w send_data recv_data cnt op root = Some (rc, w')"
    and prp: "propagates_remote_finished w (Some (rc, w'))"
    and ns: "(\<forall>n. out_code (outcomes w n) \<noteq> MIMPI_ERROR_REMOTE_FINISHED) \<longrightarrow> rc = MIMPI_SUCCESS"
    and gone: "heap w' ?m = None"
    and fr: "\<forall>b. b \<noteq> ?m \<longrightarrow> heap w' b =
        (if world_rank w = root \<and> \<not> left \<and> b = recv_data
         then Some (memcpy rbuf scr cnt) else heap w b)"
    by blast
  have sne: "send_data \<noteq> ?m" using s by auto
  have a: "world_rank w \<noteq> root \<or> send_data \<noteq> recv_data \<longrightarrow> heap w' send_data = Some sbuf"
    using fr s sne by auto
  have b: "world_rank w \<noteq> root \<longrightarrow> recv_data \<noteq> ?m \<longrightarrow> heap w' recv_data = heap w recv_data"
    using fr by auto
  have c': "\<forall>b. b \<noteq> ?m \<longrightarrow> world_rank w \<noteq> root \<or> b \<noteq> recv_data \<longrightarrow> heap w' b = heap w b"
    using fr by auto
  have d: "world_rank w = root \<longrightarrow> (\<forall>n. out_code (outcomes w n) = MIMPI_SUCCESS) \<longrightarrow>
        rc = MIMPI_SUCCESS \<and>
        heap w' recv_data =
          Some (foldl (\<lambda>acc pl. handle_reduce_operation pl cnt ?tg acc)
                  (take (nat cnt) sbuf)
                  (map (\<lambda>i. out_payload (outcomes w (length (trace w) + i)))
                     [0..<length (child_ranks 1 1 (world_size w))])
                @ drop (nat cnt) rbuf)"
  proof (intro impI)
    assume isroot: "world_rank w = root" and succ: "\<forall>n. out_code (outcomes w n) = MIMPI_SUCCESS"
    have rne: "recv_data \<noteq> ?m" using r isroot by auto
    let ?peers = "map (\<lambda>c. helper c root) (child_ranks 1 1 (world_size w))"
    have up: "?up = map (\<lambda>p. request Recv_call (Some ?m) cnt ?tg p) ?peers"
      using isroot root_up_plan[of "Some ?m" cnt root ?tg "world_size w"] by simp
    have h2: "heap ?w2 ?m = Some (take (nat cnt) sbuf)" by simp
    from run_recvs_fold[of ?w2 ?tg ?m "take (nat cnt) sbuf" cnt ?peers] succ pl c h2 op_tag_le[of op]
    obtain w3' where w3': "run_calls (map (\<lambda>p. request Recv_call (Some ?m) cnt ?tg p) ?peers) ?w2 = Some (False, w3')"
      "heap w3' ?m = Some (foldl (\<lambda>acc pl. handle_reduce_operation pl cnt ?tg acc) (take (nat cnt) sbuf)
                   (map (\<lambda>i. out_payload (outcomes ?w2 (length (trace ?w2) + i))) [0..<length ?peers]))"
      by auto
    from run w3'(1) up have eq: "left = False" "w3 = w3'" by simp_all
    have scr_eq: "scr = foldl (\<lambda>acc pl. handle_reduce_operation pl cnt ?tg acc) (take (nat cnt) sbuf)
                   (map (\<lambda>i. out_payload (outcomes w (length (trace w) + i)))
                      [0..<length (child_ranks 1 1 (world_size w))])"
      using scr(1) w3'(2) eq by simp
    have hr: "heap w' recv_data = Some (memcpy rbuf scr cnt)"
      using fr rne isroot eq by simp
    have mc: "memcpy rbuf scr cnt = scr @ drop (nat cnt) rbuf"
      using scr(2) by (simp add: memcpy_def)
    have rcs: "rc = MIMPI_SUCCESS" using ns succ by simp
    show "rc = MIMPI_SUCCESS \<and> heap w' recv_data =
          Some (foldl (\<lambda>acc pl. handle_reduce_operation pl cnt ?tg acc)
                  (take (nat cnt) sbuf)
                  (map (\<lambda>i. out_payload (outcomes w (length (trace w) + i)))
                     [0..<length (child_ranks 1 1 (world_size w))])
                @ drop (nat cnt) rbuf)"
      using rcs hr mc scr_eq by simp
  qed
  show ?thesis using res a b c' d gone by blast
qed

theorem Reduce_writes_only_root_recv_data_witness:
  "0 \<le> world_rank example_world \<and> world_rank example_world < world_size example_world \<and>
   world_size example_world \<le> MAXSIZE \<and>
   heap example_world 0 = Some [0, 0, 0] \<and> heap example_world 1 = Some [9, 9, 9, 9] \<and>
   (\<exists>rc w'. MIMPI_Reduce example_world 0 1 3 MIMPI_SUM 0 = Some (rc, w') \<and> rc = MIMPI_SUCCESS \<and>
      heap w' 0 = Some [0, 0, 0] \<and> heap w' 1 = Some [6, 6, 6, 9] \<and> heap w' 2 = None) \<and>
   world_rank leaf_world = 3 \<and> heap leaf_world 5 = None \<and>
   (\<exists>rc w'. MIMPI_Reduce leaf_world 0 5 3 MIMPI_SUM 0 = Some (rc, w') \<and>
      heap w' 0 = Some [0, 0, 0] \<and> heap w' 1 = Some [9, 9, 9, 9] \<and> heap w' 5 = None)"
proof -
  have pl: "\<forall>n. nat 3 \<le> length (out_payload (outcomes example_world n))"
    and ok: "\<forall>n. out_code (outcomes example_world n) = MIMPI_SUCCESS"
    by (simp_all add: example_outcomes_def)
  have cr: "child_ranks 1 1 4 = [1, 2]" by (simp add: child_ranks.simps)
  have fold: "foldl (\<lambda>acc pl. handle_reduce_operation pl 3 (MIMPI_MAX_TAG - op_index MIMPI_SUM) acc)
       (take (nat 3) [0, 0, 0])
       (map (\<lambda>i. out_payload (outcomes example_world (length (trace example_world) + i)))
            [0..<length (child_ranks 1 1 (world_size example_world))]) = [6, 6, 6]"
    by (simp add: cr example_outcomes_def handle_reduce_operation_def tag_defs reduce_loop.simps
          upt_conv_Cons)
  from Reduce_writes_only_root_recv_data[of example_world 0 0 "[0, 0, 0]" 1 "[9, 9, 9, 9]" 3 MIMPI_SUM]
    pl ok
  obtain rc w' where "MIMPI_Reduce example_world 0 1 3 MIMPI_SUM 0 = Some (rc, w')"
    "heap w' 0 = Some [0, 0, 0]" "rc = MIMPI_SUCCESS" "heap w' 2 = None"
    "heap w' 1 = Some (foldl (\<lambda>acc pl. handle_reduce_operation pl 3 (MIMPI_MAX_TAG - op_index MIMPI_SUM) acc)
       (take (nat 3) [0, 0, 0])
       (map (\<lambda>i. out_payload (outcomes example_world (length (trace example_world) + i)))
            [0..<length (child_ranks 1 1 (world_size example_world))]) @ drop (nat 3) [9, 9, 9, 9])"
    by (auto simp: MAXSIZE_def)
  then have at_root: "\<exists>rc w'. MIMPI_Reduce example_world 0 1 3 MIMPI_SUM 0 = Some (rc, w') \<and>
      rc = MIMPI_SUCCESS \<and> heap w' 0 = Some [0, 0, 0] \<and> heap w' 1 = Some [6, 6, 6, 9] \<and>
      heap w' 2 = None"
    unfolding fold by simp
  have pl3: "\<forall>n. nat 3 \<le> length (out_payload (outcomes leaf_world n))"
    by (simp add: leaf_world_def example_outcomes_def)
  from Reduce_writes_only_root_recv_data[of leaf_world 0 0 "[0, 0, 0]" 5 "[]" 3 MIMPI_SUM] pl3
  obtain rc3 w3 where leaf: "MIMPI_Reduce leaf_world 0 5 3 MIMPI_SUM 0 = Some (rc3, w3)"
    "\<forall>b. b \<noteq> 2 \<longrightarrow> heap w3 b = heap leaf_world b"
    by (auto simp: leaf_world_def MAXSIZE_def)
  have at_leaf: "\<exists>rc w'. MIMPI_Reduce leaf_world 0 5 3 MIMPI_SUM 0 = Some (rc, w') \<and>
      heap w' 0 = Some [0, 0, 0] \<and> heap w' 1 = Some [9, 9, 9, 9] \<and> heap w' 5 = None"
    using leaf by (auto simp: leaf_world_def example_world_def)
  show ?thesis using at_root at_leaf by (simp add: MAXSIZE_def leaf_world_def example_world_def)
qed

text \<open>
  The claim as the specification states it fails: at the root of \<open>example_world\<close>, a reduce
  that is given the buffer at address 1, holding \<open>[9, 9, 9, 9]\<close>, both as \<^verbatim>\<open>send_data\<close> and as
  \<^verbatim>\<open>recv_data\<close> leaves \<open>[15, 15, 15, 9]\<close> in it: \<^verbatim>\<open>send_data\<close> has been modified.
\<close>

theorem Reduce_overwrites_aliased_send_data_counterexample:
  "world_rank example_world = 0 \<and> heap example_world 1 = Some [9, 9, 9, 9] \<and>
   map_option (\<lambda>(rc, w'). (rc, heap w' 1)) (MIMPI_Reduce example_world 1 1 3 MIMPI_SUM 0) =
     Some (MIMPI_SUCCESS, Some [15, 15, 15, 9])"
  by (simp add: MIMPI_Reduce_def malloc_def heap_memcpy_def memcpy_def free_def
        communication_loop_def communication_loop_init_def get_power_def recv_loop.simps
        send_loop.simps p2p_Recv_def p2p_Send_def log_call_def helper_def example_outcomes_def
        Recv_copy_out_def handle_reduce_operation_def reduce_loop.simps
        tag_defs MIMPI_DEFAULT_COUNT_def Let_def)

subsection \<open>What a receive does to the caller's buffer\<close>

text \<open>
  Whenever \<^verbatim>\<open>MIMPI_Recv\<close> returns, at once or after it was parked, it has left the caller's
  buffer alone unless it returns success for a tag other than \<^verbatim>\<open>MIMPI_NO_MESSAGE_TAG\<close>, and
  then the buffer is \<^const>\<open>Recv_copy_out\<close> of a payload of \<^verbatim>\<open>count\<close> bytes.  This is the
  receive the collectives are stated over (\<^const>\<open>p2p_Recv\<close>).
\<close>

lemma Recv_finish_buffer:
  assumes "Recv_finish st buf cnt src tg to_receive = Returns rc st' buf'"
  shows "rc = MIMPI_SUCCESS \<and>
         (if tg = MIMPI_NO_MESSAGE_TAG then buf' = buf
          else \<exists>r. to_receive = Some r \<and> buf' = Recv_copy_out r cnt tg buf)"
  using assms
  by (auto simp: Recv_finish_def tag_defs split: option.splits if_splits)

lemma copy_payload_length: "copy_payload m cnt = Some r \<Longrightarrow> length r = nat cnt"
  by (auto simp: copy_payload_def split: option.splits if_splits)

lemma Recv_wait_buffer:
  assumes "Recv_wait st buf cnt src tg = Returns rc st' buf'"
  shows "if rc = MIMPI_SUCCESS \<and> tg \<noteq> MIMPI_NO_MESSAGE_TAG
         then \<exists>r. length r = nat cnt \<and> buf' = Recv_copy_out r cnt tg buf
         else buf' = buf"
  using assms
  by (auto simp: Recv_wait_def Recv_wake_def Let_def
           dest!: Recv_finish_buffer copy_payload_length
           split: if_splits msg_list.splits option.splits)

lemma MIMPI_Recv_buffer:
  assumes "MIMPI_Recv st buf cnt src tg = Returns rc st' buf'"
  shows "if rc = MIMPI_SUCCESS \<and> tg \<noteq> MIMPI_NO_MESSAGE_TAG
         then \<exists>r. length r = nat cnt \<and> buf' = Recv_copy_out r cnt tg buf
         else buf' = buf"
  using assms
  by (auto simp: MIMPI_Recv_def Let_def
           dest!: Recv_finish_buffer copy_payload_length Recv_wait_buffer
           split: if_splits msg_list.splits option.splits prod.splits)

subsection \<open>Frames\<close>

lemma length_int_bytes [simp]: "length (int_bytes x) = 4"
  by (simp add: int_bytes_def Let_def)

lemma word32_of_bytes:
  "(ucast (ucast w :: u8) OR push_bit 8 (ucast (ucast (drop_bit 8 w) :: u8))
     OR push_bit 16 (ucast (ucast (drop_bit 16 w) :: u8))
     OR push_bit 24 (ucast (ucast (drop_bit 24 w) :: u8))) = w" for w :: "32 word"
proof (rule bit_word_eqI)
  fix n assume n: "n < LENGTH(32)"
  consider "n < 8" | "8 \<le> n" "n < 16" | "16 \<le> n" "n < 24" | "24 \<le> n" "n < 32"
    using n by fastforce
  then show "bit ((ucast (ucast w :: u8) OR push_bit 8 (ucast (ucast (drop_bit 8 w) :: u8))
     OR push_bit 16 (ucast (ucast (drop_bit 16 w) :: u8))
     OR push_bit 24 (ucast (ucast (drop_bit 24 w) :: u8))) :: 32 word) n = bit w n"
    by cases (auto simp: bit_simps)
qed

lemma bytes_int_int_bytes:
  assumes "- (2 ^ 31) \<le> x" "x < 2 ^ 31"
  shows "bytes_int (int_bytes x) = x"
proof -
  have "bytes_int (int_bytes x) = sint (word_of_int x :: 32 word)"
    by (simp add: bytes_int_def int_bytes_def Let_def word32_of_bytes)
  also have "\<dots> = signed_take_bit 31 x" by (simp add: sint_sbintrunc')
  also have "\<dots> = x" by (rule signed_take_bit_int_eq_self) (use assms in simp_all)
  finally show ?thesis .
qed

lemma bytes_int_prefix:
  "bytes_int (take 4 (int_bytes x @ ys)) = bytes_int (int_bytes x)"
  by simp

lemma read_header:
  assumes "c_int cnt" "c_int tg"
  shows "read_from_channel (int_bytes cnt @ int_bytes tg @ rest) (nat METADATA_SIZE)
         = ((False, int_bytes cnt @ int_bytes tg), rest)"
  by (simp add: read_from_channel_def METADATA_SIZE_def)

lemma read_frame_roundtrip:
  assumes "c_int cnt" "c_int tg" "payload_bearing tg \<longrightarrow> 0 \<le> cnt \<and> length payload = nat cnt"
    "\<not> payload_bearing tg \<longrightarrow> payload = []"
  shows "read_frame (int_bytes cnt @ int_bytes tg @ payload @ rest)
         = Frame cnt tg (if payload_bearing tg then Some payload else None) rest"
proof -
  have c: "bytes_int (int_bytes cnt) = cnt" and t: "bytes_int (int_bytes tg) = tg"
    using assms(1,2) by (simp_all add: c_int_def bytes_int_int_bytes)
  have hdr: "read_from_channel (int_bytes cnt @ int_bytes tg @ payload @ rest) (nat METADATA_SIZE)
         = ((False, int_bytes cnt @ int_bytes tg), payload @ rest)"
    by (rule read_header[OF assms(1,2)])
  show ?thesis
  proof (cases "payload_bearing tg")
    case True
    then have "0 \<le> cnt" "length payload = nat cnt" using assms(3) by simp_all
    then show ?thesis using True c t
      by (subst read_frame_def, subst hdr)
         (simp add: payload_bearing_def read_from_channel_def)
  next
    case False
    then have "payload = []" using assms(4) by simp
    then show ?thesis using False c t
      by (subst read_frame_def, subst hdr) (auto simp: payload_bearing_def)
  qed
qed

lemma Send_bookkeeping_wire:
  "Send_bookkeeping st cnt destination tg = Some st1 \<Longrightarrow>
   wire st1 = wire st \<and> channel_open st1 = channel_open st"
  by (auto simp: Send_bookkeeping_def Let_def push_front_def
           split: msg_list.splits list.splits if_splits Option.bind_splits)

lemma Send_bookkeeping_defined:
  "MIMPI_others_recv st destination = Elems ws \<Longrightarrow> MIMPI_send_not_received st = Elems s \<Longrightarrow>
   \<exists>st1. Send_bookkeeping st cnt destination tg = Some st1"
  by (simp add: Send_bookkeeping_def Let_def push_front_def)

text \<open>
  Claim C7.  For a valid destination, \<^verbatim>\<open>MIMPI_Send\<close> writes to the channel, when the channel
  accepts the write, exactly one frame: an 8-byte header holding \<^verbatim>\<open>count\<close> as a 4-byte integer
  followed by \<^verbatim>\<open>tag\<close> as a 4-byte integer, followed by exactly \<^verbatim>\<open>count\<close> payload bytes iff
  the tag is payload-bearing; frames with tag \<^verbatim>\<open>MIMPI_NO_MESSAGE_TAG\<close> (-2) or
  \<^verbatim>\<open>MIMPI_DEADLOCK_TAG\<close> (-4) carry the header only.  The reader decodes the frame under the
  same layout: it gets back \<^verbatim>\<open>count\<close> and \<^verbatim>\<open>tag\<close>, reads a body of \<^verbatim>\<open>count\<close> bytes exactly
  when the tag is neither of the two, and is left with the bytes after the frame.
\<close>

theorem Send_frame_layout:
  assumes "0 \<le> destination" "destination < MIMPI_World_size st"
    "destination \<noteq> MIMPI_World_rank st"
    and "c_int cnt" "c_int tg"
    and "payload_bearing tg \<longrightarrow> (\<exists>d. dat = Some d \<and> 0 \<le> cnt \<and> nat cnt \<le> length d)"
    and "MIMPI_deadlock_enabled st \<and> MIMPI_ANY_TAG \<le> tg \<longrightarrow>
           (\<exists>ws s. MIMPI_others_recv st destination = Elems ws \<and> MIMPI_send_not_received st = Elems s)"
  shows "\<exists>st' payload.
     payload = (if payload_bearing tg then take (nat cnt) (the dat) else []) \<and>
     MIMPI_Send st dat cnt destination tg =
       Some (if channel_open st destination then MIMPI_SUCCESS else MIMPI_ERROR_REMOTE_FINISHED, st') \<and>
     wire st' destination =
       (if channel_open st destination
        then wire st destination @ int_bytes cnt @ int_bytes tg @ payload
        else wire st destination) \<and>
     (\<forall>p. p \<noteq> destination \<longrightarrow> wire st' p = wire st p) \<and>
     length (int_bytes cnt @ int_bytes tg) = nat METADATA_SIZE \<and>
     bytes_int (int_bytes cnt) = cnt \<and> bytes_int (int_bytes tg) = tg \<and>
     (payload_bearing tg \<longrightarrow> length payload = nat cnt) \<and>
     (\<forall>rest. read_frame (int_bytes cnt @ int_bytes tg @ payload @ rest) =
        Frame cnt tg (if payload_bearing tg then Some payload else None) rest)"
proof -
  define payload where "payload = (if payload_bearing tg then take (nat cnt) (the dat) else [])"
  have fr: "frame dat cnt tg = Some (int_bytes cnt @ int_bytes tg @ payload)"
    using assms(6) by (auto simp: frame_def payload_def payload_bearing_def)
  obtain st1 where bk: "(if MIMPI_deadlock_enabled st \<and> tg \<ge> MIMPI_ANY_TAG
           then Send_bookkeeping st cnt destination tg else Some st) = Some st1"
  proof (cases "MIMPI_deadlock_enabled st \<and> tg \<ge> MIMPI_ANY_TAG")
    case True
    with assms(7) obtain ws s where "MIMPI_others_recv st destination = Elems ws"
      "MIMPI_send_not_received st = Elems s" by blast
    from Send_bookkeeping_defined[OF this, of cnt tg] True that show ?thesis by auto
  next
    case False
    with that show ?thesis by auto
  qed
  have w1: "wire st1 = wire st" "channel_open st1 = channel_open st"
    using bk Send_bookkeeping_wire[of st cnt destination tg st1] by (auto split: if_splits)
  define st' where "st' = snd (write_to_channel st1 destination (int_bytes cnt @ int_bytes tg @ payload))"
  have send: "MIMPI_Send st dat cnt destination tg =
       Some (if channel_open st destination then MIMPI_SUCCESS else MIMPI_ERROR_REMOTE_FINISHED, st')"
    using assms(1-3) bk fr w1 by (simp add: MIMPI_Send_def st'_def write_to_channel_def)
  have wr: "wire st' destination =
       (if channel_open st destination
        then wire st destination @ int_bytes cnt @ int_bytes tg @ payload
        else wire st destination)"
    and oth: "\<forall>p. p \<noteq> destination \<longrightarrow> wire st' p = wire st p"
    using w1 by (simp_all add: st'_def write_to_channel_def)
  have len: "payload_bearing tg \<longrightarrow> length payload = nat cnt \<and> 0 \<le> cnt"
    using assms(6) by (auto simp: payload_def)
  have npl: "\<not> payload_bearing tg \<longrightarrow> payload = []" by (simp add: payload_def)
  have rt: "\<forall>rest. read_frame (int_bytes cnt @ int_bytes tg @ payload @ rest) =
        Frame cnt tg (if payload_bearing tg then Some payload else None) rest"
    using read_frame_roundtrip[OF assms(4,5), of payload] len npl by simp
  have ci: "bytes_int (int_bytes cnt) = cnt" "bytes_int (int_bytes tg) = tg"
    using assms(4,5) by (simp_all add: c_int_def bytes_int_int_bytes)
  show ?thesis
    using send wr oth len rt ci payload_def by (simp add: METADATA_SIZE_def)
qed

theorem Send_frame_layout_witness:
  "(0::int) \<le> 1 \<and> 1 < MIMPI_World_size (MIMPI_Init 2 0 False) \<and>
   1 \<noteq> MIMPI_World_rank (MIMPI_Init 2 0 False) \<and> c_int 3 \<and> c_int 0 \<and> payload_bearing 0 \<and>
   (\<exists>st'. MIMPI_Send (MIMPI_Init 2 0 False) (Some [1, 2, 3]) 3 1 0 = Some (MIMPI_SUCCESS, st') \<and>
          wire st' 1 = [3, 0, 0, 0, 0, 0, 0, 0, 1, 2, 3] \<and>
          read_frame (wire st' 1) = Frame 3 0 (Some [1, 2, 3]) [])"
proof -
  have h: "(0::int) \<le> 1" "1 < MIMPI_World_size (MIMPI_Init 2 0 False)"
    "1 \<noteq> MIMPI_World_rank (MIMPI_Init 2 0 False)" "c_int 3" "c_int 0"
    "payload_bearing 0 \<longrightarrow> (\<exists>d. Some [1, 2, 3 :: u8] = Some d \<and> 0 \<le> (3::int) \<and> nat 3 \<le> length d)"
    "MIMPI_deadlock_enabled (MIMPI_Init 2 0 False) \<and> MIMPI_ANY_TAG \<le> (0::int) \<longrightarrow>
       (\<exists>ws s. MIMPI_others_recv (MIMPI_Init 2 0 False) 1 = Elems ws \<and>
               MIMPI_send_not_received (MIMPI_Init 2 0 False) = Elems s)"
    by (simp_all add: MIMPI_Init_def c_int_def)
  have pb: "payload_bearing 0" by (simp add: payload_bearing_def tag_defs)
  have ib: "int_bytes 3 = [3, 0, 0, 0]" "int_bytes 0 = [0, 0, 0, 0]" by (simp_all add: int_bytes_def)
  from Send_frame_layout[OF h] pb
  obtain st' where s: "MIMPI_Send (MIMPI_Init 2 0 False) (Some [1, 2, 3]) 3 1 0 =
       Some (if channel_open (MIMPI_Init 2 0 False) 1 then MIMPI_SUCCESS
             else MIMPI_ERROR_REMOTE_FINISHED, st')"
    and w: "wire st' 1 =
       (if channel_open (MIMPI_Init 2 0 False) 1
        then wire (MIMPI_Init 2 0 False) 1 @ int_bytes 3 @ int_bytes 0 @ take (nat 3) [1, 2, 3]
        else wire (MIMPI_Init 2 0 False) 1)"
    and r: "\<forall>rest. read_frame (int_bytes 3 @ int_bytes 0 @ take (nat 3) [1, 2, 3] @ rest) =
        Frame 3 0 (Some (take (nat 3) [1, 2, 3])) rest"
    by auto
  have "MIMPI_Send (MIMPI_Init 2 0 False) (Some [1, 2, 3]) 3 1 0 = Some (MIMPI_SUCCESS, st')"
    using s by (simp add: MIMPI_Init_def)
  moreover have w': "wire st' 1 = [3, 0, 0, 0, 0, 0, 0, 0, 1, 2, 3]"
    using w by (simp add: MIMPI_Init_def ib)
  moreover have "read_frame (wire st' 1) = Frame 3 0 (Some [1, 2, 3]) []"
    using r[rule_format, of "[]"] unfolding w' by (simp add: ib)
  ultimately show ?thesis using h pb by simp
qed

subsection \<open>Rank checks\<close>

text \<open>
  Claim C6.  \<^verbatim>\<open>MIMPI_Send\<close> (resp. \<^verbatim>\<open>MIMPI_Recv\<close>) returns no-such-rank when the destination
  (resp. source) is outside \<open>[0, W)\<close>, and otherwise self-op when it is the caller's own
  rank; in both cases the state, the channels and the caller's buffer are unchanged.
  \<^verbatim>\<open>MIMPI_Bcast\<close> and \<^verbatim>\<open>MIMPI_Reduce\<close> return no-such-rank when the root is outside
  \<open>[0, W)\<close>, without a point-to-point call.
\<close>

theorem rank_checks_come_first:
  "(destination < 0 \<or> MIMPI_World_size st \<le> destination \<longrightarrow>
      MIMPI_Send st dat cnt destination tg = Some (MIMPI_ERROR_NO_SUCH_RANK, st)) \<and>
   (0 \<le> destination \<and> destination < MIMPI_World_size st \<and> destination = MIMPI_World_rank st \<longrightarrow>
      MIMPI_Send st dat cnt destination tg = Some (MIMPI_ERROR_ATTEMPTED_SELF_OP, st)) \<and>
   (src < 0 \<or> MIMPI_World_size st \<le> src \<longrightarrow>
      MIMPI_Recv st buf cnt src tg = Returns MIMPI_ERROR_NO_SUCH_RANK st buf) \<and>
   (0 \<le> src \<and> src < MIMPI_World_size st \<and> src = MIMPI_World_rank st \<longrightarrow>
      MIMPI_Recv st buf cnt src tg = Returns MIMPI_ERROR_ATTEMPTED_SELF_OP st buf) \<and>
   (root < 0 \<or> world_size w \<le> root \<longrightarrow>
      MIMPI_Bcast w ptr cnt root = Some (MIMPI_ERROR_NO_SUCH_RANK, w) \<and>
      MIMPI_Reduce w send_data recv_data cnt op root = Some (MIMPI_ERROR_NO_SUCH_RANK, w))"
  by (auto simp: MIMPI_Send_def MIMPI_Recv_def MIMPI_Bcast_def MIMPI_Reduce_def)

theorem rank_checks_come_first_witness:
  "MIMPI_Send (MIMPI_Init 4 1 False) (Some [1, 2, 3]) 3 7 0
     = Some (MIMPI_ERROR_NO_SUCH_RANK, MIMPI_Init 4 1 False) \<and>
   MIMPI_Send (MIMPI_Init 4 1 False) (Some [1, 2, 3]) 3 1 0
     = Some (MIMPI_ERROR_ATTEMPTED_SELF_OP, MIMPI_Init 4 1 False) \<and>
   MIMPI_Recv (MIMPI_Init 4 1 False) [0, 0, 0] 3 (- 1) 0
     = Returns MIMPI_ERROR_NO_SUCH_RANK (MIMPI_Init 4 1 False) [0, 0, 0] \<and>
   MIMPI_Recv (MIMPI_Init 4 1 False) [0, 0, 0] 3 1 0
     = Returns MIMPI_ERROR_ATTEMPTED_SELF_OP (MIMPI_Init 4 1 False) [0, 0, 0] \<and>
   MIMPI_Bcast example_world (Some 1) 3 4 = Some (MIMPI_ERROR_NO_SUCH_RANK, example_world) \<and>
   MIMPI_Reduce example_world 0 1 3 MIMPI_SUM (- 1) = Some (MIMPI_ERROR_NO_SUCH_RANK, example_world)"
  using rank_checks_come_first[of 7 "MIMPI_Init 4 1 False" "Some [1, 2, 3]" 3 0 "- 1" "[0, 0, 0]"
          4 example_world "Some 1" 0 1 MIMPI_SUM]
    rank_checks_come_first[of 1 "MIMPI_Init 4 1 False" "Some [1, 2, 3]" 3 0 1 "[0, 0, 0]"
          "- 1" example_world "Some 1" 0 1 MIMPI_SUM]
  by (simp add: MIMPI_Init_def)

subsection \<open>Receiving from a peer that has left\<close>

lemma int_bytes_values:
  "int_bytes 8 = [8, 0, 0, 0]" "int_bytes 4 = [4, 0, 0, 0]" "int_bytes 5 = [5, 0, 0, 0]"
  by (simp_all add: int_bytes_def)

lemma int_bytes_negative_values:
  "int_bytes (- 1) = [255, 255, 255, 255]" "int_bytes (- 5) = [251, 255, 255, 255]"
  "int_bytes (- 6) = [250, 255, 255, 255]"
  by code_simp+

lemma bytes_int_values:
  "bytes_int [8, 0, 0, 0] = 8" "bytes_int [4, 0, 0, 0] = 4"
  "bytes_int [255, 255, 255, 255] = - 1" "bytes_int [251, 255, 255, 255] = - 5"
  "bytes_int [250, 255, 255, 255] = - 6"
  by (simp_all add: bytes_int_def)

lemma stale_scenario_reaches: "stale_scenario = Some stale_state"
  unfolding stale_scenario_def stale_state_def
  by (simp add: handle_channel_iteration_def read_frame_def read_from_channel_def
        handle_message_def MIMPI_Init_def MIMPI_Send_def Send_bookkeeping_def frame_def
        write_to_channel_def push_front_def create_list_def create_message_def
        remove_from_list_def compare_message_def MIMPI_DEFAULT_MSG_def
        METADATA_SIZE_def tag_defs int_bytes_values int_bytes_negative_values bytes_int_values Let_def
        MIMPI_DEFAULT_COUNT_def MIMPI_DEFAULT_SOURCE_def)

lemma closed_peer_state_reached:
  "handle_channel_iteration (MIMPI_Init 2 0 False) 1 (int_bytes 4 @ int_bytes 0 @ [1, 2, 3, 4])
     = Some ((MIMPI_Init 2 0 False)
               \<lparr>MIMPI_received_messages :=
                  (MIMPI_received_messages (MIMPI_Init 2 0 False))(1 := Elems [queued_message])\<rparr>,
             Some [])"
  "handle_channel_iteration
     ((MIMPI_Init 2 0 False)
        \<lparr>MIMPI_received_messages :=
           (MIMPI_received_messages (MIMPI_Init 2 0 False))(1 := Elems [queued_message])\<rparr>) 1 []
     = Some (closed_peer_state, None)"
  by (simp_all add: handle_channel_iteration_def read_frame_def read_from_channel_def
        handle_message_def MIMPI_Init_def push_front_def create_list_def create_message_def
        compare_message_def MIMPI_DEFAULT_MSG_def queued_message_def closed_peer_state_def
        METADATA_SIZE_def tag_defs int_bytes_def bytes_int_def Let_def
        MIMPI_DEFAULT_COUNT_def MIMPI_DEFAULT_SOURCE_def)

lemma inner_Send_metadata:
  assumes "0 \<le> src" "src < MIMPI_World_size st" "src \<noteq> MIMPI_World_rank st"
    and "tg' < MIMPI_ANY_TAG" "payload_bearing tg'"
  shows "\<exists>st'. MIMPI_Send st (Some (int_bytes cnt @ int_bytes tg)) METADATA_SIZE src tg' =
           Some (if channel_open st src then MIMPI_SUCCESS else MIMPI_ERROR_REMOTE_FINISHED, st') \<and>
         MIMPI_received_messages st' = MIMPI_received_messages st \<and>
         MIMPI_others_recv st' = MIMPI_others_recv st \<and>
         MIMPI_waiting st' = MIMPI_waiting st \<and>
         MIMPI_already_left st' = MIMPI_already_left st \<and>
         MIMPI_deadlock_enabled st' = MIMPI_deadlock_enabled st"
  using assms
  by (simp add: MIMPI_Send_def frame_def write_to_channel_def METADATA_SIZE_def payload_bearing_def)

lemma inner_Send_deadlock:
  assumes "0 \<le> src" "src < MIMPI_World_size st" "src \<noteq> MIMPI_World_rank st"
  shows "\<exists>rc st'. MIMPI_Send st None MIMPI_DEFAULT_COUNT src MIMPI_DEADLOCK_TAG = Some (rc, st') \<and>
         MIMPI_received_messages st' = MIMPI_received_messages st"
  using assms
  by (simp add: MIMPI_Send_def frame_def write_to_channel_def tag_defs)

lemma Recv_finish_returns:
  assumes "0 \<le> src" "src < MIMPI_World_size st" "src \<noteq> MIMPI_World_rank st"
    and "tg \<noteq> MIMPI_NO_MESSAGE_TAG \<longrightarrow> to_receive = Some r \<and> 0 \<le> cnt \<and> nat cnt \<le> length buf"
  shows "\<exists>st'. Recv_finish st buf cnt src tg to_receive =
           Returns MIMPI_SUCCESS st'
             (if tg \<noteq> MIMPI_NO_MESSAGE_TAG then Recv_copy_out r cnt tg buf else buf) \<and>
         MIMPI_received_messages st' = MIMPI_received_messages st"
proof -
  have pb: "payload_bearing MIMPI_RECEIVED_TAG" "MIMPI_RECEIVED_TAG < MIMPI_ANY_TAG"
    by (simp_all add: payload_bearing_def tag_defs)
  from inner_Send_metadata[OF assms(1-3) pb(2,1), of cnt tg]
  obtain st1 where s: "MIMPI_Send st (Some (int_bytes cnt @ int_bytes tg)) METADATA_SIZE src
        MIMPI_RECEIVED_TAG =
        Some (if channel_open st src then MIMPI_SUCCESS else MIMPI_ERROR_REMOTE_FINISHED, st1)"
    and q: "MIMPI_received_messages st1 = MIMPI_received_messages st"
    by blast
  have nm: "tg \<le> MIMPI_MAX_TAG \<Longrightarrow> tg \<noteq> MIMPI_NO_MESSAGE_TAG" by (simp add: tag_defs)
  show ?thesis
  proof (cases "MIMPI_deadlock_enabled st \<and> tg \<ge> MIMPI_ANY_TAG")
    case True
    then show ?thesis using s q assms(4) nm
      by (cases "tg = MIMPI_NO_MESSAGE_TAG") (auto simp: Recv_finish_def)
  next
    case False
    then show ?thesis using assms(4) nm
      by (cases "tg = MIMPI_NO_MESSAGE_TAG") (auto simp: Recv_finish_def)
  qed
qed

text \<open>
  What a receive from a peer \<open>p\<close> that has left does while the list of notifications of \<open>p\<close>
  is intact (and the tag is not \<^verbatim>\<open>MIMPI_DEADLOCK_TAG\<close>).  The call returns without blocking.
  If the queue of \<open>p\<close> holds a message matching the filter, the call removes the first such
  message and returns success.  Otherwise it consumes nothing and returns remote-finished,
  unless deadlock detection is on, the tag is a user tag (\<^verbatim>\<open>tag >= MIMPI_ANY_TAG\<close>) and a
  notification with a user tag is the first one recorded from \<open>p\<close>: the test of that
  notification comes before the test of \<^verbatim>\<open>MIMPI_already_left[p]\<close>, and the call returns
  deadlock-detected.
\<close>

lemma Recv_closed_peer_cases:
  assumes "0 \<le> src" "src < MIMPI_World_size st" "src \<noteq> MIMPI_World_rank st"
    and "MIMPI_already_left st src"
    and "MIMPI_received_messages st src = Elems q"
    and "tg \<noteq> MIMPI_DEADLOCK_TAG"
    and "MIMPI_deadlock_enabled st \<and> MIMPI_ANY_TAG \<le> tg \<longrightarrow> MIMPI_others_recv st src = Elems ws"
    and "tg \<noteq> MIMPI_NO_MESSAGE_TAG \<longrightarrow>
           0 \<le> cnt \<and> nat cnt \<le> length buf \<and>
           (\<forall>m \<in> set q. compare_message m (create_message tg cnt src (Some buf)) \<longrightarrow>
              (\<exists>d. data m = Some d \<and> nat cnt \<le> length d))"
  shows "\<exists>rc st' buf'. MIMPI_Recv st buf cnt src tg = Returns rc st' buf' \<and>
     (if find_elem_in_list q (create_message tg cnt src (Some buf)) < length q
      then rc = MIMPI_SUCCESS \<and>
           compare_message (q ! find_elem_in_list q (create_message tg cnt src (Some buf)))
             (create_message tg cnt src (Some buf)) \<and>
           MIMPI_received_messages st' src =
             Elems (take (find_elem_in_list q (create_message tg cnt src (Some buf))) q
                    @ drop (Suc (find_elem_in_list q (create_message tg cnt src (Some buf)))) q) \<and>
           buf' = (if tg \<noteq> MIMPI_NO_MESSAGE_TAG
                   then Recv_copy_out
                          (take (nat cnt)
                             (the (data (q ! find_elem_in_list q (create_message tg cnt src (Some buf))))))
                          cnt tg buf
                   else buf)
      else buf' = buf \<and> MIMPI_received_messages st' src = Elems q \<and>
           (if MIMPI_deadlock_enabled st \<and> MIMPI_ANY_TAG \<le> tg \<and> ws \<noteq> [] \<and>
               MIMPI_ANY_TAG \<le> tag (hd ws)
            then rc = MIMPI_ERROR_DEADLOCK_DETECTED
            else rc = MIMPI_ERROR_REMOTE_FINISHED))"
proof -
  let ?flt = "create_message tg cnt src (Some buf)"
  let ?i = "find_elem_in_list q ?flt"
  have le: "?i \<le> length q" by (rule find_elem_in_list_le)
  show ?thesis
  proof (cases "?i < length q")
    case True
    then have ne: "?i \<noteq> length q" by simp
    have m: "compare_message (q ! ?i) ?flt" using True by (rule find_elem_in_list_match)
    let ?st1 = "st\<lparr>MIMPI_received_messages :=
                   (MIMPI_received_messages st)(src := remove_from_list q ?i)\<rparr>"
    have q1: "MIMPI_received_messages ?st1 src = Elems (take ?i q @ drop (Suc ?i) q)"
      using True by (simp add: remove_from_list_def)
    have v1: "0 \<le> src" "src < MIMPI_World_size ?st1" "src \<noteq> MIMPI_World_rank ?st1"
      using assms(1-3) by simp_all
    show ?thesis
    proof (cases "tg = MIMPI_NO_MESSAGE_TAG")
      case nm: True
      from Recv_finish_returns[OF v1, of tg None undefined cnt buf] nm
      obtain st' where f: "Recv_finish ?st1 buf cnt src tg None = Returns MIMPI_SUCCESS st' buf"
        and q': "MIMPI_received_messages st' = MIMPI_received_messages ?st1" by auto
      have "MIMPI_Recv st buf cnt src tg = Returns MIMPI_SUCCESS st' buf"
        using assms(1-3,5) ne nm f by (simp add: MIMPI_Recv_def Let_def)
      then show ?thesis using True m q' q1 nm by simp
    next
      case pl: False
      from assms(8) pl True m obtain d where d: "data (q ! ?i) = Some d" "nat cnt \<le> length d"
        and c: "0 \<le> cnt" "nat cnt \<le> length buf"
        by (metis nth_mem)
      have cp: "copy_payload (q ! ?i) cnt = Some (take (nat cnt) d)"
        using d c by (simp add: copy_payload_def)
      from Recv_finish_returns[OF v1, of tg "Some (take (nat cnt) d)" "take (nat cnt) d" cnt buf] pl c
      obtain st' where f: "Recv_finish ?st1 buf cnt src tg (Some (take (nat cnt) d)) =
             Returns MIMPI_SUCCESS st' (Recv_copy_out (take (nat cnt) d) cnt tg buf)"
        and q': "MIMPI_received_messages st' = MIMPI_received_messages ?st1" by auto
      have "MIMPI_Recv st buf cnt src tg =
              Returns MIMPI_SUCCESS st' (Recv_copy_out (take (nat cnt) d) cnt tg buf)"
        using assms(1-3,5,6) ne pl cp f by (simp add: MIMPI_Recv_def Let_def)
      then show ?thesis using True m q' q1 pl d by simp
    qed
  next
    case False
    then have eq: "?i = length q" using le by simp
    let ?st1 = "st\<lparr>MIMPI_waiting :=
                   \<lparr>tag = tg, count = cnt, source = src, data = None, received = False\<rparr>\<rparr>"
    have wake: "\<And>s. MIMPI_already_left s src \<Longrightarrow> \<not> received (MIMPI_waiting s) \<Longrightarrow>
        tag (MIMPI_waiting s) = tg \<Longrightarrow>
        Recv_wait s buf cnt src tg =
          Returns MIMPI_ERROR_REMOTE_FINISHED (s\<lparr>MIMPI_waiting := MIMPI_DEFAULT_MSG\<rparr>) buf"
      using assms(6) by (simp add: Recv_wait_def Recv_wake_def)
    show ?thesis
    proof (cases "MIMPI_deadlock_enabled st \<and> MIMPI_ANY_TAG \<le> tg")
      case nodl: False
      have "MIMPI_Recv st buf cnt src tg =
              Returns MIMPI_ERROR_REMOTE_FINISHED (?st1\<lparr>MIMPI_waiting := MIMPI_DEFAULT_MSG\<rparr>) buf"
        using assms(1-5) eq nodl wake[of ?st1] by (auto simp: MIMPI_Recv_def Let_def)
      then show ?thesis using False nodl assms(5) by auto
    next
      case dl: True
      then have ws: "MIMPI_others_recv st src = Elems ws" using assms(7) by simp
      show ?thesis
      proof (cases "ws \<noteq> [] \<and> MIMPI_ANY_TAG \<le> tag (hd ws)")
        case stale: True
        let ?st2 = "?st1\<lparr>MIMPI_waiting := MIMPI_DEFAULT_MSG,
                       MIMPI_others_recv := (MIMPI_others_recv ?st1)(src := remove_from_list ws 0)\<rparr>"
        have v2: "0 \<le> src" "src < MIMPI_World_size ?st2" "src \<noteq> MIMPI_World_rank ?st2"
          using assms(1-3) by simp_all
        from inner_Send_deadlock[OF v2] obtain rc2 st3 where
          s: "MIMPI_Send ?st2 None MIMPI_DEFAULT_COUNT src MIMPI_DEADLOCK_TAG = Some (rc2, st3)"
          and q3: "MIMPI_received_messages st3 = MIMPI_received_messages ?st2" by blast
        have "MIMPI_Recv st buf cnt src tg = Returns MIMPI_ERROR_DEADLOCK_DETECTED st3 buf"
          using assms(1-3,5) eq dl ws stale s by (simp add: MIMPI_Recv_def Let_def)
        then show ?thesis using False dl stale q3 assms(5) by simp
      next
        case fresh: False
        have v1: "0 \<le> src" "src < MIMPI_World_size ?st1" "src \<noteq> MIMPI_World_rank ?st1"
          using assms(1-3) by simp_all
        have pb: "payload_bearing MIMPI_WAITING_TAG" "MIMPI_WAITING_TAG < MIMPI_ANY_TAG"
          by (simp_all add: payload_bearing_def tag_defs)
        from inner_Send_metadata[OF v1 pb(2,1), of cnt tg]
        obtain st2 where s: "MIMPI_Send ?st1 (Some (int_bytes cnt @ int_bytes tg)) METADATA_SIZE src
              MIMPI_WAITING_TAG =
              Some (if channel_open ?st1 src then MIMPI_SUCCESS else MIMPI_ERROR_REMOTE_FINISHED, st2)"
          and f2: "MIMPI_received_messages st2 = MIMPI_received_messages ?st1"
            "MIMPI_others_recv st2 = MIMPI_others_recv ?st1"
            "MIMPI_waiting st2 = MIMPI_waiting ?st1"
            "MIMPI_already_left st2 = MIMPI_already_left ?st1"
          by blast
        show ?thesis
        proof (cases "channel_open st src")
          case True
          have w2: "Recv_wait st2 buf cnt src tg =
              Returns MIMPI_ERROR_REMOTE_FINISHED (st2\<lparr>MIMPI_waiting := MIMPI_DEFAULT_MSG\<rparr>) buf"
            using f2 assms(4) by (intro wake) simp_all
          have "MIMPI_Recv st buf cnt src tg =
              Returns MIMPI_ERROR_REMOTE_FINISHED (st2\<lparr>MIMPI_waiting := MIMPI_DEFAULT_MSG\<rparr>) buf"
            using assms(1-3,5) eq dl ws fresh s True w2
            by (auto simp: MIMPI_Recv_def Let_def)
          then show ?thesis using False dl fresh f2 assms(5) by auto
        next
          case closed: False
          have "MIMPI_Recv st buf cnt src tg =
              Returns MIMPI_ERROR_REMOTE_FINISHED
                (st2\<lparr>MIMPI_waiting := MIMPI_DEFAULT_MSG,
                     MIMPI_others_recv := (MIMPI_others_recv st2)(src := remove_from_list ws 0)\<rparr>) buf"
            using assms(1-3,5) eq dl ws fresh s closed f2
            by (auto simp: MIMPI_Recv_def Let_def)
          then show ?thesis using False dl fresh f2 assms(5) by auto
        qed
      qed
    qed
  qed
qed

lemma Recv_closed_peer_example:
  "(0::int) \<le> 1 \<and> 1 < MIMPI_World_size closed_peer_state \<and>
   1 \<noteq> MIMPI_World_rank closed_peer_state \<and> MIMPI_already_left closed_peer_state 1 \<and>
   MIMPI_received_messages closed_peer_state 1 = Elems [queued_message] \<and>
   (\<exists>st'. MIMPI_Recv closed_peer_state [0, 0, 0, 0] 4 1 0 = Returns MIMPI_SUCCESS st' [1, 2, 3, 4] \<and>
          MIMPI_received_messages st' 1 = Elems [] \<and>
          MIMPI_already_left st' 1 \<and>
          recv_code (MIMPI_Recv st' [0, 0, 0, 0] 4 1 0) = Some MIMPI_ERROR_REMOTE_FINISHED)"
proof -
  have h: "(0::int) \<le> 1" "1 < MIMPI_World_size closed_peer_state"
    "1 \<noteq> MIMPI_World_rank closed_peer_state" "MIMPI_already_left closed_peer_state 1"
    "MIMPI_received_messages closed_peer_state 1 = Elems [queued_message]"
    "(0::int) \<noteq> MIMPI_DEADLOCK_TAG"
    "MIMPI_deadlock_enabled closed_peer_state \<and> MIMPI_ANY_TAG \<le> (0::int) \<longrightarrow>
       MIMPI_others_recv closed_peer_state 1 = Elems []"
    by (simp_all add: closed_peer_state_def MIMPI_Init_def tag_defs)
  have p: "(0::int) \<noteq> MIMPI_NO_MESSAGE_TAG \<longrightarrow>
           0 \<le> (4::int) \<and> nat 4 \<le> length [0, 0, 0, 0 :: u8] \<and>
           (\<forall>m \<in> set [queued_message].
              compare_message m (create_message 0 4 1 (Some [0, 0, 0, 0])) \<longrightarrow>
              (\<exists>d. data m = Some d \<and> nat 4 \<le> length d))"
    by (simp add: queued_message_def create_message_def)
  from Recv_closed_peer_cases[OF h p]
  obtain rc st' buf' where r: "MIMPI_Recv closed_peer_state [0, 0, 0, 0] 4 1 0 = Returns rc st' buf'"
    and rc: "rc = MIMPI_SUCCESS" and q: "MIMPI_received_messages st' 1 = Elems []"
    and b: "buf' = [1, 2, 3, 4]"
    by (auto simp: queued_message_def create_message_def compare_message_def tag_defs
          Recv_copy_out_def memcpy_def)
  have st': "st' = closed_peer_state\<lparr>MIMPI_received_messages :=
                 (MIMPI_received_messages closed_peer_state)(1 := Elems [])\<rparr>"
    using r
    by (simp add: MIMPI_Recv_def closed_peer_state_def MIMPI_Init_def queued_message_def
          create_message_def compare_message_def tag_defs copy_payload_def Recv_finish_def
          remove_from_list_def Let_def)
  have again: "recv_code (MIMPI_Recv st' [0, 0, 0, 0] 4 1 0) = Some MIMPI_ERROR_REMOTE_FINISHED"
    unfolding st'
    by (simp add: MIMPI_Recv_def closed_peer_state_def MIMPI_Init_def Recv_wait_def Recv_wake_def
          tag_defs Let_def)
  have al: "MIMPI_already_left st' 1" unfolding st' by (simp add: closed_peer_state_def)
  show ?thesis using h r rc q b again al by simp
qed

text \<open>
  Claim C3.  A receive naming a peer whose end of channel the reader has seen should return
  success with a queued matching message, or remote-finished.  The code does not, on two
  inputs.

  In \<open>stale_state\<close>, reached by the run \<open>stale_scenario\<close>, peer 1 has left and nothing is
  queued; a receive of four bytes with tag 0 from peer 1 returns deadlock-detected.  The
  notification of the earlier wait of peer 1 with \<^verbatim>\<open>MIMPI_ANY_TAG\<close> is still the head of
  \<^verbatim>\<open>MIMPI_others_recv[1]\<close>: \<^verbatim>\<open>MIMPI_Send\<close> removes a notification only when its tag equals
  the tag of the send, so the send with tag 5 that served that wait left it there.

  In \<open>gone_peer_state\<close> nothing is queued and no notification is recorded.  A first receive
  returns remote-finished, its WAITING notification having failed to be written; on that
  path \<^verbatim>\<open>MIMPI_Recv\<close> calls \<^verbatim>\<open>remove_from_list(MIMPI_others_recv[source]->tail->next)\<close> on
  the empty list, which frees its end sentinel.  The second receive reads
  \<^verbatim>\<open>MIMPI_others_recv[source]->tail->next->message\<close> through the null pointer the first one
  left in \<^verbatim>\<open>tail->next\<close>: it does not return.
\<close>

theorem Recv_from_closed_peer_diverges:
  "stale_scenario = Some stale_state \<and> MIMPI_already_left stale_state 1 \<and>
   MIMPI_received_messages stale_state 1 = Elems [] \<and>
   recv_code (MIMPI_Recv stale_state [0, 0, 0, 0] 4 1 0) = Some MIMPI_ERROR_DEADLOCK_DETECTED \<and>
   handle_channel_iteration
     ((MIMPI_Init 2 0 True)\<lparr>channel_open := (\<lambda>i. True)(1 := False)\<rparr>) 1 []
     = Some (gone_peer_state, None) \<and>
   MIMPI_already_left gone_peer_state 1 \<and>
   MIMPI_received_messages gone_peer_state 1 = Elems [] \<and>
   MIMPI_Recv gone_peer_state [0, 0, 0, 0] 4 1 0 =
     Returns MIMPI_ERROR_REMOTE_FINISHED after_failed_wait [0, 0, 0, 0] \<and>
   MIMPI_already_left after_failed_wait 1 \<and>
   MIMPI_received_messages after_failed_wait 1 = Elems [] \<and>
   MIMPI_Recv after_failed_wait [0, 0, 0, 0] 4 1 0 = Fault"
proof -
  have "recv_code (MIMPI_Recv stale_state [0, 0, 0, 0] 4 1 0) = Some MIMPI_ERROR_DEADLOCK_DETECTED"
    by (simp add: MIMPI_Recv_def stale_state_def MIMPI_Init_def create_list_def
          create_message_def tag_defs MIMPI_Send_def frame_def write_to_channel_def
          remove_from_list_def Let_def MIMPI_DEFAULT_COUNT_def)
  moreover have "MIMPI_already_left stale_state 1"
    "MIMPI_received_messages stale_state 1 = Elems []"
    by (simp_all add: stale_state_def MIMPI_Init_def create_list_def)
  moreover have "handle_channel_iteration
     ((MIMPI_Init 2 0 True)\<lparr>channel_open := (\<lambda>i. True)(1 := False)\<rparr>) 1 []
     = Some (gone_peer_state, None)"
    by (simp add: handle_channel_iteration_def read_frame_def read_from_channel_def
          gone_peer_state_def MIMPI_Init_def METADATA_SIZE_def)
  moreover have "MIMPI_already_left gone_peer_state 1"
    "MIMPI_received_messages gone_peer_state 1 = Elems []"
    "MIMPI_already_left after_failed_wait 1"
    "MIMPI_received_messages after_failed_wait 1 = Elems []"
    by (simp_all add: after_failed_wait_def gone_peer_state_def MIMPI_Init_def create_list_def)
  moreover have "MIMPI_Recv gone_peer_state [0, 0, 0, 0] 4 1 0 =
     Returns MIMPI_ERROR_REMOTE_FINISHED after_failed_wait [0, 0, 0, 0]"
    by (simp add: MIMPI_Recv_def after_failed_wait_def gone_peer_state_def MIMPI_Init_def
          create_list_def create_message_def tag_defs MIMPI_Send_def frame_def
          write_to_channel_def remove_from_list_def Let_def METADATA_SIZE_def
          MIMPI_DEFAULT_MSG_def)
  moreover have "MIMPI_Recv after_failed_wait [0, 0, 0, 0] 4 1 0 = Fault"
    by (simp add: MIMPI_Recv_def after_failed_wait_def gone_peer_state_def MIMPI_Init_def
          create_list_def create_message_def tag_defs Let_def)
  ultimately show ?thesis using stale_scenario_reaches by simp
qed

subsection \<open>Two processes waiting for each other\<close>

lemma Recv_parks:
  assumes "0 \<le> src" "src < MIMPI_World_size st" "src \<noteq> MIMPI_World_rank st"
    and "MIMPI_deadlock_enabled st" "MIMPI_ANY_TAG \<le> tg"
    and "MIMPI_received_messages st src = Elems q"
    and "find_elem_in_list q (create_message tg cnt src (Some buf)) = length q"
    and "MIMPI_others_recv st src = Elems ws" "ws = [] \<or> tag (hd ws) < MIMPI_ANY_TAG"
    and "channel_open st src" "\<not> MIMPI_already_left st src"
  shows "MIMPI_Recv st buf cnt src tg =
     Blocks (st\<lparr>MIMPI_waiting :=
                  \<lparr>tag = tg, count = cnt, source = src, data = None, received = False\<rparr>,
               wire := (wire st)(src := wire st src @ int_bytes METADATA_SIZE
                          @ int_bytes MIMPI_WAITING_TAG @ int_bytes cnt @ int_bytes tg)\<rparr>)"
  using assms
  by (auto simp: MIMPI_Recv_def MIMPI_Send_def frame_def write_to_channel_def Recv_wait_def
        Let_def METADATA_SIZE_def tag_defs)

lemma Recv_detects_on_entry:
  assumes "0 \<le> src" "src < MIMPI_World_size st" "src \<noteq> MIMPI_World_rank st"
    and "MIMPI_deadlock_enabled st" "MIMPI_ANY_TAG \<le> tg"
    and "MIMPI_received_messages st src = Elems q"
    and "find_elem_in_list q (create_message tg cnt src (Some buf)) = length q"
    and "MIMPI_others_recv st src = Elems (n # ws)" "MIMPI_ANY_TAG \<le> tag n"
  shows "MIMPI_Recv st buf cnt src tg =
     Returns MIMPI_ERROR_DEADLOCK_DETECTED
       (st\<lparr>MIMPI_waiting := MIMPI_DEFAULT_MSG,
           MIMPI_others_recv := (MIMPI_others_recv st)(src := Elems ws),
           wire := (if channel_open st src
                    then (wire st)(src := wire st src @ int_bytes MIMPI_DEFAULT_COUNT
                                   @ int_bytes MIMPI_DEADLOCK_TAG)
                    else wire st)\<rparr>) buf"
  using assms
  by (auto simp: MIMPI_Recv_def MIMPI_Send_def frame_def write_to_channel_def
        remove_from_list_def Let_def tag_defs)

lemma read_frame_waiting:
  assumes "c_int c" "c_int t"
  shows "read_frame (int_bytes METADATA_SIZE @ int_bytes MIMPI_WAITING_TAG @ int_bytes c @ int_bytes t @ rest)
         = Frame METADATA_SIZE MIMPI_WAITING_TAG (Some (int_bytes c @ int_bytes t)) rest"
  using read_frame_roundtrip[of METADATA_SIZE MIMPI_WAITING_TAG "int_bytes c @ int_bytes t" rest]
  by (simp add: c_int_def payload_bearing_def tag_defs METADATA_SIZE_def)

lemma read_frame_deadlock:
  assumes "c_int c"
  shows "read_frame (int_bytes c @ int_bytes MIMPI_DEADLOCK_TAG @ rest)
         = Frame c MIMPI_DEADLOCK_TAG None rest"
  using read_frame_roundtrip[of c MIMPI_DEADLOCK_TAG "[]" rest] assms
  by (simp add: c_int_def payload_bearing_def tag_defs)

lemma embedded_pair:
  assumes "c_int c" "c_int t"
  shows "bytes_int (take 4 (int_bytes c @ int_bytes t)) = c"
    "bytes_int (take 4 (drop 4 (int_bytes c @ int_bytes t))) = t"
  using assms by (simp_all add: c_int_def bytes_int_int_bytes)

lemma reader_records_notification:
  assumes "MIMPI_send_not_received st = Elems s"
    and "find_elem_in_list s (create_message t c src (Some (int_bytes c @ int_bytes t))) = length s"
    and "MIMPI_others_recv st src = Elems ws"
    and "c_int c" "c_int t" "t \<noteq> MIMPI_DEADLOCK_TAG"
  shows "handle_channel_iteration st src
           (int_bytes METADATA_SIZE @ int_bytes MIMPI_WAITING_TAG @ int_bytes c @ int_bytes t @ rest) =
         Some ((if source (MIMPI_waiting st) = src \<and> \<not> received (MIMPI_waiting st)
                then st\<lparr>MIMPI_waiting :=
                          (MIMPI_waiting st)\<lparr>tag := MIMPI_DEADLOCK_TAG, received := True\<rparr>\<rparr>
                else st)
               \<lparr>MIMPI_others_recv := (MIMPI_others_recv st)
                  (src := Elems (ws @ [create_message t c src (Some (int_bytes c @ int_bytes t))]))\<rparr>,
               Some rest)"
proof -
  have rf: "read_frame (int_bytes METADATA_SIZE @ int_bytes MIMPI_WAITING_TAG @ int_bytes c
                @ int_bytes t @ rest)
         = Frame METADATA_SIZE MIMPI_WAITING_TAG (Some (int_bytes c @ int_bytes t)) rest"
    by (rule read_frame_waiting[OF assms(4,5)])
  have ep: "bytes_int (take 4 (int_bytes c @ int_bytes t)) = c"
    "bytes_int (take 4 (drop 4 (int_bytes c @ int_bytes t))) = t"
    by (rule embedded_pair[OF assms(4,5)])+
  have ep': "bytes_int (int_bytes c) = c" "bytes_int (int_bytes t) = t"
    using assms(4,5) by (simp_all add: c_int_def bytes_int_int_bytes)
  show ?thesis
    unfolding handle_channel_iteration_def rf
    using assms(1,2,3,6)
    by (simp add: handle_message_def ep ep' push_front_def Let_def METADATA_SIZE_def)
qed

lemma reader_takes_deadlock_frame:
  assumes "MIMPI_others_recv st src = Elems ws" "c_int c"
  shows "handle_channel_iteration st src (int_bytes c @ int_bytes MIMPI_DEADLOCK_TAG @ rest) =
         Some (st\<lparr>MIMPI_waiting :=
                    (MIMPI_waiting st)\<lparr>tag := MIMPI_DEADLOCK_TAG, received := True\<rparr>,
                  MIMPI_others_recv := (MIMPI_others_recv st)
                    (src := Elems (ws @ [create_message MIMPI_DEADLOCK_TAG c src None]))\<rparr>,
               Some rest)"
proof -
  have rf: "read_frame (int_bytes c @ int_bytes MIMPI_DEADLOCK_TAG @ rest)
         = Frame c MIMPI_DEADLOCK_TAG None rest"
    by (rule read_frame_deadlock[OF assms(2)])
  show ?thesis
    unfolding handle_channel_iteration_def rf
    using assms(1)
    by (simp add: handle_message_def push_front_def tag_defs Let_def)
qed

lemma Recv_wakes_with_verdict:
  assumes "tag (MIMPI_waiting st) = MIMPI_DEADLOCK_TAG" "received (MIMPI_waiting st)"
    and "MIMPI_others_recv st src = Elems (n # ws)"
  shows "Recv_wait st buf cnt src tg =
         Returns MIMPI_ERROR_DEADLOCK_DETECTED
           (st\<lparr>MIMPI_waiting := MIMPI_DEFAULT_MSG,
               MIMPI_others_recv := (MIMPI_others_recv st)(src := Elems ws)\<rparr>) buf"
  using assms by (simp add: Recv_wait_def Recv_wake_def remove_from_list_def)

lemma decoded_int:
  assumes "c_int c"
  shows "bytes_int (int_bytes c) = c"
  using assms by (simp add: c_int_def bytes_int_int_bytes)

lemma create_message_sel:
  "tag (create_message t c s d) = t" "count (create_message t c s d) = c"
  "source (create_message t c s d) = s" "data (create_message t c s d) = d"
  "received (create_message t c s d) = False"
  by (simp_all add: create_message_def)

lemma int_bytes_sentinels:
  "int_bytes (- 4) = [252, 255, 255, 255]" "int_bytes 0 = [0, 0, 0, 0]"
  by code_simp+

text \<open>
  All interleavings of a true mutual wait, in the order in which \<^const>\<open>outcomes_within\<close>
  explores them.
\<close>

lemma mutual_wait_outcomes:
  assumes "true_mutual_wait p q sys"
  shows "outcomes_within p q 6 sys =
     replicate 6 (Some (Done MIMPI_ERROR_DEADLOCK_DETECTED, Done MIMPI_ERROR_DEADLOCK_DETECTED,
                    wire (procs sys p) q @ waiting_frame (calls sys p),
                    wire (procs sys q) p @ waiting_frame (calls sys q)))
     @ [Some (Done MIMPI_ERROR_DEADLOCK_DETECTED, Done MIMPI_ERROR_DEADLOCK_DETECTED,
                    wire (procs sys p) q @ waiting_frame (calls sys p),
                    wire (procs sys q) p @ deadlock_frame)]
     @ replicate 6 (Some (Done MIMPI_ERROR_DEADLOCK_DETECTED, Done MIMPI_ERROR_DEADLOCK_DETECTED,
                    wire (procs sys p) q @ waiting_frame (calls sys p),
                    wire (procs sys q) p @ waiting_frame (calls sys q)))
     @ [Some (Done MIMPI_ERROR_DEADLOCK_DETECTED, Done MIMPI_ERROR_DEADLOCK_DETECTED,
                    wire (procs sys p) q @ deadlock_frame,
                    wire (procs sys q) p @ waiting_frame (calls sys q))]"
  using assms
  apply (clarsimp simp: true_mutual_wait_def about_to_wait_def nothing_pending_def
           split: msg_list.splits)
  apply (simp add: eval_nat_numeral two_party_actions_def observe_def enabled_def step_def
           caller_result_def
           MIMPI_Recv_def MIMPI_Send_def frame_def write_to_channel_def Recv_wait_def Recv_wake_def
           handle_channel_iteration_def handle_message_def push_front_def remove_from_list_def
           read_frame_waiting[unfolded METADATA_SIZE_def tag_defs, where rest = "[]", simplified]
           read_frame_deadlock[unfolded tag_defs, where rest = "[]", simplified]
           decoded_int embedded_pair create_message_sel c_int_def[of "- 1"]
           waiting_frame_def deadlock_frame_def
           Let_def METADATA_SIZE_def MIMPI_DEFAULT_COUNT_def tag_defs)
  done

text \<open>
  Claim C9, as amended.  With deadlock detection enabled, let two processes \<open>p\<close> and \<open>q\<close> be
  in a true two-party mutual wait: each is about to receive from the other with a user tag
  (any tags and counts, not necessarily the same), no queued message matches either filter,
  no unacknowledged send of either side matches what the other waits for, both channels are
  open with every byte read, and neither side holds a notification of the other left over
  from an earlier receive.  Then in every interleaving of the two callers and the two
  readers both calls have returned deadlock-detected after at most six steps.  Each side has
  written exactly one frame: its WAITING notification, written before it parked, or an
  explicit DEADLOCK frame, written when on entering it found the notification of the other
  already recorded, and then it returned at once.  At most one side writes a DEADLOCK frame.
  A parked side is woken with the verdict by its own reader, on the WAITING notification of
  the other as well as on a DEADLOCK frame, and writes nothing after it wakes.
\<close>

theorem deadlock_verdicts:
  assumes "true_mutual_wait p q sys"
  shows "set (outcomes_within p q 6 sys) =
     {Some (Done MIMPI_ERROR_DEADLOCK_DETECTED, Done MIMPI_ERROR_DEADLOCK_DETECTED,
            wire (procs sys p) q @ waiting_frame (calls sys p),
            wire (procs sys q) p @ waiting_frame (calls sys q)),
      Some (Done MIMPI_ERROR_DEADLOCK_DETECTED, Done MIMPI_ERROR_DEADLOCK_DETECTED,
            wire (procs sys p) q @ waiting_frame (calls sys p),
            wire (procs sys q) p @ deadlock_frame),
      Some (Done MIMPI_ERROR_DEADLOCK_DETECTED, Done MIMPI_ERROR_DEADLOCK_DETECTED,
            wire (procs sys p) q @ deadlock_frame,
            wire (procs sys q) p @ waiting_frame (calls sys q))}"
  unfolding mutual_wait_outcomes[OF assms] by auto

theorem deadlock_verdicts_witness:
  "true_mutual_wait 0 1 mutual_wait \<and>
   set (outcomes_within 0 1 6 mutual_wait) =
     {Some (Done MIMPI_ERROR_DEADLOCK_DETECTED, Done MIMPI_ERROR_DEADLOCK_DETECTED,
            [8, 0, 0, 0, 251, 255, 255, 255, 4, 0, 0, 0, 0, 0, 0, 0],
            [8, 0, 0, 0, 251, 255, 255, 255, 4, 0, 0, 0, 0, 0, 0, 0]),
      Some (Done MIMPI_ERROR_DEADLOCK_DETECTED, Done MIMPI_ERROR_DEADLOCK_DETECTED,
            [8, 0, 0, 0, 251, 255, 255, 255, 4, 0, 0, 0, 0, 0, 0, 0],
            [255, 255, 255, 255, 252, 255, 255, 255]),
      Some (Done MIMPI_ERROR_DEADLOCK_DETECTED, Done MIMPI_ERROR_DEADLOCK_DETECTED,
            [255, 255, 255, 255, 252, 255, 255, 255],
            [8, 0, 0, 0, 251, 255, 255, 255, 4, 0, 0, 0, 0, 0, 0, 0])}"
proof -
  have h: "true_mutual_wait 0 1 mutual_wait"
    by (simp add: true_mutual_wait_def about_to_wait_def nothing_pending_def mutual_wait_def
          MIMPI_Init_def create_list_def c_int_def tag_defs)
  have w: "wire (procs mutual_wait 0) 1 = []" "wire (procs mutual_wait 1) 0 = []"
    by (simp_all add: mutual_wait_def MIMPI_Init_def)
  have f: "waiting_frame (calls mutual_wait 0) = [8, 0, 0, 0, 251, 255, 255, 255, 4, 0, 0, 0, 0, 0, 0, 0]"
    "waiting_frame (calls mutual_wait 1) = [8, 0, 0, 0, 251, 255, 255, 255, 4, 0, 0, 0, 0, 0, 0, 0]"
    "deadlock_frame = [255, 255, 255, 255, 252, 255, 255, 255]"
    by (simp_all add: waiting_frame_def deadlock_frame_def mutual_wait_def METADATA_SIZE_def
          tag_defs MIMPI_DEFAULT_COUNT_def int_bytes_values int_bytes_negative_values
          int_bytes_sentinels)
  show ?thesis using deadlock_verdicts[OF h] h unfolding w f by simp
qed

text \<open>
  The claim as the specification states it fails: when both callers have parked, each is
  woken by its own reader on the WAITING notification of the other, both return
  deadlock-detected, and each channel holds the WAITING frame only: no DEADLOCK frame is
  ever written, so no side is woken by one.  And two receives with an internal tag, here
  \<^verbatim>\<open>MIMPI_BROADCAST_TAG\<close>, take no part in the protocol (\<^verbatim>\<open>MIMPI_Recv\<close> runs it only when
  \<^verbatim>\<open>tag >= MIMPI_ANY_TAG\<close>): both callers park, nothing is written, and no step is left.
\<close>

theorem both_woken_by_own_reader_counterexample:
  "map_option (observe 0 1) (run [Enter 0, Enter 1] mutual_wait) =
     Some (Parked, Parked,
       [8, 0, 0, 0, 251, 255, 255, 255, 4, 0, 0, 0, 0, 0, 0, 0],
       [8, 0, 0, 0, 251, 255, 255, 255, 4, 0, 0, 0, 0, 0, 0, 0]) \<and>
   map_option (observe 0 1)
     (run [Enter 0, Enter 1, Reader 0 1, Wake 0, Reader 1 0, Wake 1] mutual_wait) =
     Some (Done MIMPI_ERROR_DEADLOCK_DETECTED, Done MIMPI_ERROR_DEADLOCK_DETECTED,
       [8, 0, 0, 0, 251, 255, 255, 255, 4, 0, 0, 0, 0, 0, 0, 0],
       [8, 0, 0, 0, 251, 255, 255, 255, 4, 0, 0, 0, 0, 0, 0, 0]) \<and>
   int_bytes METADATA_SIZE @ int_bytes MIMPI_WAITING_TAG @ int_bytes 4 @ int_bytes 0 =
     [8, 0, 0, 0, 251, 255, 255, 255, 4, 0, 0, 0, 0, 0, 0, 0] \<and>
   int_bytes MIMPI_DEFAULT_COUNT @ int_bytes MIMPI_DEADLOCK_TAG =
     [255, 255, 255, 255, 252, 255, 255, 255] \<and>
   outcomes_within 0 1 2
     (mutual_wait\<lparr>calls := (\<lambda>r. (calls mutual_wait r)\<lparr>arg_tag := MIMPI_BROADCAST_TAG\<rparr>)\<rparr>) =
     [Some (Parked, Parked, [], []), Some (Parked, Parked, [], [])]"
  by code_simp

text \<open>
  A notification left over from an earlier receive is outside the statement above, and the
  verdicts do fail with one.  After the exchange \<open>any_tag_exchange\<close> the notification of the
  wait of rank 1 with \<^verbatim>\<open>MIMPI_ANY_TAG\<close> is still recorded at rank 0, since the send with tag 5
  that served it did not remove it, while every byte written has been read.  Let rank 0 then
  enter its receive: it takes the old notification for a wait of now, writes a DEADLOCK
  frame and returns deadlock-detected.  If the reader of rank 1 takes that frame before
  rank 1 enters its own receive, the verdict is overwritten on entry: rank 1 parks, and when
  the reader of rank 0 has taken its notification no step is left.  This is the defect of
  \<^verbatim>\<open>MIMPI_Send\<close> met above for a peer that has left.
\<close>

lemma leftover_notification_parks_one_side:
  "map_option
     (\<lambda>s. (MIMPI_others_recv (procs s 0) 1,
            consumed s 0 1 = length (wire (procs s 1) 0),
            consumed s 1 0 = length (wire (procs s 0) 1)))
     any_tag_exchange =
     Some (Elems [create_message MIMPI_ANY_TAG 4 1 (Some (int_bytes 4 @ int_bytes MIMPI_ANY_TAG))],
           True, True) \<and>
   map_option (\<lambda>s. map (map_option (\<lambda>(a, b, w, w'). (a, b))) (outcomes_within 0 1 0 s))
     (Option.bind any_tag_exchange (run [Enter 0, Reader 1 0, Enter 1, Reader 0 1])) =
     Some [Some (Done MIMPI_ERROR_DEADLOCK_DETECTED, Parked)]"
  by code_simp

end
